(* ===== verification/Prelude.thy ===== *)
theory Prelude
  imports Main "HOL-Library.AList" "HOL-Library.Word" "HOL-Library.List_Lexorder"
    "HOL-Library.Char_ord" "HOL-Library.Sublist" "HOL-Library.Multiset"
begin

text \<open>
  Shared vocabulary of the development: Go strings (byte strings, so \<open>string\<close>), the functions of
  Go's package \<open>strings\<close> that the program calls, Go maps, and the fact collections the component
  theories feed and use.
\<close>

named_theorems gomap_simps \<open>lookup after update and deletion in a Go map\<close>
named_theorems gostr_simps \<open>laws of the Go string functions\<close>

section \<open>Go maps\<close>

text \<open>
  A Go \<open>map[string]T\<close> is an association list with distinct keys. The order of the list is the
  order in which a \<open>range\<close> loop visits the map; Go leaves that order open, so statements
  quantify over every list. \<open>map_of\<close> reads a key, \<open>AList.update\<close> writes one, \<open>AList.delete\<close>
  is the builtin \<open>delete\<close>.
\<close>

type_synonym 'v gomap = "(string \<times> 'v) list"

abbreviation gomap_ok :: "('k \<times> 'v) list \<Rightarrow> bool" where
  "gomap_ok m \<equiv> distinct (map fst m)"

text \<open>Writing all entries of a map over another, as \<open>for k, v := range src { dst[k] = v }\<close> does.\<close>

fun write_all :: "('k \<times> 'v) list \<Rightarrow> ('k \<times> 'v) list \<Rightarrow> ('k \<times> 'v) list" where
  "write_all dst [] = dst"
| "write_all dst ((k, v) # src) = write_all (AList.update k v dst) src"

lemma map_of_update [gomap_simps]:
  "map_of (AList.update k v m) k' = (if k' = k then Some v else map_of m k')"
  by (simp add: update_conv')

lemma map_of_delete [gomap_simps]:
  "map_of (AList.delete k m) k' = (if k' = k then None else map_of m k')"
  by (simp add: delete_conv')

lemma gomap_ok_update [simp, intro]: "gomap_ok m \<Longrightarrow> gomap_ok (AList.update k v m)"
  by (rule distinct_update)

lemma gomap_ok_delete [simp, intro]: "gomap_ok m \<Longrightarrow> gomap_ok (AList.delete k m)"
  by (rule distinct_delete)

lemma gomap_ok_write_all [simp, intro]: "gomap_ok dst \<Longrightarrow> gomap_ok (write_all dst src)"
  by (induction dst src rule: write_all.induct) auto

lemma map_of_write_all [gomap_simps]:
  "gomap_ok src \<Longrightarrow> map_of (write_all dst src) = map_of dst ++ map_of src"
proof (induction dst src rule: write_all.induct)
  case (1 dst)
  then show ?case by simp
next
  case (2 dst k v src)
  then have "k \<notin> fst ` set src" by simp
  then have "map_of src k = None" by (simp add: map_of_eq_None_iff)
  with 2 show ?case
    by (auto simp: gomap_simps map_add_def fun_eq_iff split: option.splits)
qed

lemma length_write_all_ge: "length dst \<le> length (write_all dst src)"
proof (induction dst src rule: write_all.induct)
  case (2 dst k v src)
  have "length dst \<le> length (AList.update k v dst)" by (induction dst) auto
  with 2 show ?case by simp
qed simp

lemma map_of_cong_update:
  "map_of m = map_of m' \<Longrightarrow> map_of (AList.update k v m) = map_of (AList.update k v m')"
  by (simp add: update_conv')

lemma gomap_in_set_iff: "gomap_ok m \<Longrightarrow> (k, v) \<in> set m \<longleftrightarrow> map_of m k = Some v"
  by simp

section \<open>Go strings\<close>

text \<open>
  \<open>strings.Split\<close> with a separator of one character, \<open>strings.Join\<close>, \<open>strings.TrimPrefix\<close>,
  \<open>strings.HasPrefix\<close>, \<open>strings.Contains\<close> and \<open>strings.ReplaceAll\<close> (for a non-empty old string:
  the occurrences are found from the left and do not overlap).
\<close>

fun split_on :: "char \<Rightarrow> string \<Rightarrow> string list" where
  "split_on c [] = [[]]"
| "split_on c (x # xs) =
     (if x = c then [] # split_on c xs
      else (case split_on c xs of [] \<Rightarrow> [[x]] | p # ps \<Rightarrow> (x # p) # ps))"

fun join_with :: "string \<Rightarrow> string list \<Rightarrow> string" where
  "join_with sep [] = []"
| "join_with sep [x] = x"
| "join_with sep (x # y # ys) = x @ sep @ join_with sep (y # ys)"

definition trim_prefix :: "string \<Rightarrow> string \<Rightarrow> string" where
  "trim_prefix s p = (if prefix p s then drop (length p) s else s)"

fun contains_sub :: "string \<Rightarrow> string \<Rightarrow> bool" where
  "contains_sub [] p = (p = [])"
| "contains_sub (x # xs) p = (prefix p (x # xs) \<or> contains_sub xs p)"

function replace_all :: "string \<Rightarrow> string \<Rightarrow> string \<Rightarrow> string" where
  "replace_all old new s =
     (case s of
        [] \<Rightarrow> []
      | x # xs \<Rightarrow>
          if old \<noteq> [] \<and> prefix old s then new @ replace_all old new (drop (length old) s)
          else x # replace_all old new xs)"
  by pat_completeness auto
termination
  by (relation "measure (\<lambda>(old, new, s). length s)") auto

declare replace_all.simps [simp del]

text \<open>
  Case mapping of ASCII letters (\<open>strings.ToUpper\<close>, \<open>strings.ToLower\<close>, \<open>strings.ToTitle\<close> on
  the method and encoding names the program compares).
\<close>

definition upper_char :: "char \<Rightarrow> char" where
  "upper_char c = (if CHR ''a'' \<le> c \<and> c \<le> CHR ''z'' then char_of (of_char c - 32 :: nat) else c)"

definition lower_char :: "char \<Rightarrow> char" where
  "lower_char c = (if CHR ''A'' \<le> c \<and> c \<le> CHR ''Z'' then char_of (of_char c + 32 :: nat) else c)"

definition to_upper :: "string \<Rightarrow> string" where
  "to_upper = map upper_char"

definition to_lower :: "string \<Rightarrow> string" where
  "to_lower = map lower_char"

text \<open>Decimal rendering, as \<open>fmt.Sprint\<close>, \<open>%d\<close> and \<open>strconv.Itoa\<close> print an integer.\<close>

fun show_nat :: "nat \<Rightarrow> string" where
  "show_nat n = (if n < 10 then [char_of (48 + n)] else show_nat (n div 10) @ [char_of (48 + n mod 10)])"

declare show_nat.simps [simp del]

definition show_int :: "int \<Rightarrow> string" where
  "show_int i = (if i < 0 then CHR ''-'' # show_nat (nat (- i)) else show_nat (nat i))"

lemma split_on_not_Nil [simp]: "split_on c s \<noteq> []"
  by (cases s) (auto split: list.splits)

lemma join_split_on [gostr_simps]: "join_with [c] (split_on c s) = s"
proof (induction s)
  case Nil
  then show ?case by simp
next
  case (Cons x xs)
  obtain p ps where ps: "split_on c xs = p # ps"
    by (cases "split_on c xs") auto
  with Cons show ?case by (cases ps) auto
qed

lemma split_on_parts: "p \<in> set (split_on c s) \<Longrightarrow> c \<notin> set p"
  by (induction s arbitrary: p) (auto split: list.splits if_splits)

lemma split_on_no_sep [gostr_simps]: "c \<notin> set s \<Longrightarrow> split_on c s = [s]"
  by (induction s) auto

lemma replace_all_Nil [simp]: "replace_all old new [] = []"
  by (simp add: replace_all.simps)

lemma contains_sub_drop: "\<not> contains_sub (x # xs) p \<Longrightarrow> \<not> contains_sub xs p"
  by simp

lemma contains_sub_iff: "contains_sub s p \<longleftrightarrow> sublist p s"
  by (induction s) (auto simp: sublist_Cons_right)

lemma replace_all_absent [gostr_simps]:
  assumes "\<not> contains_sub s old"
  shows "replace_all old new s = s"
  using assms by (induction s) (auto simp: replace_all.simps)

lemma replace_all_hit:
  assumes "old \<noteq> []"
  shows "replace_all old new (old @ s) = new @ replace_all old new s"
  using assms by (subst replace_all.simps) (cases old, auto)

lemma replace_all_miss:
  assumes "\<not> prefix old (x # xs)"
  shows "replace_all old new (x # xs) = x # replace_all old new xs"
  using assms by (subst replace_all.simps) simp

lemma trim_prefix_append [gostr_simps]: "trim_prefix (p @ s) p = s"
  by (simp add: trim_prefix_def)

end
