(* ===== verification/Values.thy ===== *)
theory Values
  imports Prelude
begin

text \<open>
  The dynamically typed values (\<open>interface{}\<close>) the program handles: decoded response bodies and
  the free-form parts of the configuration. \<open>VNumber\<close> is \<open>json.Number\<close> (the decoders of
  \<open>src/encoding/encoding.go\<close> call \<open>UseNumber\<close>), \<open>VFloat\<close> a \<open>float64\<close> given by its 64 bits.
  \<open>vget\<close> follows a path of keys through nested maps; it is the language in which the filters of
  \<open>src/proxy/formatter.go\<close> are specified.
\<close>

named_theorems vget_simps \<open>path lookup in nested maps\<close>

section \<open>Errors\<close>

text \<open>
  The error values of the packages modelled, by the variable or type the source gives them;
  \<open>ErrMsg\<close> is any other error with that message.
\<close>

datatype goerror =
    ErrMsg string
  | ErrNullResult                 \<comment> \<open>\<open>proxy.errNullResult\<close>\<close>
  | ErrNoBackends                 \<comment> \<open>\<open>proxy.ErrNoBackends\<close>\<close>
  | ErrNoHosts                    \<comment> \<open>\<open>sd.ErrNoHosts\<close>\<close>
  | ErrInternalError              \<comment> \<open>\<open>server.ErrInternalError\<close>\<close>
  | ErrCtx string                 \<comment> \<open>\<open>ctx.Err()\<close>\<close>
  | ErrInvalidStatusCode          \<comment> \<open>\<open>client.ErrInvalidStatusCode\<close>\<close>
  | ErrInvalidStatus int string string        \<comment> \<open>status code, prefix, path\<close>
  | HTTPResponseError int string string       \<comment> \<open>code, message, encoding\<close>
  | NamedHTTPResponseError int string string string  \<comment> \<open>code, message, encoding, name\<close>
  | MergeError "goerror list"     \<comment> \<open>\<open>proxy.mergeError\<close>\<close>

text \<open>The \<open>Error()\<close> method of each.\<close>

fun error_text :: "goerror \<Rightarrow> string" where
  "error_text (ErrMsg s) = s"
| "error_text ErrNullResult = ''invalid response''"
| "error_text ErrNoBackends = ''all endpoints must have at least one backend''"
| "error_text ErrNoHosts = ''no hosts available''"
| "error_text ErrInternalError = ''internal server error''"
| "error_text (ErrCtx s) = s"
| "error_text ErrInvalidStatusCode = ''invalid status code''"
| "error_text (ErrInvalidStatus c p u) =
     ''invalid status code '' @ show_int c @ '' '' @ p @ '' '' @ u"
| "error_text (HTTPResponseError c m e) = m"
| "error_text (NamedHTTPResponseError c m e n) = m"
| "error_text (MergeError es) = join_with [CHR 0x0A] (map error_text es)"

section \<open>Values\<close>

datatype gval =
    VNil
  | VBool bool
  | VInt int
  | VFloat "64 word"
  | VNumber string
  | VString string
  | VList "gval list"
  | VMap "(string \<times> gval) list"
  | VAnyMap "(gval \<times> gval) list"  \<comment> \<open>\<open>map[interface{}]interface{}\<close>, as YAML decoders make\<close>
  | VErr goerror  \<comment> \<open>an error kept as a value\<close>

type_synonym gobj = "gval gomap"

fun is_map :: "gval \<Rightarrow> bool" where
  "is_map (VMap m) = True"
| "is_map _ = False"

fun vget :: "gval \<Rightarrow> string list \<Rightarrow> gval option" where
  "vget v [] = Some v"
| "vget (VMap m) (k # ks) = (case map_of m k of None \<Rightarrow> None | Some v \<Rightarrow> vget v ks)"
| "vget _ (k # ks) = None"

text \<open>Every map inside the value has distinct keys, as every Go map does.\<close>

fun gval_ok :: "gval \<Rightarrow> bool" where
  "gval_ok (VList vs) = (\<forall>v \<in> set vs. gval_ok v)"
| "gval_ok (VMap m) = (distinct (map fst m) \<and> (\<forall>kv \<in> set m. gval_ok (snd kv)))"
| "gval_ok _ = True"

lemma gval_ok_map_Nil [simp]: "gval_ok (VMap [])"
  by simp

lemma gval_ok_map_Cons [simp]:
  "gval_ok (VMap ((k, v) # m)) \<longleftrightarrow> k \<notin> fst ` set m \<and> gval_ok v \<and> gval_ok (VMap m)"
  by auto

lemma gval_ok_mapI:
  "gomap_ok m \<Longrightarrow> (\<And>k v. (k, v) \<in> set m \<Longrightarrow> gval_ok v) \<Longrightarrow> gval_ok (VMap m)"
  by auto

lemma gval_ok_mapD:
  "gval_ok (VMap m) \<Longrightarrow> gomap_ok m" "gval_ok (VMap m) \<Longrightarrow> (k, v) \<in> set m \<Longrightarrow> gval_ok v"
  by auto

declare gval_ok.simps(2) [simp del]

lemma is_map_iff: "is_map v \<longleftrightarrow> (\<exists>m. v = VMap m)"
  by (cases v) auto

lemma vget_not_map [vget_simps]: "\<not> is_map v \<Longrightarrow> vget v p = (if p = [] then Some v else None)"
  by (cases "(v, p)" rule: vget.cases) auto

lemma vget_update [vget_simps]:
  "vget (VMap (AList.update k x m)) (k' # ks) = (if k' = k then vget x ks else vget (VMap m) (k' # ks))"
  by (simp add: gomap_simps)

lemma vget_delete [vget_simps]:
  "vget (VMap (AList.delete k m)) (k' # ks) = (if k' = k then None else vget (VMap m) (k' # ks))"
  by (simp add: gomap_simps)

lemma vget_append: "vget v (p @ q) = (case vget v p of None \<Rightarrow> None | Some w \<Rightarrow> vget w q)"
  by (induction v p rule: vget.induct) (auto split: option.splits)

lemma gval_ok_lookup: "gval_ok (VMap m) \<Longrightarrow> map_of m k = Some v \<Longrightarrow> gval_ok v"
  by (auto dest: map_of_SomeD gval_ok_mapD)

lemma set_update_subset: "set (AList.update k v m) \<subseteq> insert (k, v) (set m)"
  by (induction m) auto

lemma gval_ok_update: "gval_ok (VMap m) \<Longrightarrow> gval_ok v \<Longrightarrow> gval_ok (VMap (AList.update k v m))"
  using set_update_subset[of k v m]
  by (auto intro!: gval_ok_mapI dest: gval_ok_mapD simp: distinct_update)

lemma set_delete_subset: "set (AList.delete k m) \<subseteq> set m"
  by (induction m) auto

lemma gval_ok_delete: "gval_ok (VMap m) \<Longrightarrow> gval_ok (VMap (AList.delete k m))"
  using set_delete_subset[of k m]
  by (auto intro!: gval_ok_mapI dest: gval_ok_mapD simp: distinct_delete)

lemma gval_ok_vget: "gval_ok v \<Longrightarrow> vget v p = Some w \<Longrightarrow> gval_ok w"
  by (induction v p rule: vget.induct) (auto split: option.splits dest: gval_ok_lookup)

text \<open>The size of a map, the measure by which the recursive filters terminate.\<close>

fun obj_size :: "gobj \<Rightarrow> nat" where
  "obj_size [] = 0"
| "obj_size ((k, v) # m) = Suc (size v + obj_size m)"

lemma obj_size_less [simp]: "obj_size m < size (VMap m)"
  by (induction m) (auto split: prod.splits)

lemma obj_size_less_entry [simp]:
  "obj_size m < Suc (Suc (size_list (size_prod (\<lambda>x. 0) size) m + n))"
  using obj_size_less [of m] by simp

section \<open>Printing\<close>

text \<open>
  Printing a value with \<open>%v\<close>; \<open>ff\<close> is the formatting of a \<open>float64\<close>. \<open>fmt\<close> sorts the keys of a
  map (those of a \<open>map[interface{}]interface{}\<close> are taken to be strings here).
\<close>

fun fmt_v :: "(64 word \<Rightarrow> string) \<Rightarrow> gval \<Rightarrow> string" where
  "fmt_v ff VNil = ''<nil>''"
| "fmt_v ff (VBool b) = (if b then ''true'' else ''false'')"
| "fmt_v ff (VInt i) = show_int i"
| "fmt_v ff (VFloat w) = ff w"
| "fmt_v ff (VNumber s) = s"
| "fmt_v ff (VString s) = s"
| "fmt_v ff (VList vs) = ''['' @ join_with '' '' (map (fmt_v ff) vs) @ '']''"
| "fmt_v ff (VMap m) =
     ''map['' @ join_with '' '' (map (\<lambda>kv. fst kv @ '':'' @ snd kv)
       (sort_key fst (map (\<lambda>kv. (fst kv, fmt_v ff (snd kv))) m))) @ '']''"
| "fmt_v ff (VAnyMap m) =
     ''map['' @ join_with '' '' (map (\<lambda>kv. fst kv @ '':'' @ snd kv)
       (sort_key fst (map (\<lambda>kv. (fmt_v ff (fst kv), fmt_v ff (snd kv))) m))) @ '']''"
| "fmt_v ff (VErr e) = error_text e"

end
