(* ===== verification/Registers.thy ===== *)
theory Registers
  imports Values
begin

text \<open>
  The registers of \<open>src/register/register.go\<close> and the typed registers built on them: response
  combiners (\<open>src/proxy/register.go\<close>), service discovery (\<open>src/sd/register.go\<close>) and decoders
  (\<open>src/encoding/register.go\<close>, in theory \<open>Encoding\<close>). Locks are not modelled: every operation
  holds the register's mutex for its whole body, so operations are atomic.
\<close>

section \<open>The interface of a register\<close>

locale keyed_register =
  fixes empty_reg :: 'r
    and put :: "'k \<Rightarrow> 'v \<Rightarrow> 'r \<Rightarrow> 'r"
    and look :: "'r \<Rightarrow> 'k \<Rightarrow> 'v option"
  assumes look_empty: "look empty_reg k = None"
    and look_put: "look (put k v r) k' = (if k' = k then Some v else look r k')"
begin

lemma look_put_same: "look (put k v r) k = Some v"
  by (simp add: look_put)

lemma look_put_other: "k' \<noteq> k \<Longrightarrow> look (put k v r) k' = look r k'"
  by (simp add: look_put)

text \<open>The last registration of a key wins.\<close>

lemma look_registrations:
  "look (fold (\<lambda>(k, v). put k v) kvs r) k =
     (case map_of (rev kvs) k of None \<Rightarrow> look r k | Some v \<Rightarrow> Some v)"
proof (induction kvs rule: rev_induct)
  case (snoc kv kvs)
  then show ?case by (cases kv) (auto simp: look_put)
qed simp

lemma look_registrations_empty:
  "look (fold (\<lambda>(k, v). put k v) kvs empty_reg) k = map_of (rev kvs) k"
  by (simp add: look_registrations look_empty split: option.split)

end

section \<open>Untyped and namespaced registers\<close>

type_synonym 'v untyped = "'v gomap"
type_synonym 'v namespaced = "'v untyped gomap"

definition new_untyped :: "'v untyped" where
  "new_untyped = []"

definition untyped_register :: "string \<Rightarrow> 'v \<Rightarrow> 'v untyped \<Rightarrow> 'v untyped" where
  "untyped_register name v u = AList.update name v u"

definition untyped_get :: "'v untyped \<Rightarrow> string \<Rightarrow> 'v option" where
  "untyped_get u name = map_of u name"

definition untyped_clone :: "'v untyped \<Rightarrow> 'v gomap" where
  "untyped_clone u = write_all [] u"

interpretation untyped: keyed_register new_untyped untyped_register untyped_get
  by unfold_locales
     (auto simp: new_untyped_def untyped_get_def untyped_register_def gomap_simps)

lemma untyped_clone_snapshot: "gomap_ok u \<Longrightarrow> map_of (untyped_clone u) = untyped_get u"
  by (auto simp: untyped_clone_def untyped_get_def gomap_simps)

definition new_namespaced :: "'v namespaced" where
  "new_namespaced = new_untyped"

definition namespaced_get :: "'v namespaced \<Rightarrow> string \<Rightarrow> 'v untyped option" where
  "namespaced_get n namespace = untyped_get n namespace"

definition namespaced_register :: "string \<Rightarrow> string \<Rightarrow> 'v \<Rightarrow> 'v namespaced \<Rightarrow> 'v namespaced" where
  "namespaced_register namespace name v n =
     (case namespaced_get n namespace of
        Some reg \<Rightarrow> untyped_register namespace (untyped_register name v reg) n
      | None \<Rightarrow> untyped_register namespace (untyped_register name v new_untyped) n)"

definition add_namespace :: "string \<Rightarrow> 'v namespaced \<Rightarrow> 'v namespaced" where
  "add_namespace namespace n =
     (case namespaced_get n namespace of
        Some _ \<Rightarrow> n
      | None \<Rightarrow> untyped_register namespace new_untyped n)"

text \<open>Reading a name under a namespace, as the plugin packages do (\<open>Get\<close>, then \<open>Get\<close>).\<close>

definition namespaced_find :: "'v namespaced \<Rightarrow> string \<times> string \<Rightarrow> 'v option" where
  "namespaced_find n k = Option.bind (namespaced_get n (fst k)) (\<lambda>reg. untyped_get reg (snd k))"

interpretation namespaced: keyed_register new_namespaced
  "\<lambda>k. namespaced_register (fst k) (snd k)" namespaced_find
proof unfold_locales
  fix k :: "string \<times> string"
  show "namespaced_find (new_namespaced :: 'v namespaced) k = None"
    by (simp add: namespaced_find_def namespaced_get_def new_namespaced_def untyped.look_empty)
next
  fix k k' :: "string \<times> string" and v and r :: "'v namespaced"
  show "namespaced_find (namespaced_register (fst k) (snd k) v r) k' =
      (if k' = k then Some v else namespaced_find r k')"
    by (cases k; cases k')
       (auto simp: namespaced_find_def namespaced_register_def namespaced_get_def
          untyped.look_put untyped.look_empty split: option.splits)
qed

lemma add_namespace_find: "namespaced_find (add_namespace ns n) k = namespaced_find n k"
  by (auto simp: add_namespace_def namespaced_find_def namespaced_get_def untyped.look_put
      untyped.look_empty split: option.split)

lemma add_namespace_present: "namespaced_get (add_namespace ns n) ns \<noteq> None"
  by (auto simp: add_namespace_def namespaced_get_def untyped.look_put split: option.split)

section \<open>Typed registers with a fallback\<close>

text \<open>
  A typed register stores \<open>interface{}\<close> values and asserts their type when it reads them:
  \<open>Some f\<close> is a value of the asserted type, \<open>None\<close> a value of any other type. The combiner
  register falls back for an unknown name, and reports whether the name was known and of the right type.
\<close>

record 'f combiner_register =
  cr_data :: "'f option untyped"
  cr_fallback :: 'f

definition new_combiner_register :: "'f gomap \<Rightarrow> 'f \<Rightarrow> 'f combiner_register" where
  "new_combiner_register d fb =
     \<lparr>cr_data = fold (\<lambda>(k, v). untyped_register k (Some v)) d new_untyped, cr_fallback = fb\<rparr>"

definition get_response_combiner :: "'f combiner_register \<Rightarrow> string \<Rightarrow> 'f \<times> bool" where
  "get_response_combiner r name =
     (case untyped_get (cr_data r) name of
        None \<Rightarrow> (cr_fallback r, False)
      | Some (Some rc) \<Rightarrow> (rc, True)
      | Some None \<Rightarrow> (cr_fallback r, True))"

definition set_response_combiner :: "string \<Rightarrow> 'f \<Rightarrow> 'f combiner_register \<Rightarrow> 'f combiner_register" where
  "set_response_combiner name rc r = r\<lparr>cr_data := untyped_register name (Some rc) (cr_data r)\<rparr>"

lemma get_set_response_combiner:
  "get_response_combiner (set_response_combiner name rc r) n =
     (if n = name then (rc, True) else get_response_combiner r n)"
  by (simp add: get_response_combiner_def set_response_combiner_def untyped.look_put split: option.split)

lemma get_new_combiner_register:
  "get_response_combiner (new_combiner_register [(n, f)] fb) k = (if k = n then (f, True) else (fb, False))"
  by (simp add: get_response_combiner_def new_combiner_register_def untyped.look_put untyped.look_empty)

text \<open>\<open>sd.Register.Get\<close>: \<open>FixedSubscriberFactory\<close> for an unknown name or a value of another type.\<close>

definition sd_register_get :: "'f \<Rightarrow> 'f option untyped \<Rightarrow> string \<Rightarrow> 'f" where
  "sd_register_get fixed r name =
     (case untyped_get r name of Some (Some sf) \<Rightarrow> sf | _ \<Rightarrow> fixed)"

definition sd_register_put :: "string \<Rightarrow> 'f \<Rightarrow> 'f option untyped \<Rightarrow> 'f option untyped" where
  "sd_register_put name sf r = untyped_register name (Some sf) r"

lemma sd_register_get_put:
  "sd_register_get fixed (sd_register_put name sf r) n =
     (if n = name then sf else sd_register_get fixed r n)"
  by (simp add: sd_register_get_def sd_register_put_def untyped.look_put)

end
