(* ===== verification/Encoding.thy ===== *)
theory Encoding
  imports Registers
begin

text \<open>
  Response decoders (\<open>src/encoding/encoding.go\<close>) and their register
  (\<open>src/encoding/register.go\<close>). A body is a reader: the bytes it yields and the error it ends
  with, if any. \<open>js\<close> stands for \<open>encoding/json\<close>'s decoder with \<open>UseNumber\<close>: the first JSON
  value of the body, or an error. A decoder's result is the map it leaves in \<open>*v\<close>, which is nil
  (\<open>None\<close>) before the call.
\<close>

record reader =
  rd_content :: string
  rd_err :: "goerror option"

type_synonym json_dec = "reader \<Rightarrow> goerror + gval"
type_synonym decoder = "reader \<Rightarrow> goerror + gobj option"
type_synonym decoder_factory = "bool \<Rightarrow> decoder"

definition NOOP :: string where "NOOP = ''no-op''"
definition JSON :: string where "JSON = ''json''"
definition SAFE_JSON :: string where "SAFE_JSON = ''safejson''"
definition STRING :: string where "STRING = ''string''"

definition noop_decoder :: decoder where
  "noop_decoder r = Inr None"

definition noop_decoder_factory :: decoder_factory where
  "noop_decoder_factory c = noop_decoder"

text \<open>
  Decoding a JSON value into a \<open>map[string]interface{}\<close>: \<open>null\<close> leaves a nil map, anything
  that is not an object is an unmarshal error. Likewise for a slice.
\<close>

definition err_unmarshal :: goerror where
  "err_unmarshal = ErrMsg ''json: cannot unmarshal''"

definition json_decoder :: "json_dec \<Rightarrow> decoder" where
  "json_decoder js r =
     (case js r of
        Inl e \<Rightarrow> Inl e
      | Inr (VMap m) \<Rightarrow> Inr (Some m)
      | Inr VNil \<Rightarrow> Inr None
      | Inr _ \<Rightarrow> Inl err_unmarshal)"

definition json_collection_decoder :: "json_dec \<Rightarrow> decoder" where
  "json_collection_decoder js r =
     (case js r of
        Inl e \<Rightarrow> Inl e
      | Inr (VList vs) \<Rightarrow> Inr (Some [(''collection'', VList vs)])
      | Inr VNil \<Rightarrow> Inr (Some [(''collection'', VList [])])
      | Inr _ \<Rightarrow> Inl err_unmarshal)"

definition new_json_decoder :: "json_dec \<Rightarrow> decoder_factory" where
  "new_json_decoder js isCollection =
     (if isCollection then json_collection_decoder js else json_decoder js)"

definition safe_json_decoder :: "json_dec \<Rightarrow> decoder" where
  "safe_json_decoder js r =
     (case js r of
        Inl e \<Rightarrow> Inl e
      | Inr t \<Rightarrow>
          (case t of
             VMap m \<Rightarrow> Inr (Some m)
           | VList vs \<Rightarrow> Inr (Some [(''collection'', VList vs)])
           | _ \<Rightarrow> Inr (Some [(''content'', t)])))"

definition new_safe_json_decoder :: "json_dec \<Rightarrow> decoder_factory" where
  "new_safe_json_decoder js c = safe_json_decoder js"

text \<open>\<open>StringDecoder\<close>: \<open>io.ReadAll\<close> reports the reader's error, if it ends with one.\<close>

definition string_decoder :: decoder where
  "string_decoder r =
     (case rd_err r of
        Some e \<Rightarrow> Inl e
      | None \<Rightarrow> Inr (Some [(''content'', VString (rd_content r))]))"

definition new_string_decoder :: decoder_factory where
  "new_string_decoder c = string_decoder"

section \<open>The decoder register\<close>

type_synonym decoder_register = "decoder_factory option untyped"

definition decoder_register_put :: "string \<Rightarrow> decoder_factory \<Rightarrow> decoder_register \<Rightarrow> decoder_register" where
  "decoder_register_put name dec r = untyped_register name (Some dec) r"

fun decoder_lookup :: "decoder_register \<Rightarrow> string list \<Rightarrow> decoder_factory option" where
  "decoder_lookup r [] = None"
| "decoder_lookup r (n # ns) =
     (case untyped_get r n of Some (Some dec) \<Rightarrow> Some dec | _ \<Rightarrow> decoder_lookup r ns)"

definition decoder_register_get :: "json_dec \<Rightarrow> decoder_register \<Rightarrow> string \<Rightarrow> decoder_factory" where
  "decoder_register_get js r name =
     (case decoder_lookup r [name, JSON] of Some dec \<Rightarrow> dec | None \<Rightarrow> new_json_decoder js)"

definition default_decoders :: "json_dec \<Rightarrow> decoder_factory gomap" where
  "default_decoders js =
     [(JSON, new_json_decoder js), (SAFE_JSON, new_safe_json_decoder js),
      (STRING, new_string_decoder), (NOOP, noop_decoder_factory)]"

definition init_decoder_register :: "json_dec \<Rightarrow> decoder_register" where
  "init_decoder_register js =
     fold (\<lambda>(k, v). decoder_register_put k v) (default_decoders js) new_untyped"

lemmas encoding_names = NOOP_def JSON_def SAFE_JSON_def STRING_def

lemma init_decoder_register_get:
  "untyped_get (init_decoder_register js) k = map_option Some (map_of (default_decoders js) k)"
  by (auto simp: init_decoder_register_def decoder_register_put_def default_decoders_def
      untyped.look_put untyped.look_empty encoding_names)

lemma decoder_register_get_put_same:
  "decoder_register_get js (decoder_register_put name dec r) name = dec"
  by (simp add: decoder_register_get_def decoder_register_put_def untyped.look_put)

lemma default_decoders_JSON: "map_of (default_decoders js) JSON = Some (new_json_decoder js)"
  by (simp add: default_decoders_def)

lemma decoder_register_get_init:
  "decoder_register_get js (init_decoder_register js) enc =
     (case map_of (default_decoders js) enc of Some dec \<Rightarrow> dec | None \<Rightarrow> new_json_decoder js)"
  by (simp add: decoder_register_get_def init_decoder_register_get default_decoders_JSON
      split: option.split)

lemma decoder_register_get_put:
  "decoder_register_get js (decoder_register_put name dec r) enc =
     (if enc = name then dec
      else case untyped_get r enc of
             Some (Some d) \<Rightarrow> d
           | _ \<Rightarrow> if name = JSON then dec else decoder_register_get js r enc)"
  by (simp add: decoder_register_get_def decoder_register_put_def untyped.look_put
      split: option.split)

text \<open>
  The decoder a backend gets: the last one registered under its encoding; for an unknown
  encoding the one registered as \<open>json\<close>, and with no such entry the built-in JSON decoder.
  Registering under another name never changes what a registered name yields.
\<close>

theorem decoder_selection:
  "decoder_register_get js (init_decoder_register js) enc =
     (case map_of (default_decoders js) enc of Some dec \<Rightarrow> dec | None \<Rightarrow> new_json_decoder js) \<and>
   decoder_register_get js (decoder_register_put name dec r) enc =
     (if enc = name then dec
      else case untyped_get r enc of
             Some (Some d) \<Rightarrow> d
           | _ \<Rightarrow> if name = JSON then dec else decoder_register_get js r enc)"
  using decoder_register_get_init decoder_register_get_put by blast

end
