(* ===== verification/ConfigTypes.thy ===== *)
theory ConfigTypes
  imports Encoding "HOL-Library.Signed_Division"
begin

text \<open>
  The configuration structs of \<open>src/config/config.go\<close>, field by field. A record's fields carry a
  prefix for the struct (\<open>s_\<close> service, \<open>e_\<close> endpoint, \<open>b_\<close> backend, \<open>a_\<close> async agent, \<open>t_\<close> TLS,
  \<open>ct_\<close> client TLS), since Isabelle's field names are global. \<open>time.Duration\<close> is an \<open>int64\<close> count
  of nanoseconds, a \<open>64 word\<close> read with \<open>sint\<close>; \<open>int\<close> fields that no arithmetic touches are
  \<open>int\<close>. A nil pointer is \<open>None\<close>. A slice is a list (nil and empty slices are not told apart),
  \<open>ExtraConfig\<close> a map of dynamic values.
\<close>

type_synonym duration = "64 word"
type_synonym extra_config = gobj

definition nanosecond :: duration where "nanosecond = 1"
definition millisecond :: duration where "millisecond = 1000000"
definition second :: duration where "second = 1000000000"

text \<open>Go's \<open>/\<close> on \<open>int\<close> and \<open>time.Duration\<close> truncates towards zero.\<close>

definition int_quot :: "64 word \<Rightarrow> int \<Rightarrow> 64 word" where
  "int_quot a b = word_of_int (sint a sdiv b)"

definition ConfigVersion :: int where "ConfigVersion = 3"
definition DefaultMaxIdleConnsPerHost :: int where "DefaultMaxIdleConnsPerHost = 250"
definition DefaultTimeout :: duration where "DefaultTimeout = 2 * second"
definition defaultPort :: int where "defaultPort = 8080"

record backend =
  b_Group :: string
  b_Method :: string
  b_Host :: "string list"
  b_HostSanitizationDisabled :: bool
  b_URLPattern :: string
  b_AllowList :: "string list"
  b_DenyList :: "string list"
  b_Mapping :: "string gomap"
  b_Encoding :: string
  b_IsCollection :: bool
  b_Target :: string
  b_SD :: string
  b_SDScheme :: string
  b_URLKeys :: "string list"
  b_ConcurrentCalls :: int
  b_Timeout :: duration
  b_Decoder :: "decoder option"
  b_ExtraConfig :: extra_config
  b_HeadersToPass :: "string list"
  b_QueryStringsToPass :: "string list"
  b_ParentEndpoint :: string
  b_ParentEndpointMethod :: string

definition backend_zero :: backend where
  "backend_zero = \<lparr>b_Group = [], b_Method = [], b_Host = [], b_HostSanitizationDisabled = False,
     b_URLPattern = [], b_AllowList = [], b_DenyList = [], b_Mapping = [], b_Encoding = [],
     b_IsCollection = False, b_Target = [], b_SD = [], b_SDScheme = [], b_URLKeys = [],
     b_ConcurrentCalls = 0, b_Timeout = 0, b_Decoder = None, b_ExtraConfig = [],
     b_HeadersToPass = [], b_QueryStringsToPass = [], b_ParentEndpoint = [],
     b_ParentEndpointMethod = []\<rparr>"

record endpoint_config =
  e_Endpoint :: string
  e_Method :: string
  e_Backend :: "backend list"
  e_ConcurrentCalls :: int
  e_Timeout :: duration
  e_CacheTTL :: duration
  e_QueryString :: "string list"
  e_ExtraConfig :: extra_config
  e_HeadersToPass :: "string list"
  e_OutputEncoding :: string

definition endpoint_zero :: endpoint_config where
  "endpoint_zero = \<lparr>e_Endpoint = [], e_Method = [], e_Backend = [], e_ConcurrentCalls = 0,
     e_Timeout = 0, e_CacheTTL = 0, e_QueryString = [], e_ExtraConfig = [], e_HeadersToPass = [],
     e_OutputEncoding = []\<rparr>"

record consumer =
  c_Timeout :: duration
  c_Workers :: int
  c_Topic :: string
  c_MaxRate :: "64 word"  \<comment> \<open>a \<open>float64\<close>, by its bits\<close>

record connection =
  c_MaxRetries :: int
  c_BackoffStrategy :: string
  c_HealthInterval :: duration

record async_agent =
  a_Name :: string
  a_Connection :: connection
  a_Consumer :: consumer
  a_Encoding :: string
  a_Backend :: "backend list"
  a_ExtraConfig :: extra_config

record plugin_config =
  p_Folder :: string
  p_Pattern :: string

record tls_key_pair =
  k_PublicKey :: string
  k_PrivateKey :: string

record tls =
  t_IsDisabled :: bool
  t_PublicKey :: string
  t_PrivateKey :: string
  t_CaCerts :: "string list"
  t_MinVersion :: string
  t_MaxVersion :: string
  t_CurvePreferences :: "16 word list"
  t_PreferServerCipherSuites :: bool
  t_CipherSuites :: "16 word list"
  t_EnableMTLS :: bool
  t_DisableSystemCaPool :: bool
  t_Keys :: "tls_key_pair list"

record client_tls_cert =
  cc_Certificate :: string
  cc_PrivateKey :: string

record client_tls =
  ct_AllowInsecureConnections :: bool
  ct_CaCerts :: "string list"
  ct_DisableSystemCaPool :: bool
  ct_MinVersion :: string
  ct_MaxVersion :: string
  ct_CurvePreferences :: "16 word list"
  ct_CipherSuites :: "16 word list"
  ct_ClientCerts :: "client_tls_cert list"

record service_config =
  s_Name :: string
  s_Endpoints :: "endpoint_config list"
  s_AsyncAgents :: "async_agent list"
  s_Timeout :: duration
  s_CacheTTL :: duration
  s_Host :: "string list"
  s_Port :: int
  s_Address :: string
  s_Version :: int
  s_OutputEncoding :: string
  s_ExtraConfig :: extra_config
  s_ReadTimeout :: duration
  s_WriteTimeout :: duration
  s_IdleTimeout :: duration
  s_ReadHeaderTimeout :: duration
  s_MaxHeaderBytes :: int
  s_DisableKeepAlives :: bool
  s_DisableCompression :: bool
  s_MaxIdleConns :: int
  s_MaxIdleConnsPerHost :: int
  s_IdleConnTimeout :: duration
  s_ResponseHeaderTimeout :: duration
  s_ExpectContinueTimeout :: duration
  s_DialerTimeout :: duration
  s_DialerFallbackDelay :: duration
  s_DialerKeepAlive :: duration
  s_DisableStrictREST :: bool
  s_Plugin :: "plugin_config option"
  s_TLS :: "tls option"
  s_UseH2C :: bool
  s_Debug :: bool
  s_Echo :: bool
  s_SequentialStart :: bool
  s_AllowInsecureConnections :: bool
  s_ClientTLS :: "client_tls option"
  s_DNSCacheTTL :: duration
  s_MaxShutdownDuration :: duration

definition service_zero :: service_config where
  "service_zero = \<lparr>s_Name = [], s_Endpoints = [], s_AsyncAgents = [], s_Timeout = 0, s_CacheTTL = 0,
     s_Host = [], s_Port = 0, s_Address = [], s_Version = 0, s_OutputEncoding = [],
     s_ExtraConfig = [], s_ReadTimeout = 0, s_WriteTimeout = 0, s_IdleTimeout = 0,
     s_ReadHeaderTimeout = 0, s_MaxHeaderBytes = 0, s_DisableKeepAlives = False,
     s_DisableCompression = False, s_MaxIdleConns = 0, s_MaxIdleConnsPerHost = 0,
     s_IdleConnTimeout = 0, s_ResponseHeaderTimeout = 0, s_ExpectContinueTimeout = 0,
     s_DialerTimeout = 0, s_DialerFallbackDelay = 0, s_DialerKeepAlive = 0,
     s_DisableStrictREST = False, s_Plugin = None, s_TLS = None, s_UseH2C = False,
     s_Debug = False, s_Echo = False, s_SequentialStart = False,
     s_AllowInsecureConnections = False, s_ClientTLS = None, s_DNSCacheTTL = 0,
     s_MaxShutdownDuration = 0\<rparr>"

section \<open>Reading the free-form configuration\<close>

text \<open>\<open>cfg[ns].(map[string]interface{})\<close>, with the comma-ok form: \<open>None\<close> when absent or no map.\<close>

definition ec_map :: "extra_config \<Rightarrow> string \<Rightarrow> gobj option" where
  "ec_map cfg ns = (case map_of cfg ns of Some (VMap m) \<Rightarrow> Some m | _ \<Rightarrow> None)"

definition ec_string :: "gobj \<Rightarrow> string \<Rightarrow> string option" where
  "ec_string m k = (case map_of m k of Some (VString s) \<Rightarrow> Some s | _ \<Rightarrow> None)"

definition ec_bool :: "gobj \<Rightarrow> string \<Rightarrow> bool option" where
  "ec_bool m k = (case map_of m k of Some (VBool b) \<Rightarrow> Some b | _ \<Rightarrow> None)"

definition ec_list :: "gobj \<Rightarrow> string \<Rightarrow> gval list option" where
  "ec_list m k = (case map_of m k of Some (VList vs) \<Rightarrow> Some vs | _ \<Rightarrow> None)"

text \<open>\<open>proxy.Namespace\<close>.\<close>

definition proxy_Namespace :: string where
  "proxy_Namespace = ''github.com/pucora/pucora/proxy''"

text \<open>\<open>isStreamingEndpoint\<close> of \<open>src/config/streaming.go\<close>, the same check as \<open>IsStreamingEndpoint\<close> of \<open>src/proxy/streaming.go\<close>.\<close>

definition is_streaming_endpoint :: "endpoint_config \<Rightarrow> bool" where
  "is_streaming_endpoint e \<longleftrightarrow>
     (if e_OutputEncoding e \<noteq> NOOP \<or> length (e_Backend e) \<noteq> 1 then False
      else (case e_Backend e of b # _ \<Rightarrow> b_Encoding b = NOOP | [] \<Rightarrow> False))"

section \<open>Conditional backends\<close>

record backend_conditional =
  bc_Strategy :: string
  bc_Name :: string
  bc_Value :: string

definition bc_is_fallback :: "backend_conditional \<Rightarrow> bool" where
  "bc_is_fallback bc \<longleftrightarrow> bc_Strategy bc = ''fallback''"

definition bc_is_valid :: "backend_conditional \<Rightarrow> bool" where
  "bc_is_valid bc \<longleftrightarrow> bc_Strategy bc = ''header'' \<or> bc_Strategy bc = ''policy'' \<or>
     bc_Strategy bc = ''fallback''"

lemma bc_fallback_valid: "bc_is_fallback bc \<Longrightarrow> bc_is_valid bc"
  by (simp add: bc_is_fallback_def bc_is_valid_def)

end
