(* ===== verification/ConfigUri.thy ===== *)
theory ConfigUri
  imports ConfigTypes
begin

text \<open>
  Hosts and paths of the configuration, \<open>src/config/uri.go\<close>, and the patterns of
  \<open>src/config/config.go\<close>. Each regular expression is a function that finds its matches from the
  left; the texts it is used on contain no line breaks where it says \<open>.\<close>.
\<close>

section \<open>Characters\<close>

definition digits :: string where "digits = ''0123456789''"
definition letters :: string where
  "letters = ''ABCDEFGHIJKLMNOPQRSTUVWXYZabcdefghijklmnopqrstuvwxyz''"

definition is_host_char :: "char \<Rightarrow> bool" where
  "is_host_char c = (c \<in> set letters \<or> c \<in> set digits \<or> c \<in> set ''._-'')"

definition is_endpoint_key_char :: "char \<Rightarrow> bool" where
  "is_endpoint_key_char c = (c \<in> set letters \<or> c \<in> set digits \<or> c \<in> set ''_-'')"

definition is_url_key_char :: "char \<Rightarrow> bool" where
  "is_url_key_char c = (c \<in> set letters \<or> c \<in> set digits \<or> c \<in> set ''_-.:/'')"

section \<open>Cleaning hosts\<close>

text \<open>
  One match of \<open>(https?://)?([a-zA-Z0-9\._\-]+)(:[0-9]{2,6})?/?\<close> at the start of a text: the
  three groups and the text behind the match. The scheme is given back when no host follows it.
\<close>

definition port_of :: "string \<Rightarrow> string \<times> string" where
  "port_of s =
     (if prefix '':'' s then
        (let ds = take 6 (takeWhile (\<lambda>c. c \<in> set digits) (tl s))
         in if length ds \<ge> 2 then (CHR '':'' # ds, drop (Suc (length ds)) s) else ([], s))
      else ([], s))"

definition match_host_from :: "string \<Rightarrow> string \<Rightarrow> (string \<times> string \<times> string \<times> string) option" where
  "match_host_from scheme s =
     (let h = takeWhile is_host_char s; (p, rest) = port_of (dropWhile is_host_char s)
      in if h = [] then None
         else Some (scheme, h, p, (if prefix ''/'' rest then tl rest else rest)))"

definition scheme_of :: "string \<Rightarrow> string" where
  "scheme_of s = (if prefix ''https://'' s then ''https://'' else if prefix ''http://'' s then ''http://'' else [])"

definition match_host :: "string \<Rightarrow> (string \<times> string \<times> string \<times> string) option" where
  "match_host s =
     (case match_host_from (scheme_of s) (drop (length (scheme_of s)) s) of
        Some m \<Rightarrow> Some m
      | None \<Rightarrow> match_host_from [] s)"

lemma port_of_length: "port_of s = (p, r) \<Longrightarrow> length r \<le> length s"
  by (auto simp: port_of_def Let_def split: if_splits)

lemma match_host_from_shorter:
  assumes "match_host_from sch s = Some (a, b, c, r)"
  shows "length r < length s"
proof -
  let ?h = "takeWhile is_host_char s" and ?d = "dropWhile is_host_char s"
  obtain p rest where pr: "port_of ?d = (p, rest)" by fastforce
  have "length ?h + length ?d = length s"
    by (metis length_append takeWhile_dropWhile_id)
  moreover have "?h \<noteq> []" and "length r \<le> length rest"
    using assms by (auto simp: match_host_from_def Let_def pr split: if_splits)
  ultimately show ?thesis using port_of_length [OF pr] by (cases ?h) auto
qed

lemma match_host_shorter: "match_host s = Some (a, b, c, r) \<Longrightarrow> length r < length s"
  by (auto simp: match_host_def dest!: match_host_from_shorter split: option.splits)

text \<open>\<open>FindAllStringSubmatch(host, -1)\<close>.\<close>

function find_hosts :: "string \<Rightarrow> (string \<times> string \<times> string) list" where
  "find_hosts s =
     (case match_host s of
        Some (a, b, c, r) \<Rightarrow> (a, b, c) # find_hosts r
      | None \<Rightarrow> (case s of [] \<Rightarrow> [] | x # xs \<Rightarrow> find_hosts xs))"
  by pat_completeness auto
termination
  by (relation "measure length") (auto dest: match_host_shorter)

declare find_hosts.simps [simp del]

text \<open>\<open>SafeCleanHost\<close> and \<open>SafeCleanHosts\<close>; the only error is \<open>errInvalidHost\<close>.\<close>

definition safe_clean_host :: "string \<Rightarrow> string option" where
  "safe_clean_host host =
     (case find_hosts host of
        [(scheme, h, p)] \<Rightarrow> Some ((if scheme = [] then ''http://'' else scheme) @ h @ p)
      | _ \<Rightarrow> None)"

text \<open>\<open>Inl h\<close> names the host that is not valid.\<close>

fun safe_clean_hosts :: "string list \<Rightarrow> string + string list" where
  "safe_clean_hosts [] = Inr []"
| "safe_clean_hosts (h # hs) =
     (case safe_clean_host h of
        None \<Rightarrow> Inl h
      | Some c \<Rightarrow> (case safe_clean_hosts hs of Inl e \<Rightarrow> Inl e | Inr cs \<Rightarrow> Inr (c # cs)))"

text \<open>\<open>CleanHost\<close> and \<open>CleanHosts\<close> panic (\<open>None\<close>) instead.\<close>

definition clean_host :: "string \<Rightarrow> string option" where
  "clean_host = safe_clean_host"

definition clean_hosts :: "string list \<Rightarrow> string list option" where
  "clean_hosts hs = (case safe_clean_hosts hs of Inl e \<Rightarrow> None | Inr cs \<Rightarrow> Some cs)"

section \<open>Paths\<close>

definition clean_path :: "string \<Rightarrow> string" where
  "clean_path path = CHR ''/'' # trim_prefix path ''/''"

datatype routing_pattern = BracketsRouterPatternBuilder | ColonRouterPatternBuilder

definition colon_step :: "string \<Rightarrow> string \<Rightarrow> string" where
  "colon_step result p =
     (case split_on (CHR ''?'') result of
        [] \<Rightarrow> result
      | part # parts \<Rightarrow> join_with ''?'' (replace_all (''{'' @ p @ ''}'') ('':'' @ p) part # parts))"

definition get_endpoint_path :: "routing_pattern \<Rightarrow> string \<Rightarrow> string list \<Rightarrow> string" where
  "get_endpoint_path u path params =
     (if u = ColonRouterPatternBuilder then foldl colon_step path params else path)"

section \<open>Placeholders\<close>

text \<open>\<open>\{([\w\-\.:/]+)\}\<close> and \<open>/\{([a-zA-Z\-_0-9]+)\}\<close>: the key and the text behind.\<close>

definition match_braced :: "string \<Rightarrow> (char \<Rightarrow> bool) \<Rightarrow> string \<Rightarrow> (string \<times> string) option" where
  "match_braced opening ok s =
     (if \<not> prefix opening s then None
      else let s1 = drop (length opening) s; k = takeWhile ok s1; s2 = dropWhile ok s1
           in if k = [] \<or> \<not> prefix ''}'' s2 then None else Some (k, tl s2))"

lemma match_braced_shorter:
  assumes "match_braced opening ok s = Some (k, r)" and "opening \<noteq> []"
  shows "length r < length s"
proof -
  have p: "prefix opening s" and r: "r = tl (dropWhile ok (drop (length opening) s))"
    using assms by (auto simp: match_braced_def Let_def split: if_splits)
  have "length (dropWhile ok (drop (length opening) s)) \<le> length s - length opening"
    using length_dropWhile_le [of ok "drop (length opening) s"] by simp
  moreover have "length opening \<le> length s" "length opening > 0"
    using p assms(2) prefix_length_le by auto
  moreover have "length r \<le> length (dropWhile ok (drop (length opening) s))" by (simp add: r)
  ultimately show ?thesis by linarith
qed

function find_braced :: "string \<Rightarrow> (char \<Rightarrow> bool) \<Rightarrow> string \<Rightarrow> string list" where
  "find_braced opening ok s =
     (case match_braced opening ok s of
        Some (k, r) \<Rightarrow> if opening = [] then [] else k # find_braced opening ok r
      | None \<Rightarrow> (case s of [] \<Rightarrow> [] | c # cs \<Rightarrow> find_braced opening ok cs))"
  by pat_completeness auto
termination
  by (relation "measure (\<lambda>(opening, ok, s). length s)") (auto dest: match_braced_shorter)

declare find_braced.simps [simp del]

definition simple_url_keys :: "string \<Rightarrow> string list" where
  "simple_url_keys s = find_braced ''{'' is_url_key_char s"

definition endpoint_url_keys :: "string \<Rightarrow> string list" where
  "endpoint_url_keys s = find_braced ''/{'' is_endpoint_key_char s"

text \<open>\<open>paramExtractionPattern\<close> with \<open>extractPlaceHoldersFromURLTemplate\<close>.\<close>

definition extract_endpoint_params :: "bool \<Rightarrow> string \<Rightarrow> string list" where
  "extract_endpoint_params disableStrictREST s =
     (if disableStrictREST then simple_url_keys s else endpoint_url_keys s)"

text \<open>The default of \<open>sequentialParamsPattern\<close>, \<open>^(resp[\d]+_.+)?(JWT\.([\w\-\.:/]+))?$\<close>.\<close>

definition is_resp_param :: "string \<Rightarrow> bool" where
  "is_resp_param s =
     (prefix ''resp'' s \<and>
      (let s1 = drop 4 s; s2 = dropWhile (\<lambda>c. c \<in> set digits) s1
       in s2 \<noteq> s1 \<and> prefix ''_'' s2 \<and> tl s2 \<noteq> [] \<and> CHR 0x0A \<notin> set (tl s2)))"

definition is_jwt_param :: "string \<Rightarrow> bool" where
  "is_jwt_param s = (prefix ''JWT.'' s \<and> drop 4 s \<noteq> [] \<and> list_all is_url_key_char (drop 4 s))"

definition default_sequential_params :: "string \<Rightarrow> bool" where
  "default_sequential_params s = (s = [] \<or> is_resp_param s \<or> is_jwt_param s)"

text \<open>The default of \<open>invalidPattern\<close>, \<open>^[^/]|\*.|/__(debug|echo|health)(/.*)?$\<close>.\<close>

fun star_char :: "string \<Rightarrow> bool" where
  "star_char (c # d # s) = (c = CHR ''*'' \<and> d \<noteq> CHR 0x0A \<or> star_char (d # s))"
| "star_char s = False"

definition reserved_here :: "string \<Rightarrow> bool" where
  "reserved_here s = (\<exists>n \<in> {''/__debug'', ''/__echo'', ''/__health''}.
     s = n \<or> (prefix (n @ ''/'') s \<and> CHR 0x0A \<notin> set (drop (length n) s)))"

fun reserved_path :: "string \<Rightarrow> bool" where
  "reserved_path [] = False"
| "reserved_path (c # s) = (reserved_here (c # s) \<or> reserved_path s)"

definition default_invalid :: "string \<Rightarrow> bool" where
  "default_invalid s =
     ((case s of [] \<Rightarrow> False | c # _ \<Rightarrow> c \<noteq> CHR ''/'') \<or> star_char s \<or> reserved_path s)"

section \<open>Lemmas on hosts\<close>

definition port_ok :: "string \<Rightarrow> bool" where
  "port_ok p = (p = [] \<or> (\<exists>ds. p = CHR '':'' # ds \<and> 2 \<le> length ds \<and> length ds \<le> 6 \<and> (\<forall>c \<in> set ds. c \<in> set digits)))"

definition host_ok :: "string \<Rightarrow> bool" where
  "host_ok h = (h \<noteq> [] \<and> (\<forall>c \<in> set h. is_host_char c))"

lemma port_of_ok: "port_of s = (p, r) \<Longrightarrow> port_ok p"
  by (auto simp: port_of_def port_ok_def Let_def min_def dest!: in_set_takeD set_takeWhileD split: if_splits)

lemma port_of_exact: "port_ok p \<Longrightarrow> port_of p = (p, [])"
proof (cases p)
  case (Cons c ds)
  assume "port_ok p"
  with Cons have "c = CHR '':''" "2 \<le> length ds" "length ds \<le> 6" "\<forall>c \<in> set ds. c \<in> set digits"
    by (auto simp: port_ok_def)
  moreover from this(4) have tw: "takeWhile (\<lambda>c. c \<in> set digits) ds = ds" by (rule takeWhile_eq_all_conv [THEN iffD2])
  ultimately show ?thesis by (simp add: port_of_def Cons Let_def tw)
qed (simp add: port_of_def)

lemma scheme_of_cases: "scheme_of s \<in> {[], ''http://'', ''https://''}"
  by (simp add: scheme_of_def)

lemma match_host_from_sound:
  "match_host_from x u = Some (a, h, p, r) \<Longrightarrow> a = x \<and> host_ok h \<and> port_ok p"
  using port_of_ok [of "dropWhile is_host_char u"]
  by (auto simp: match_host_from_def host_ok_def Let_def dest: set_takeWhileD split: prod.splits if_splits)

lemma match_host_sound:
  assumes "match_host s = Some (a, h, p, r)"
  shows "a \<in> {[], ''http://'', ''https://''} \<and> host_ok h \<and> port_ok p"
proof (cases "match_host_from (scheme_of s) (drop (length (scheme_of s)) s)")
  case None
  with assms have "match_host_from [] s = Some (a, h, p, r)" by (simp add: match_host_def)
  from match_host_from_sound [OF this] show ?thesis by simp
next
  case (Some m)
  with assms have "match_host_from (scheme_of s) (drop (length (scheme_of s)) s) = Some (a, h, p, r)"
    by (simp add: match_host_def)
  from match_host_from_sound [OF this] scheme_of_cases [of s] show ?thesis by metis
qed

lemma find_hosts_match: "match_host s = Some (a, h, p, r) \<Longrightarrow> find_hosts s = (a, h, p) # find_hosts r"
  by (subst find_hosts.simps) simp

lemma find_hosts_skip: "match_host (x # xs) = None \<Longrightarrow> find_hosts (x # xs) = find_hosts xs"
  by (subst find_hosts.simps) simp

lemma match_host_Nil [simp]: "match_host [] = None"
  by (simp add: match_host_def match_host_from_def scheme_of_def port_of_def)

lemma find_hosts_Nil [simp]: "find_hosts [] = []"
  by (subst find_hosts.simps) simp

lemma find_hosts_sound: "(a, h, p) \<in> set (find_hosts s) \<Longrightarrow>
    a \<in> {[], ''http://'', ''https://''} \<and> host_ok h \<and> port_ok p"
proof (induction s rule: find_hosts.induct)
  case (1 s)
  show ?case
  proof (cases "match_host s")
    case None
    with 1 show ?thesis by (cases s) (simp_all add: find_hosts_skip)
  next
    case (Some m)
    obtain a' h' p' r where m: "m = (a', h', p', r)" by (cases m)
    with Some have match: "match_host s = Some (a', h', p', r)" by simp
    with 1(3) have "(a, h, p) = (a', h', p') \<or> (a, h, p) \<in> set (find_hosts r)"
      by (simp add: find_hosts_match)
    with match_host_sound [OF match] 1(2) [OF match refl refl refl] show ?thesis by blast
  qed
qed

lemma colon_not_host: "\<not> is_host_char (CHR '':'')"
  by (simp add: is_host_char_def letters_def digits_def)

lemma match_host_clean:
  assumes "sch \<in> {''http://'', ''https://''}" and "host_ok h" and "port_ok p"
  shows "match_host (sch @ h @ p) = Some (sch, h, p, [])"
proof -
  have sch: "scheme_of (sch @ h @ p) = sch" using assms(1) by (auto simp: scheme_of_def)
  have t: "takeWhile is_host_char (h @ p) = h" and d: "dropWhile is_host_char (h @ p) = p"
    using assms(2,3) colon_not_host
    by (auto simp: host_ok_def port_ok_def takeWhile_append2 dropWhile_append2)
  have "match_host_from sch (h @ p) = Some (sch, h, p, [])"
    using assms(2,3) by (simp add: match_host_from_def t d port_of_exact host_ok_def Let_def)
  then show ?thesis by (simp add: match_host_def sch)
qed

lemma find_hosts_clean:
  assumes "sch \<in> {''http://'', ''https://''}" and "host_ok h" and "port_ok p"
  shows "find_hosts (sch @ h @ p) = [(sch, h, p)]"
  by (simp only: find_hosts_match [OF match_host_clean [OF assms]] find_hosts_Nil)

lemma safe_clean_host_shape:
  assumes "safe_clean_host host = Some c"
  shows "\<exists>sch h p. c = sch @ h @ p \<and> sch \<in> {''http://'', ''https://''} \<and> host_ok h \<and> port_ok p"
proof -
  obtain a h p where f: "find_hosts host = [(a, h, p)]"
    and c: "c = (if a = [] then ''http://'' else a) @ h @ p"
    using assms by (auto simp: safe_clean_host_def split: list.splits)
  then have "(a, h, p) \<in> set (find_hosts host)" by simp
  note ok = find_hosts_sound [OF this]
  then have "(if a = [] then ''http://'' else a) \<in> {''http://'', ''https://''}" by auto
  with ok c show ?thesis by blast
qed

lemma safe_clean_host_idem:
  assumes "safe_clean_host host = Some c"
  shows "safe_clean_host c = Some c"
proof -
  from safe_clean_host_shape [OF assms] obtain sch h p
    where c: "c = sch @ h @ p" and ok: "sch \<in> {''http://'', ''https://''}" "host_ok h" "port_ok p" by blast
  have "sch \<noteq> []" using ok(1) by auto
  then show ?thesis unfolding safe_clean_host_def c find_hosts_clean [OF ok] by simp
qed

text \<open>A host that is accepted is rewritten to a scheme (\<open>http\<close> unless the text says \<open>https\<close>), a
  non-empty name of letters, digits, dots, dashes and underscores, and at most one port of two to
  six digits, without a trailing slash; cleaning it again changes nothing.\<close>

theorem clean_host_normal:
  assumes "safe_clean_host host = Some c"
  shows "(\<exists>sch h p. c = sch @ h @ p \<and> sch \<in> {''http://'', ''https://''} \<and> host_ok h \<and> port_ok p) \<and>
    safe_clean_host c = Some c"
  using safe_clean_host_shape [OF assms] safe_clean_host_idem [OF assms] by (rule conjI)

theorem clean_host_normal_witness:
  "safe_clean_host ''api.local:8080/'' = Some ''http://api.local:8080'' \<and>
   safe_clean_host ''http://api.local:8080'' = Some ''http://api.local:8080''"
proof -
  have 1: "safe_clean_host ''api.local:8080/'' = Some ''http://api.local:8080''" by code_simp
  from clean_host_normal [OF this] 1 show ?thesis by blast
qed

lemma safe_clean_hosts_all:
  "safe_clean_hosts hs = Inr cs \<Longrightarrow> list_all2 (\<lambda>h c. safe_clean_host h = Some c) hs cs"
  by (induction hs arbitrary: cs) (auto split: option.splits sum.splits)

lemma safe_clean_hosts_idem: "safe_clean_hosts hs = Inr cs \<Longrightarrow> safe_clean_hosts cs = Inr cs"
proof (induction hs arbitrary: cs)
  case (Cons h hs)
  then obtain c cs' where c: "safe_clean_host h = Some c" "safe_clean_hosts hs = Inr cs'" "cs = c # cs'"
    by (auto split: option.splits sum.splits)
  have "safe_clean_host c = Some c" by (rule safe_clean_host_idem [OF c(1)])
  with Cons.IH [OF c(2)] c(3) show ?case by simp
qed simp

text \<open>The pattern is not anchored, so what it does not match is dropped silently: an IPv6 literal is
  accepted as a host when only one of its fields matches, and every other part of it is lost.\<close>

theorem clean_host_drops_rest:
  "safe_clean_host ''[::1]'' = Some ''http://1'' \<and> safe_clean_host ''ftp:/*'' = Some ''http://ftp''"
  by (rule conjI) code_simp+

text \<open>A cleaned path starts with a slash and cleaning is idempotent. The comment says that all extra
  slashes are trimmed; a path that starts with two keeps both.\<close>

theorem clean_path_idempotent:
  "clean_path (clean_path p) = clean_path p \<and> prefix ''/'' (clean_path p) \<and>
   clean_path ''//a'' = ''//a''"
  by (simp add: clean_path_def trim_prefix_def)

end
