(* ===== verification/ConfigStreaming.thy ===== *)
theory ConfigStreaming
  imports ConfigUri
begin

text \<open>
  The errors of the configuration (\<open>src/config/config.go\<close>, \<open>src/config/streaming.go\<close>) with their
  messages, and the checks that keep response-manipulating middleware away from streaming
  endpoints (\<open>src/config/streaming.go\<close>).
\<close>

section \<open>Configuration errors\<close>

datatype config_error =
    UnsupportedVersionError int int                 \<comment> \<open>have, want\<close>
  | InvalidAddress string
  | InvalidHost string                              \<comment> \<open>wraps \<open>errInvalidHost\<close>\<close>
  | EndpointMatchError string string string         \<comment> \<open>path, method, error\<close>
  | EndpointPathError string string                 \<comment> \<open>path, method\<close>
  | NoBackendsError string string                   \<comment> \<open>path, method\<close>
  | InvalidNoOpEncoding                             \<comment> \<open>\<open>errInvalidNoOpEncoding\<close>\<close>
  | UndefinedOutputParamError string string nat "string list" "string list" string
      \<comment> \<open>endpoint, method, backend, input, output, param\<close>
  | WrongNumberOfParamsError string string nat "string list" "string list"
      \<comment> \<open>endpoint, method, backend, input, output\<close>
  | StreamingResponseManipulation string "string option" \<comment> \<open>endpoint, backend's URL pattern\<close>
  | StreamingSequentialProxy string
  | StreamingBackendHTTPCache string string
  | StreamingServiceWriteTimeout
  | StreamingServiceHeaderTimeout

text \<open>\<open>%v\<close> of a slice of strings.\<close>

definition show_strings :: "string list \<Rightarrow> string" where
  "show_strings ss = ''['' @ join_with '' '' ss @ '']''"

fun config_error_text :: "config_error \<Rightarrow> string" where
  "config_error_text (UnsupportedVersionError have want) =
     ''unsupported version: '' @ show_int have @ '' (want: '' @ show_int want @ '')''"
| "config_error_text (InvalidAddress a) = ''invalid ip address '' @ a"
| "config_error_text (InvalidHost h) = ''host '' @ h @ '' not valid: invalid host''"
| "config_error_text (EndpointMatchError path method err) =
     ''ignoring the ''  @ [CHR 0x27] @ method @ '' '' @ path @ [CHR 0x27] @
     '' endpoint due to a parsing error: '' @ err"
| "config_error_text (EndpointPathError path method) =
     ''ignoring the '' @ [CHR 0x27] @ method @ '' '' @ path @ [CHR 0x27] @ '' endpoint, since it is invalid!!!''"
| "config_error_text (NoBackendsError path method) =
     ''ignoring the '' @ [CHR 0x27] @ method @ '' '' @ path @ [CHR 0x27] @
     '' endpoint, since it has 0 backends defined!''"
| "config_error_text InvalidNoOpEncoding =
     ''can not use NoOp encoding with more than one backends connected to the same endpoint''"
| "config_error_text (UndefinedOutputParamError endpoint method b ins outs p) =
     ''undefined output param '' @ [CHR 0x27] @ p @ [CHR 0x27] @ ''! endpoint: '' @ method @ '' '' @ endpoint @
     '', backend: '' @ show_nat b @ ''. input: '' @ show_strings ins @ '', output: '' @ show_strings outs"
| "config_error_text (WrongNumberOfParamsError endpoint method b ins outs) =
     ''input and output params do not match. endpoint: '' @ method @ '' '' @ endpoint @
     '', backend: '' @ show_nat b @ ''. input: '' @ show_strings ins @ '', output: '' @ show_strings outs"
| "config_error_text (StreamingResponseManipulation e b) =
     ''HTTP streaming endpoints cannot use response manipulation middleware on endpoint '' @ e @
     (case b of None \<Rightarrow> [] | Some p \<Rightarrow> '' backend '' @ p @ '' (martian response scope)'')"
| "config_error_text (StreamingSequentialProxy e) =
     ''HTTP streaming endpoints cannot use sequential proxy on endpoint '' @ e"
| "config_error_text (StreamingBackendHTTPCache e p) =
     ''HTTP streaming backends cannot use HTTP cache on endpoint '' @ e @ '' backend '' @ p"
| "config_error_text StreamingServiceWriteTimeout =
     ''service write_timeout must be 0 when HTTP streaming endpoints are present: set \"write_timeout\": \"0s\" at the service level''"
| "config_error_text StreamingServiceHeaderTimeout =
     ''service response_header_timeout is too low for HTTP streaming endpoints: increase \"response_header_timeout\" to at least 30s or set it to \"0s\" to disable''"

section \<open>What manipulates a response\<close>

definition luaProxyNamespace :: string where "luaProxyNamespace = ''github.com/pucora/pucora-lua/proxy''"
definition luaRouterNamespace :: string where "luaRouterNamespace = ''github.com/pucora/pucora-lua/router''"
definition martianNamespace :: string where "martianNamespace = ''github.com/pucora/pucora-martian''"
definition httpcacheNamespace :: string where "httpcacheNamespace = ''github.com/pucora/pucora-httpcache''"

text \<open>\<open>strings.TrimSpace(s) != ""\<close>, for ASCII white space.\<close>

definition not_blank :: "string \<Rightarrow> bool" where
  "not_blank s = list_ex (\<lambda>c. c \<notin> set [CHR '' '', CHR 0x09, CHR 0x0A, CHR 0x0B, CHR 0x0C, CHR 0x0D]) s"

definition has_lua_post :: "extra_config \<Rightarrow> bool" where
  "has_lua_post ec =
     list_ex (\<lambda>ns. case ec_map ec ns of
         None \<Rightarrow> False
       | Some cfg \<Rightarrow> (case ec_string cfg ''post'' of None \<Rightarrow> False | Some post \<Rightarrow> not_blank post))
       [luaProxyNamespace, luaRouterNamespace]"

definition proxy_sequential_enabled :: "extra_config \<Rightarrow> bool" where
  "proxy_sequential_enabled ec =
     (case ec_map ec proxy_Namespace of None \<Rightarrow> False | Some cfg \<Rightarrow> ec_bool cfg ''sequential'' = Some True)"

definition scope_references_response :: "gval option \<Rightarrow> bool" where
  "scope_references_response scope =
     (case scope of
        Some (VString s) \<Rightarrow> s = ''response''
      | Some (VList vs) \<Rightarrow> list_ex (\<lambda>v. v = VString ''response'') vs
      | _ \<Rightarrow> False)"

text \<open>The default case marshals \<open>nil\<close>, booleans and numbers, whose JSON has no quote in it; a
  \<open>map[interface{}]interface{}\<close> does not marshal.\<close>

fun json_scope_contains_response :: "gval \<Rightarrow> bool" where
  "json_scope_contains_response (VMap t) =
     (scope_references_response (map_of t ''scope'') \<or>
      (\<exists>kv \<in> set t. json_scope_contains_response (snd kv)))"
| "json_scope_contains_response (VList vs) = (\<exists>v \<in> set vs. json_scope_contains_response v)"
| "json_scope_contains_response _ = False"

definition martian_modifies_response :: "extra_config \<Rightarrow> bool" where
  "martian_modifies_response ec =
     (case map_of ec martianNamespace of None \<Rightarrow> False | Some raw \<Rightarrow> json_scope_contains_response raw)"

definition extra_config_has_response_manipulation :: "extra_config \<Rightarrow> bool" where
  "extra_config_has_response_manipulation ec =
     (has_lua_post ec \<or> map_of ec ''validation/response-json-schema'' \<noteq> None \<or>
      (case ec_map ec ''modifier/response-body'' of
         None \<Rightarrow> False
       | Some m \<Rightarrow> (case ec_list m ''modifiers'' of None \<Rightarrow> False | Some mods \<Rightarrow> length mods > 0)) \<or>
      (case ec_map ec ''modifier/response-headers'' of None \<Rightarrow> False | Some m \<Rightarrow> length m > 0) \<or>
      martian_modifies_response ec)"

section \<open>The checks\<close>

definition service_has_streaming_endpoint :: "service_config \<Rightarrow> bool" where
  "service_has_streaming_endpoint s = list_ex is_streaming_endpoint (s_Endpoints s)"

definition minStreamingResponseHeaderTimeout :: duration where
  "minStreamingResponseHeaderTimeout = 30 * second"

definition validate_streaming_service :: "service_config \<Rightarrow> config_error option" where
  "validate_streaming_service s =
     (if \<not> service_has_streaming_endpoint s then None
      else if sint (s_WriteTimeout s) > 0 then Some StreamingServiceWriteTimeout
      else if sint (s_ResponseHeaderTimeout s) > 0 \<and>
              sint (s_ResponseHeaderTimeout s) < sint minStreamingResponseHeaderTimeout
           then Some StreamingServiceHeaderTimeout
      else None)"

fun validate_streaming_backends :: "string \<Rightarrow> backend list \<Rightarrow> config_error option" where
  "validate_streaming_backends e [] = None"
| "validate_streaming_backends e (b # bs) =
     (if map_of (b_ExtraConfig b) httpcacheNamespace \<noteq> None
      then Some (StreamingBackendHTTPCache e (b_URLPattern b))
      else if martian_modifies_response (b_ExtraConfig b)
      then Some (StreamingResponseManipulation e (Some (b_URLPattern b)))
      else validate_streaming_backends e bs)"

definition validate_streaming_endpoint :: "endpoint_config \<Rightarrow> config_error option" where
  "validate_streaming_endpoint e =
     (if \<not> is_streaming_endpoint e then None
      else if extra_config_has_response_manipulation (e_ExtraConfig e)
      then Some (StreamingResponseManipulation (e_Endpoint e) None)
      else if proxy_sequential_enabled (e_ExtraConfig e) then Some (StreamingSequentialProxy (e_Endpoint e))
      else validate_streaming_backends (e_Endpoint e) (e_Backend e))"

section \<open>Lemmas\<close>

lemma validate_streaming_backends_None:
  "validate_streaming_backends e bs = None \<longleftrightarrow>
     (\<forall>b \<in> set bs. map_of (b_ExtraConfig b) httpcacheNamespace = None \<and> \<not> martian_modifies_response (b_ExtraConfig b))"
  by (induction e bs rule: validate_streaming_backends.induct) auto

text \<open>The paths a Martian configuration can hide a response scope at: the check finds it at any depth.\<close>

fun reaches :: "gval \<Rightarrow> gval \<Rightarrow> bool" where
  "reaches (VMap t) w = (VMap t = w \<or> (\<exists>kv \<in> set t. reaches (snd kv) w))"
| "reaches (VList vs) w = (VList vs = w \<or> (\<exists>v \<in> set vs. reaches v w))"
| "reaches v w = (v = w)"

lemma reaches_refl [simp]: "reaches v v"
  by (cases v) auto

text \<open>The search for a response scope finds every map, at whatever depth of maps and lists, whose
  \<open>scope\<close> names the response, and nothing else.\<close>

theorem json_scope_complete:
  "json_scope_contains_response v \<longleftrightarrow>
     (\<exists>t. reaches v (VMap t) \<and> scope_references_response (map_of t ''scope''))"
  by (induction v rule: json_scope_contains_response.induct) auto

text \<open>The checks of a streaming endpoint pass exactly when neither the endpoint nor its backend is
  configured to look at or change the response.\<close>

lemma streaming_endpoint_checks:
  "validate_streaming_endpoint e = None \<longleftrightarrow>
     \<not> is_streaming_endpoint e \<or>
     (\<not> has_lua_post (e_ExtraConfig e) \<and> map_of (e_ExtraConfig e) ''validation/response-json-schema'' = None \<and>
      (\<forall>m mods. ec_map (e_ExtraConfig e) ''modifier/response-body'' = Some m \<longrightarrow>
         ec_list m ''modifiers'' = Some mods \<longrightarrow> mods = []) \<and>
      (\<forall>m. ec_map (e_ExtraConfig e) ''modifier/response-headers'' = Some m \<longrightarrow> m = []) \<and>
      \<not> proxy_sequential_enabled (e_ExtraConfig e) \<and>
      (\<forall>ec \<in> insert (e_ExtraConfig e) (b_ExtraConfig ` set (e_Backend e)). \<not> martian_modifies_response ec) \<and>
      (\<forall>b \<in> set (e_Backend e). map_of (b_ExtraConfig b) httpcacheNamespace = None))"
  by (auto simp: validate_streaming_endpoint_def validate_streaming_backends_None
      extra_config_has_response_manipulation_def split: option.splits)

end
