(* ===== verification/ConfigInit.thy ===== *)
theory ConfigInit
  imports ConfigStreaming
begin

text \<open>
  Initialisation of the configuration, \<open>Init\<close> of \<open>src/config/config.go\<close>: defaults, sanitised
  hosts and maps, checked paths, and URL templates whose placeholders are checked against the
  endpoint's parameters. \<open>config_env\<close> collects what the code reads from package variables and
  other packages. A step returns an error or the changed struct; the half-changed struct that an
  error leaves behind is not modelled, as \<open>Init\<close>'s callers drop it.
\<close>

record config_env =
  ce_invalid :: "string \<Rightarrow> string + bool"       \<comment> \<open>\<open>regexp.MatchString(invalidPattern, s)\<close>\<close>
  ce_sequential :: "string \<Rightarrow> bool"             \<comment> \<open>\<open>sequentialParamsPattern\<close>\<close>
  ce_routing :: routing_pattern                \<comment> \<open>\<open>RoutingPattern\<close>\<close>
  ce_title :: "string \<Rightarrow> string"                \<comment> \<open>\<open>cases.Title(language.Und).String\<close>\<close>
  ce_decoders :: "string \<Rightarrow> decoder_factory"    \<comment> \<open>\<open>encoding.GetRegister().Get\<close>\<close>
  ce_parse_ip :: "string \<Rightarrow> bool"               \<comment> \<open>\<open>net.ParseIP(s) != nil\<close>\<close>
  ce_float :: "64 word \<Rightarrow> string"               \<comment> \<open>\<open>%v\<close> of a \<open>float64\<close>\<close>

section \<open>Extra configuration\<close>

definition sanitize_value :: "(64 word \<Rightarrow> string) \<Rightarrow> gval \<Rightarrow> gval" where
  "sanitize_value ff extra =
     (case extra of
        VAnyMap m \<Rightarrow> VMap (foldl (\<lambda>acc kv. AList.update (fmt_v ff (fst kv)) (snd kv) acc) [] m)
      | _ \<Rightarrow> extra)"

definition sanitize :: "(64 word \<Rightarrow> string) \<Rightarrow> extra_config \<Rightarrow> extra_config" where
  "sanitize ff e = map (\<lambda>kv. (fst kv, sanitize_value ff (snd kv))) e"

text \<open>\<open>Normalize\<close>, with the keys in the order the range loop meets them; \<open>alias\<close> is \<open>ExtraConfigAlias\<close>.\<close>

definition normalize_module :: "(string \<Rightarrow> string option) \<Rightarrow> string \<Rightarrow> extra_config \<Rightarrow> extra_config" where
  "normalize_module alias module e =
     (case alias module of
        None \<Rightarrow> e
      | Some a \<Rightarrow>
          AList.delete module
            (case map_of e module of None \<Rightarrow> e | Some v \<Rightarrow> AList.update a v e))"

definition normalize_extra :: "(string \<Rightarrow> string option) \<Rightarrow> extra_config \<Rightarrow> extra_config" where
  "normalize_extra alias e = fold (normalize_module alias) (map fst e) e"

definition normalize_backend :: "(string \<Rightarrow> string option) \<Rightarrow> backend \<Rightarrow> backend" where
  "normalize_backend alias b = b\<lparr>b_ExtraConfig := normalize_extra alias (b_ExtraConfig b)\<rparr>"

definition service_normalize :: "(string \<Rightarrow> string option) \<Rightarrow> service_config \<Rightarrow> service_config" where
  "service_normalize alias s =
     s\<lparr>s_ExtraConfig := normalize_extra alias (s_ExtraConfig s),
       s_Endpoints := map (\<lambda>e. e\<lparr>e_ExtraConfig := normalize_extra alias (e_ExtraConfig e),
                                  e_Backend := map (normalize_backend alias) (e_Backend e)\<rparr>) (s_Endpoints s),
       s_AsyncAgents := map (\<lambda>a. a\<lparr>a_ExtraConfig := normalize_extra alias (a_ExtraConfig a),
                                   a_Backend := map (normalize_backend alias) (a_Backend a)\<rparr>) (s_AsyncAgents s)\<rparr>"

section \<open>Header names\<close>

text \<open>\<open>textproto.CanonicalMIMEHeaderKey\<close>: a name with a byte that no header name has is left alone.\<close>

definition is_token_char :: "char \<Rightarrow> bool" where
  "is_token_char c = (c \<in> set letters \<or> c \<in> set digits \<or> c \<in> set (CHR 0x27 # CHR 0x60 # ''!#$%&*+-.^_|~''))"

fun canonical_from :: "bool \<Rightarrow> string \<Rightarrow> string" where
  "canonical_from up [] = []"
| "canonical_from up (c # s) =
     (if up then upper_char c else lower_char c) # canonical_from (c = CHR ''-'') s"

definition canonical_mime_header_key :: "string \<Rightarrow> string" where
  "canonical_mime_header_key s = (if list_all is_token_char s then canonical_from True s else s)"

section \<open>Global parameters and agents\<close>

definition clean_hosts_error :: "string list \<Rightarrow> config_error + string list" where
  "clean_hosts_error hs =
     (case safe_clean_hosts hs of Inl h \<Rightarrow> Inl (InvalidHost h) | Inr cs \<Rightarrow> Inr cs)"

definition validate_address :: "config_env \<Rightarrow> string \<Rightarrow> bool" where
  "validate_address env address = ce_parse_ip env address"

definition init_global_params :: "config_env \<Rightarrow> service_config \<Rightarrow> config_error + service_config" where
  "init_global_params env s =
     (let s = (if s_Port s = 0 then s\<lparr>s_Port := defaultPort\<rparr> else s)
      in if s_Address s \<noteq> [] \<and> \<not> validate_address env (s_Address s) then Inl (InvalidAddress (s_Address s))
         else
           let s = (if s_MaxIdleConnsPerHost s = 0 then s\<lparr>s_MaxIdleConnsPerHost := DefaultMaxIdleConnsPerHost\<rparr> else s);
               s = (if s_Timeout s = 0 then s\<lparr>s_Timeout := DefaultTimeout\<rparr> else s)
           in case clean_hosts_error (s_Host s) of
                Inl e \<Rightarrow> Inl e
              | Inr hs \<Rightarrow> Inr (s\<lparr>s_Host := hs, s_ExtraConfig := sanitize (ce_float env) (s_ExtraConfig s)\<rparr>))"

text \<open>The host list of a backend: the service's when it has none, otherwise its own, cleaned unless that
  is disabled.\<close>

definition init_hosts :: "string list \<Rightarrow> backend \<Rightarrow> config_error + backend" where
  "init_hosts service_hosts b =
     (if length (b_Host b) = 0 then Inr (b\<lparr>b_Host := service_hosts\<rparr>)
      else if \<not> b_HostSanitizationDisabled b then
        (case clean_hosts_error (b_Host b) of Inl e \<Rightarrow> Inl e | Inr hs \<Rightarrow> Inr (b\<lparr>b_Host := hs\<rparr>))
      else Inr b)"

definition init_async_agent_defaults :: "service_config \<Rightarrow> async_agent \<Rightarrow> async_agent" where
  "init_async_agent_defaults s agent =
     (let c = a_Consumer agent;
          c = (if s_Timeout s \<noteq> 0 \<and> c_Timeout c = 0 then c\<lparr>c_Timeout := s_Timeout s\<rparr> else c);
          c = (if c_Workers c < 1 then c\<lparr>c_Workers := 1\<rparr> else c);
          n = a_Connection agent;
          n = (if sint (c_HealthInterval n) < sint second then n\<lparr>c_HealthInterval := second\<rparr> else n)
      in agent\<lparr>a_Consumer := c, a_Connection := n\<rparr>)"

definition decoder_for :: "config_env \<Rightarrow> backend \<Rightarrow> decoder" where
  "decoder_for env b = ce_decoders env (to_lower (b_Encoding b)) (b_IsCollection b)"

definition init_async_backend ::
  "config_env \<Rightarrow> service_config \<Rightarrow> async_agent \<Rightarrow> backend \<Rightarrow> config_error + backend" where
  "init_async_backend env s agent b =
     (case init_hosts (s_Host s) b of
        Inl e \<Rightarrow> Inl e
      | Inr b \<Rightarrow>
          let b = (if b_Method b = [] then b\<lparr>b_Method := ''GET''\<rparr> else b);
              b = b\<lparr>b_Timeout := c_Timeout (a_Consumer agent)\<rparr>;
              b = b\<lparr>b_Decoder := Some (decoder_for env b)\<rparr>
          in Inr (b\<lparr>b_ExtraConfig := sanitize (ce_float env) (b_ExtraConfig b)\<rparr>))"

text \<open>A loop that stops at the first error.\<close>

fun map_err :: "(nat \<Rightarrow> 'a \<Rightarrow> 'e + 'b) \<Rightarrow> nat \<Rightarrow> 'a list \<Rightarrow> 'e + 'b list" where
  "map_err f i [] = Inr []"
| "map_err f i (x # xs) =
     (case f i x of
        Inl e \<Rightarrow> Inl e
      | Inr y \<Rightarrow> (case map_err f (Suc i) xs of Inl e \<Rightarrow> Inl e | Inr ys \<Rightarrow> Inr (y # ys)))"

definition init_async_agent ::
  "config_env \<Rightarrow> service_config \<Rightarrow> async_agent \<Rightarrow> config_error + async_agent" where
  "init_async_agent env s agent =
     (let agent = init_async_agent_defaults s agent;
          agent = agent\<lparr>a_ExtraConfig := sanitize (ce_float env) (a_ExtraConfig agent)\<rparr>
      in case map_err (\<lambda>_. init_async_backend env s agent) 0 (a_Backend agent) of
           Inl e \<Rightarrow> Inl e
         | Inr bs \<Rightarrow> Inr (agent\<lparr>a_Backend := bs\<rparr>))"

definition init_async_agents :: "config_env \<Rightarrow> service_config \<Rightarrow> config_error + service_config" where
  "init_async_agents env s =
     (case map_err (\<lambda>_. init_async_agent env s) 0 (s_AsyncAgents s) of
        Inl e \<Rightarrow> Inl e
      | Inr as \<Rightarrow> Inr (s\<lparr>s_AsyncAgents := as\<rparr>))"

section \<open>Endpoints\<close>

definition validate_endpoint :: "config_env \<Rightarrow> endpoint_config \<Rightarrow> config_error option" where
  "validate_endpoint env e =
     (case ce_invalid env (e_Endpoint e) of
        Inl err \<Rightarrow> Some (EndpointMatchError (e_Endpoint e) (e_Method e) err)
      | Inr matched \<Rightarrow>
          if matched then Some (EndpointPathError (e_Endpoint e) (e_Method e))
          else if length (e_Backend e) = 0 then Some (NoBackendsError (e_Endpoint e) (e_Method e))
          else None)"

definition init_endpoint_defaults :: "service_config \<Rightarrow> endpoint_config \<Rightarrow> endpoint_config" where
  "init_endpoint_defaults s e =
     (let e = (if e_Method e = [] then e\<lparr>e_Method := ''GET''\<rparr> else e);
          e = (if s_CacheTTL s \<noteq> 0 \<and> e_CacheTTL e = 0 then e\<lparr>e_CacheTTL := s_CacheTTL s\<rparr> else e);
          e = (if s_Timeout s \<noteq> 0 \<and> e_Timeout e = 0 then e\<lparr>e_Timeout := s_Timeout s\<rparr> else e);
          e = (if e_ConcurrentCalls e = 0 then e\<lparr>e_ConcurrentCalls := 1\<rparr> else e)
      in if e_OutputEncoding e = [] then
           (if s_OutputEncoding s \<noteq> [] then e\<lparr>e_OutputEncoding := s_OutputEncoding s\<rparr>
            else e\<lparr>e_OutputEncoding := JSON\<rparr>)
         else e)"

definition init_backend_defaults ::
  "config_env \<Rightarrow> service_config \<Rightarrow> endpoint_config \<Rightarrow> backend \<Rightarrow> config_error + backend" where
  "init_backend_defaults env s e b =
     (case init_hosts (s_Host s) b of
        Inl err \<Rightarrow> Inl err
      | Inr b \<Rightarrow>
          let b = (if b_Method b = [] then b\<lparr>b_Method := e_Method e\<rparr> else b);
              b = (if e_OutputEncoding e = NOOP then b\<lparr>b_Encoding := NOOP\<rparr> else b);
              b = b\<lparr>b_Timeout := e_Timeout e, b_ConcurrentCalls := e_ConcurrentCalls e\<rparr>;
              b = b\<lparr>b_Decoder := Some (decoder_for env b)\<rparr>;
              b = b\<lparr>b_HeadersToPass := map canonical_mime_header_key (b_HeadersToPass b)\<rparr>
          in Inr (if b_SDScheme b = [] then b\<lparr>b_SDScheme := ''http''\<rparr> else b))"

text \<open>\<open>uniqueOutput\<close>: the loop over the sorted placeholders counts an element, unless it is a reference to
  a response, when it moves on from it to the next different one.\<close>

fun unique_loop :: "(string \<Rightarrow> bool) \<Rightarrow> string \<Rightarrow> string list \<Rightarrow> string list \<times> nat" where
  "unique_loop sq cur [] = ([cur], 0)"
| "unique_loop sq cur (x # xs) =
     (if cur = x then unique_loop sq cur xs
      else (case unique_loop sq x xs of (out, n) \<Rightarrow> (cur # out, if sq cur then n else Suc n)))"

definition unique_output :: "(string \<Rightarrow> bool) \<Rightarrow> string list \<Rightarrow> string list \<times> nat" where
  "unique_output sq output = (case sort output of [] \<Rightarrow> ([], 0) | x # xs \<Rightarrow> unique_loop sq x xs)"

definition from_set_to_sorted_slice :: "string set \<Rightarrow> string list" where
  "from_set_to_sorted_slice S = sorted_list_of_set S"

definition url_key :: "config_env \<Rightarrow> string \<Rightarrow> string" where
  "url_key env output = ce_title env (take 1 output) @ drop 1 output"

fun url_mapping_loop ::
  "config_env \<Rightarrow> string set \<Rightarrow> (string \<Rightarrow> config_error) \<Rightarrow> string list \<Rightarrow> backend \<Rightarrow> config_error + backend" where
  "url_mapping_loop env inputs undef [] b = Inr b"
| "url_mapping_loop env inputs undef (output # outs) b =
     (if \<not> ce_sequential env output \<and> output \<notin> inputs then Inl (undef output)
      else url_mapping_loop env inputs undef outs
        (b\<lparr>b_URLPattern := replace_all (''{'' @ output @ ''}'') (''{{.'' @ url_key env output @ ''}}'') (b_URLPattern b),
           b_URLKeys := b_URLKeys b @ [url_key env output]\<rparr>))"

definition init_backend_url_mappings ::
  "config_env \<Rightarrow> endpoint_config \<Rightarrow> nat \<Rightarrow> string set \<Rightarrow> backend \<Rightarrow> config_error + backend" where
  "init_backend_url_mappings env e j inputs b =
     (let b = b\<lparr>b_URLPattern := clean_path (b_URLPattern b)\<rparr>
      in case unique_output (ce_sequential env) (simple_url_keys (b_URLPattern b)) of
           (outputParams, outputSetSize) \<Rightarrow>
             let ip = from_set_to_sorted_slice inputs
             in if outputSetSize > length ip
                then Inl (WrongNumberOfParamsError (e_Endpoint e) (e_Method e) j ip outputParams)
                else url_mapping_loop env inputs
                       (\<lambda>p. UndefinedOutputParamError (e_Endpoint e) (e_Method e) j ip outputParams p)
                       outputParams (b\<lparr>b_URLKeys := []\<rparr>))"

definition init_backend ::
  "config_env \<Rightarrow> service_config \<Rightarrow> endpoint_config \<Rightarrow> string set \<Rightarrow> nat \<Rightarrow> backend \<Rightarrow> config_error + backend" where
  "init_backend env s e inputs j b =
     (let b = b\<lparr>b_ParentEndpoint := e_Endpoint e, b_ParentEndpointMethod := e_Method e\<rparr>
      in case init_backend_defaults env s e b of
           Inl err \<Rightarrow> Inl err
         | Inr b \<Rightarrow>
             (case init_backend_url_mappings env e j inputs b of
                Inl err \<Rightarrow> Inl err
              | Inr b \<Rightarrow> Inr (b\<lparr>b_ExtraConfig := sanitize (ce_float env) (b_ExtraConfig b)\<rparr>)))"

definition init_endpoint ::
  "config_env \<Rightarrow> service_config \<Rightarrow> endpoint_config \<Rightarrow> config_error + endpoint_config" where
  "init_endpoint env s e =
     (let e = e\<lparr>e_Endpoint := clean_path (e_Endpoint e)\<rparr>
      in case validate_endpoint env e of
           Some err \<Rightarrow> Inl err
         | None \<Rightarrow>
             let e = e\<lparr>e_HeadersToPass := map canonical_mime_header_key (e_HeadersToPass e)\<rparr>;
                 inputParams = extract_endpoint_params (s_DisableStrictREST s) (e_Endpoint e);
                 e = e\<lparr>e_Endpoint := get_endpoint_path (ce_routing env) (e_Endpoint e) inputParams\<rparr>;
                 e = init_endpoint_defaults s e
             in case validate_streaming_endpoint e of
                  Some err \<Rightarrow> Inl err
                | None \<Rightarrow>
                    if e_OutputEncoding e = NOOP \<and> length (e_Backend e) > 1 then Inl InvalidNoOpEncoding
                    else
                      let e = e\<lparr>e_ExtraConfig := sanitize (ce_float env) (e_ExtraConfig e)\<rparr>
                      in case map_err (init_backend env s e (set inputParams)) 0 (e_Backend e) of
                           Inl err \<Rightarrow> Inl err
                         | Inr bs \<Rightarrow> Inr (e\<lparr>e_Backend := bs\<rparr>))"

definition init_endpoints :: "config_env \<Rightarrow> service_config \<Rightarrow> config_error + service_config" where
  "init_endpoints env s =
     (case map_err (\<lambda>_. init_endpoint env s) 0 (s_Endpoints s) of
        Inl e \<Rightarrow> Inl e
      | Inr es \<Rightarrow> Inr (s\<lparr>s_Endpoints := es\<rparr>))"

section \<open>Init\<close>

definition service_init :: "config_env \<Rightarrow> service_config \<Rightarrow> config_error + service_config" where
  "service_init env s =
     (if s_Version s \<noteq> ConfigVersion then Inl (UnsupportedVersionError (s_Version s) ConfigVersion)
      else case init_global_params env s of
             Inl e \<Rightarrow> Inl e
           | Inr s \<Rightarrow>
               (case init_async_agents env s of
                  Inl e \<Rightarrow> Inl e
                | Inr s \<Rightarrow>
                    (case init_endpoints env s of
                       Inl e \<Rightarrow> Inl e
                     | Inr s \<Rightarrow>
                         (case validate_streaming_service s of Some e \<Rightarrow> Inl e | None \<Rightarrow> Inr s))))"

section \<open>Placeholders\<close>

lemma unique_loop_spec:
  "unique_loop sq cur xs =
     (remdups_adj (cur # xs), length (filter (\<lambda>p. \<not> sq p) (butlast (remdups_adj (cur # xs)))))"
  by (induction sq cur xs rule: unique_loop.induct) auto

lemma unique_output_spec:
  "unique_output sq out =
     (remdups_adj (sort out), length (filter (\<lambda>p. \<not> sq p) (butlast (remdups_adj (sort out)))))"
  by (auto simp: unique_output_def unique_loop_spec split: list.split)

lemma sorted_distinct_adj: "sorted xs \<Longrightarrow> distinct (remdups_adj xs)"
  by (induction xs rule: remdups_adj.induct) (auto simp: less_le)

lemma url_mapping_loop_Inr:
  "(\<exists>b'. url_mapping_loop env inputs undef outs b = Inr b') \<longleftrightarrow>
     (\<forall>p \<in> set outs. ce_sequential env p \<or> p \<in> inputs)"
  by (induction outs arbitrary: b) auto

lemma url_mapping_loop_keys:
  "url_mapping_loop env inputs undef outs b = Inr b' \<Longrightarrow>
     b_URLKeys b' = b_URLKeys b @ map (url_key env) outs \<and>
     (\<exists>pat ks. b' = b\<lparr>b_URLPattern := pat, b_URLKeys := ks\<rparr>)"
proof (induction outs arbitrary: b)
  case Nil
  have "b = b\<lparr>b_URLPattern := b_URLPattern b, b_URLKeys := b_URLKeys b\<rparr>" by simp
  moreover have "b' = b" using Nil by simp
  ultimately show ?case by (metis append_Nil2 list.simps(8))
next
  case (Cons p outs)
  from Cons.prems Cons.IH show ?case by (fastforce split: if_splits)
qed

lemma url_mapping_loop_Inl:
  "url_mapping_loop env inputs undef outs b = Inl err \<Longrightarrow>
     \<exists>p \<in> set outs. \<not> ce_sequential env p \<and> p \<notin> inputs \<and> err = undef p"
  by (induction outs arbitrary: b) (auto split: if_splits)

abbreviation url_params :: "backend \<Rightarrow> string list" where
  "url_params b \<equiv> simple_url_keys (clean_path (b_URLPattern b))"

lemma count_within:
  assumes "finite inputs" and "\<forall>p \<in> set out. sq p \<or> p \<in> inputs"
  shows "length (filter (\<lambda>p. \<not> sq p) (butlast (remdups_adj (sort out)))) \<le> length (sorted_list_of_set inputs)"
proof -
  let ?u = "remdups_adj (sort out)"
  have "distinct (butlast ?u)" using sorted_distinct_adj [of "sort out"] by (simp add: distinct_butlast)
  then have "length (filter (\<lambda>p. \<not> sq p) (butlast ?u)) = card (set (filter (\<lambda>p. \<not> sq p) (butlast ?u)))"
    by (intro distinct_card [symmetric] distinct_filter)
  also have "\<dots> \<le> card inputs"
    using assms by (intro card_mono) (auto dest!: in_set_butlastD)
  finally show ?thesis by simp
qed

lemma sorted_params: "remdups_adj (sort out) = sorted_list_of_set (set out)" for out :: "string list"
  by (intro sorted_distinct_set_unique) (simp_all add: sorted_remdups_adj sorted_distinct_adj)

lemma url_mapping_loop_eq:
  "url_mapping_loop env inputs undef outs b =
     (case filter (\<lambda>p. \<not> ce_sequential env p \<and> p \<notin> inputs) outs of
        [] \<Rightarrow> Inr (b\<lparr>b_URLPattern :=
                    fold (\<lambda>p. replace_all (''{'' @ p @ ''}'') (''{{.'' @ url_key env p @ ''}}'')) outs (b_URLPattern b),
                  b_URLKeys := b_URLKeys b @ map (url_key env) outs\<rparr>)
      | p # _ \<Rightarrow> Inl (undef p))"
  by (induction outs arbitrary: b) (simp_all split: list.split)

text \<open>C36. The URL template of a backend. Let \<open>params\<close> be its placeholders in order, each once, and
  \<open>missing\<close> those that are neither a parameter of the endpoint nor a reference to another response. The
  template is accepted exactly when none is missing: then only the template and the keys of the backend
  change, the keys being the placeholders with the first character in title case, and the template the
  cleaned one with each placeholder replaced by its key, one after the other. When one is missing, the
  first missing one is reported as undefined, unless the placeholders without the last one, references
  not counted, outnumber the parameters, which is reported instead.\<close>

theorem url_mappings_accept:
  assumes "finite inputs"
  shows "init_backend_url_mappings env e j inputs b =
    (let pattern = clean_path (b_URLPattern b);
         params = sorted_list_of_set (set (simple_url_keys pattern));
         missing = filter (\<lambda>p. \<not> ce_sequential env p \<and> p \<notin> inputs) params;
         key = (\<lambda>p. ce_title env (take 1 p) @ drop 1 p)
     in if missing = [] then
          Inr (b\<lparr>b_URLPattern := fold (\<lambda>p. replace_all (''{'' @ p @ ''}'') (''{{.'' @ key p @ ''}}'')) params pattern,
                 b_URLKeys := map key params\<rparr>)
        else if length (filter (\<lambda>p. \<not> ce_sequential env p) (butlast params)) > card inputs then
          Inl (WrongNumberOfParamsError (e_Endpoint e) (e_Method e) j (sorted_list_of_set inputs) params)
        else
          Inl (UndefinedOutputParamError (e_Endpoint e) (e_Method e) j (sorted_list_of_set inputs) params (hd missing)))"
proof -
  let ?sq = "ce_sequential env"
  define params where "params = sorted_list_of_set (set (url_params b))"
  define n where "n = length (filter (\<lambda>p. \<not> ?sq p) (butlast params))"
  have u: "unique_output ?sq (url_params b) = (params, n)"
    by (simp add: unique_output_spec sorted_params params_def n_def)
  have few: "n \<le> card inputs" if "filter (\<lambda>p. \<not> ?sq p \<and> p \<notin> inputs) params = []"
  proof -
    have "\<forall>p \<in> set (url_params b). ?sq p \<or> p \<in> inputs" using that by (auto simp: filter_empty_conv params_def)
    from count_within [OF assms this] show ?thesis by (simp add: n_def params_def sorted_params)
  qed
  have key: "url_key env = (\<lambda>p. ce_title env (take 1 p) @ drop 1 p)" by (simp add: fun_eq_iff url_key_def)
  show ?thesis
    using few
    by (auto simp: init_backend_url_mappings_def u url_mapping_loop_eq from_set_to_sorted_slice_def Let_def key
        split: list.split simp flip: params_def n_def)
qed

lemma url_mappings_Inr:
  assumes "init_backend_url_mappings env e j inputs b = Inr b'"
  shows "b_URLKeys b' = map (url_key env) (remdups_adj (sort (url_params b))) \<and>
    (\<exists>pat ks. b' = b\<lparr>b_URLPattern := pat, b_URLKeys := ks\<rparr>)"
proof -
  obtain outs n where u: "unique_output (ce_sequential env) (url_params b) = (outs, n)" by fastforce
  have outs: "outs = remdups_adj (sort (url_params b))" using u by (simp add: unique_output_spec)
  from assms obtain undef where l: "url_mapping_loop env inputs undef outs
      (b\<lparr>b_URLPattern := clean_path (b_URLPattern b), b_URLKeys := []\<rparr>) = Inr b'"
    by (auto simp: init_backend_url_mappings_def Let_def u split: if_splits)
  from url_mapping_loop_keys [OF l] show ?thesis unfolding outs by fastforce
qed

section \<open>What a successful initialisation establishes\<close>

lemma map_err_Inr:
  "map_err f i xs = Inr ys \<Longrightarrow> length ys = length xs \<and> (\<forall>y \<in> set ys. \<exists>x \<in> set xs. \<exists>j. f j x = Inr y)"
proof (induction xs arbitrary: i ys)
  case (Cons x xs)
  then obtain y ys' where "f i x = Inr y" "map_err f (Suc i) xs = Inr ys'" "ys = y # ys'"
    by (auto split: sum.splits)
  with Cons.IH [of "Suc i" ys'] show ?case by auto
qed simp

definition hosts_clean :: "string list \<Rightarrow> bool" where
  "hosts_clean hs = (safe_clean_hosts hs = Inr hs)"

definition backend_ready :: "config_env \<Rightarrow> endpoint_config \<Rightarrow> backend \<Rightarrow> bool" where
  "backend_ready env e b \<longleftrightarrow>
     b_Timeout b = e_Timeout e \<and> b_ConcurrentCalls b = e_ConcurrentCalls e \<and> b_Method b \<noteq> [] \<and>
     b_Decoder b = Some (decoder_for env b) \<and> b_SDScheme b \<noteq> [] \<and>
     b_ParentEndpoint b = e_Endpoint e \<and> b_ParentEndpointMethod b = e_Method e \<and>
     (e_OutputEncoding e = NOOP \<longrightarrow> b_Encoding b = NOOP) \<and>
     (b_HostSanitizationDisabled b \<or> hosts_clean (b_Host b))"

definition endpoint_ready :: "config_env \<Rightarrow> service_config \<Rightarrow> endpoint_config \<Rightarrow> bool" where
  "endpoint_ready env s e \<longleftrightarrow>
     e_Method e \<noteq> [] \<and> e_Timeout e \<noteq> 0 \<and> e_ConcurrentCalls e \<noteq> 0 \<and> e_OutputEncoding e \<noteq> [] \<and>
     e_Backend e \<noteq> [] \<and> (e_OutputEncoding e = NOOP \<longrightarrow> length (e_Backend e) = 1) \<and>
     (\<forall>b \<in> set (e_Backend e). backend_ready env e b)"

lemma init_hosts_Inr:
  assumes "init_hosts hs b = Inr b'" and "hosts_clean hs"
  shows "\<exists>h. b' = b\<lparr>b_Host := h\<rparr> \<and> (b_HostSanitizationDisabled b \<or> hosts_clean h)"
proof (cases "length (b_Host b) = 0 \<or> \<not> b_HostSanitizationDisabled b")
  case True
  with assms safe_clean_hosts_idem show ?thesis
    by (fastforce simp: init_hosts_def clean_hosts_error_def hosts_clean_def split: if_splits sum.splits)
next
  case False
  with assms have "b' = b\<lparr>b_Host := b_Host b\<rparr>" by (simp add: init_hosts_def)
  with False show ?thesis by blast
qed

lemma init_backend_ready:
  assumes "init_backend env s e inputs j b = Inr b'" and "hosts_clean (s_Host s)" and "e_Method e \<noteq> []"
  shows "backend_ready env e b'"
proof -
  let ?b = "b\<lparr>b_ParentEndpoint := e_Endpoint e, b_ParentEndpointMethod := e_Method e\<rparr>"
  from assms(1) obtain b1 b2 where 1: "init_backend_defaults env s e ?b = Inr b1"
    and 2: "init_backend_url_mappings env e j inputs b1 = Inr b2"
    and 3: "b' = b2\<lparr>b_ExtraConfig := sanitize (ce_float env) (b_ExtraConfig b2)\<rparr>"
    by (auto simp: init_backend_def Let_def split: sum.splits)
  from 1 obtain b0 where 0: "init_hosts (s_Host s) ?b = Inr b0"
    by (auto simp: init_backend_defaults_def split: sum.splits)
  from init_hosts_Inr [OF 0 assms(2)] obtain h
    where h: "b0 = ?b\<lparr>b_Host := h\<rparr>" "b_HostSanitizationDisabled ?b \<or> hosts_clean h" by blast
  have "backend_ready env e b1"
    using 1 h(2) assms(3) unfolding init_backend_defaults_def 0 sum.case h(1)
    by (auto simp: backend_ready_def decoder_for_def Let_def split: if_splits)
  moreover from url_mappings_Inr [OF 2] obtain pat ks where "b2 = b1\<lparr>b_URLPattern := pat, b_URLKeys := ks\<rparr>" by blast
  ultimately show ?thesis by (simp add: 3 backend_ready_def decoder_for_def)
qed

lemma init_endpoint_defaults_ready:
  assumes "s_Timeout s \<noteq> 0"
  shows "e_Method (init_endpoint_defaults s e) \<noteq> [] \<and> e_Timeout (init_endpoint_defaults s e) \<noteq> 0 \<and>
    e_ConcurrentCalls (init_endpoint_defaults s e) \<noteq> 0 \<and> e_OutputEncoding (init_endpoint_defaults s e) \<noteq> [] \<and>
    e_Backend (init_endpoint_defaults s e) = e_Backend e \<and> e_Endpoint (init_endpoint_defaults s e) = e_Endpoint e"
  using assms by (simp add: init_endpoint_defaults_def Let_def JSON_def)

lemma init_endpoint_ready:
  assumes "init_endpoint env s e = Inr e'" and "hosts_clean (s_Host s)" and "s_Timeout s \<noteq> 0"
  shows "endpoint_ready env s e'"
proof -
  let ?e1 = "e\<lparr>e_Endpoint := clean_path (e_Endpoint e)\<rparr>"
  let ?ps = "extract_endpoint_params (s_DisableStrictREST s) (clean_path (e_Endpoint e))"
  define e2 where "e2 = init_endpoint_defaults s (e\<lparr>e_HeadersToPass := map canonical_mime_header_key (e_HeadersToPass e),
     e_Endpoint := get_endpoint_path (ce_routing env) (clean_path (e_Endpoint e)) ?ps\<rparr>)"
  define e3 where "e3 = e2\<lparr>e_ExtraConfig := sanitize (ce_float env) (e_ExtraConfig e2)\<rparr>"
  from assms(1) have valid: "validate_endpoint env ?e1 = None"
    by (auto simp: init_endpoint_def Let_def split: option.splits)
  from assms(1) obtain bs where noop: "\<not> (e_OutputEncoding e2 = NOOP \<and> length (e_Backend e2) > 1)"
    and bs: "map_err (init_backend env s e3 (set ?ps)) 0 (e_Backend e3) = Inr bs"
    and e': "e' = e3\<lparr>e_Backend := bs\<rparr>"
    by (auto simp: init_endpoint_def Let_def e2_def e3_def split: option.splits sum.splits if_splits)
  have e2: "e_Method e2 \<noteq> []" "e_Timeout e2 \<noteq> 0" "e_ConcurrentCalls e2 \<noteq> 0" "e_OutputEncoding e2 \<noteq> []"
    "e_Backend e2 = e_Backend e"
    using init_endpoint_defaults_ready [OF assms(3)] by (simp_all add: e2_def)
  have nonempty: "e_Backend e \<noteq> []" using valid by (auto simp: validate_endpoint_def split: sum.splits if_splits)
  have len: "length bs = length (e_Backend e)" using map_err_Inr [OF bs] e2 by (simp add: e3_def)
  have ready: "backend_ready env e3 b" if b: "b \<in> set bs" for b
  proof -
    from map_err_Inr [OF bs] b obtain x j where "init_backend env s e3 (set ?ps) j x = Inr b" by blast
    then show ?thesis by (rule init_backend_ready [OF _ assms(2)]) (simp add: e3_def e2)
  qed
  have "backend_ready env e' b" if "b \<in> set bs" for b
    using ready [OF that] by (simp add: backend_ready_def e')
  then show ?thesis
    using e2 nonempty noop len by (cases bs) (auto simp: endpoint_ready_def e' e3_def)
qed

text \<open>C35. What a successful \<open>Init\<close> establishes: the supported version, no zero port, timeout or connection
  limit, clean service hosts, and for every endpoint a method, a timeout, a non-zero
  number of calls, an encoding and at least one backend (exactly one under the no-op encoding);
  every backend shares the endpoint's timeout and calls, has a method, a decoder for its encoding,
  a service-discovery scheme and hosts that are clean unless sanitising is disabled. A service with
  a streaming endpoint has no write timeout and no short response header timeout.\<close>

theorem service_init_correct:
  assumes "service_init env s = Inr s'"
  shows "s_Version s' = ConfigVersion \<and> s_Port s' \<noteq> 0 \<and> s_Timeout s' \<noteq> 0 \<and> s_MaxIdleConnsPerHost s' \<noteq> 0 \<and>
    (s_Address s' = [] \<or> ce_parse_ip env (s_Address s')) \<and> hosts_clean (s_Host s') \<and>
    length (s_Endpoints s') = length (s_Endpoints s) \<and>
    (\<forall>e \<in> set (s_Endpoints s'). endpoint_ready env s' e) \<and>
    (service_has_streaming_endpoint s' \<longrightarrow>
      sint (s_WriteTimeout s') \<le> 0 \<and>
      (sint (s_ResponseHeaderTimeout s') \<le> 0 \<or>
       sint (s_ResponseHeaderTimeout s') \<ge> sint minStreamingResponseHeaderTimeout))"
proof -
  from assms obtain s1 s2 where v: "s_Version s = ConfigVersion" and g: "init_global_params env s = Inr s1"
    and a: "init_async_agents env s1 = Inr s2" and e: "init_endpoints env s2 = Inr s'"
    and st: "validate_streaming_service s' = None"
    by (auto simp: service_init_def split: if_splits sum.splits option.splits)
  have s1: "s_Version s1 = ConfigVersion \<and> s_Port s1 \<noteq> 0 \<and> s_Timeout s1 \<noteq> 0 \<and> s_MaxIdleConnsPerHost s1 \<noteq> 0 \<and>
    (s_Address s1 = [] \<or> ce_parse_ip env (s_Address s1)) \<and> hosts_clean (s_Host s1) \<and> s_Endpoints s1 = s_Endpoints s"
    using g v safe_clean_hosts_idem
    by (auto simp: init_global_params_def Let_def defaultPort_def DefaultMaxIdleConnsPerHost_def DefaultTimeout_def
        second_def validate_address_def clean_hosts_error_def hosts_clean_def split: if_splits sum.splits)
  from a obtain as where s2: "s2 = s1\<lparr>s_AsyncAgents := as\<rparr>"
    by (auto simp: init_async_agents_def split: sum.splits)
  from e obtain es where es: "map_err (\<lambda>_. init_endpoint env s2) 0 (s_Endpoints s2) = Inr es"
    and s': "s' = s2\<lparr>s_Endpoints := es\<rparr>"
    by (auto simp: init_endpoints_def split: sum.splits)
  have "endpoint_ready env s2 x" if "x \<in> set es" for x
  proof -
    from map_err_Inr [OF es] that obtain y where "init_endpoint env s2 y = Inr x" by blast
    then show ?thesis by (rule init_endpoint_ready) (use s1 s2 in simp_all)
  qed
  then have "\<forall>x \<in> set es. endpoint_ready env s' x" by (simp add: endpoint_ready_def)
  moreover have "length es = length (s_Endpoints s)" using map_err_Inr [OF es] s1 s2 by simp
  ultimately show ?thesis
    using s1 s2 s' st by (auto simp: validate_streaming_service_def split: if_splits)
qed

text \<open>An environment with the default patterns.\<close>

definition default_env :: config_env where
  "default_env = \<lparr>ce_invalid = (\<lambda>s. Inr (default_invalid s)), ce_sequential = default_sequential_params,
     ce_routing = ColonRouterPatternBuilder, ce_title = to_upper,
     ce_decoders = (\<lambda>_ _. noop_decoder), ce_parse_ip = (\<lambda>_. True), ce_float = (\<lambda>_. [])\<rparr>"

definition sample_endpoint :: endpoint_config where
  "sample_endpoint = endpoint_zero\<lparr>e_Endpoint := ''/u/{id}'', e_Backend := [backend_zero\<lparr>b_URLPattern := ''/v/{id}''\<rparr>]\<rparr>"

definition sample_service :: service_config where
  "sample_service = service_zero\<lparr>s_Version := 3, s_Host := [''h''], s_Endpoints := [sample_endpoint]\<rparr>"

theorem service_init_correct_witness:
  "\<exists>s'. service_init default_env sample_service = Inr s' \<and> s_Port s' \<noteq> 0 \<and> length (s_Endpoints s') = 1 \<and>
    list_all (endpoint_ready default_env s') (s_Endpoints s')"
proof -
  have "case service_init default_env sample_service of Inr s \<Rightarrow> length (s_Endpoints s) = 1 | Inl e \<Rightarrow> False"
    by code_simp
  then obtain s' where s': "service_init default_env sample_service = Inr s'" "length (s_Endpoints s') = 1"
    by (auto split: sum.splits)
  from service_init_correct [OF s'(1)] s' show ?thesis by (auto simp: list_all_iff)
qed

theorem url_mappings_accept_witness:
  "init_backend_url_mappings default_env sample_endpoint 0 {''id''} (backend_zero\<lparr>b_URLPattern := ''/v/{resp0_x}/{id}/{id}''\<rparr>) =
     Inr (backend_zero\<lparr>b_URLPattern := ''/v/{{.Resp0_x}}/{{.Id}}/{{.Id}}'', b_URLKeys := [''Id'', ''Resp0_x'']\<rparr>)"
proof -
  let ?key = "\<lambda>p. ce_title default_env (take 1 p) @ drop 1 p"
  have clean: "clean_path ''/v/{resp0_x}/{id}/{id}'' = ''/v/{resp0_x}/{id}/{id}''" by code_simp
  have params: "sorted_list_of_set (set (simple_url_keys ''/v/{resp0_x}/{id}/{id}'')) = [''id'', ''resp0_x'']"
    by code_simp
  have sequential: "ce_sequential default_env ''resp0_x''" by code_simp
  have keys: "map ?key [''id'', ''resp0_x''] = [''Id'', ''Resp0_x'']" by code_simp
  have pattern: "fold (\<lambda>p. replace_all (''{'' @ p @ ''}'') (''{{.'' @ ?key p @ ''}}'')) [''id'', ''resp0_x'']
      ''/v/{resp0_x}/{id}/{id}'' = ''/v/{{.Resp0_x}}/{{.Id}}/{{.Id}}''" by code_simp
  have finite: "finite {''id''}" by simp
  have pat: "b_URLPattern (backend_zero\<lparr>b_URLPattern := p\<rparr>) = p" for p by simp
  show ?thesis
    unfolding url_mappings_accept [OF finite] Let_def pat clean params keys pattern
    by (simp add: sequential)
qed

text \<open>The error for a wrong number of parameters is documented for every case of more output than
  input parameters. The loop that counts never counts the last placeholder, so with one more output
  than input the count passes and the placeholder itself is reported instead.\<close>

theorem wrong_number_off_by_one:
  "(case init_backend_url_mappings default_env sample_endpoint 0 {''id''} (backend_zero\<lparr>b_URLPattern := ''/{id}/{key}''\<rparr>) of
      Inl e \<Rightarrow> e = UndefinedOutputParamError ''/u/{id}'' [] 0 [''id''] [''id'', ''key''] ''key'' | Inr b \<Rightarrow> False) \<and>
   (case init_backend_url_mappings default_env sample_endpoint 0 {''id''} (backend_zero\<lparr>b_URLPattern := ''/{id}/{key}/{tab}''\<rparr>) of
      Inl e \<Rightarrow> e = WrongNumberOfParamsError ''/u/{id}'' [] 0 [''id''] [''id'', ''key'', ''tab''] | Inr b \<Rightarrow> False)"
  by (rule conjI) code_simp+

definition streaming_sample :: "string \<Rightarrow> service_config" where
  "streaming_sample enc = sample_service\<lparr>s_Endpoints := [sample_endpoint\<lparr>e_OutputEncoding := NOOP,
     e_Backend := [backend_zero\<lparr>b_Encoding := enc\<rparr>],
     e_ExtraConfig := [(luaProxyNamespace, VMap [(''post'', VString ''x()'')])]\<rparr>]\<rparr>"

text \<open>The checks of streaming endpoints run before the no-op encoding of the endpoint is passed on to
  its backend. A no-op endpoint whose backend names no encoding is therefore not recognised: it is
  accepted with a response-manipulating script, and it is a streaming endpoint once \<open>Init\<close> is
  over. With the backend's encoding spelled out, the same configuration is rejected.\<close>

theorem streaming_checks_bypassed:
  "(case service_init default_env (streaming_sample []) of
      Inl e \<Rightarrow> False
    | Inr s \<Rightarrow> list_all (\<lambda>e. is_streaming_endpoint e \<and> has_lua_post (e_ExtraConfig e)) (s_Endpoints s)) \<and>
   (case service_init default_env (streaming_sample NOOP) of
      Inl e \<Rightarrow> e = StreamingResponseManipulation ''/u/:id'' None
    | Inr s \<Rightarrow> False)"
  by (rule conjI) code_simp+

section \<open>Aliases\<close>

lemma normalize_module_lookup:
  "map_of (normalize_module alias m e) k =
     (case alias m of
        None \<Rightarrow> map_of e k
      | Some a \<Rightarrow> if k = m then None else if k = a \<and> map_of e m \<noteq> None then map_of e m else map_of e k)"
  by (auto simp: normalize_module_def gomap_simps split: option.split)

lemma fold_normalize_frame:
  assumes "k \<in> set ms \<Longrightarrow> alias k = None" and "\<And>m. m \<in> set ms \<Longrightarrow> alias m \<noteq> Some k"
  shows "map_of (fold (normalize_module alias) ms e) k = map_of e k"
  using assms
proof (induction ms arbitrary: e)
  case (Cons m ms)
  have "map_of (normalize_module alias m e) k = map_of e k"
    using Cons.prems(1) Cons.prems(2) [of m] by (auto simp: normalize_module_lookup split: option.split)
  with Cons show ?case by simp
qed simp

lemma fold_normalize_moved:
  assumes "distinct ms" and "m \<in> set ms" and "alias m = Some a" and "map_of e m = Some v"
    and target: "\<And>m a. m \<in> set ms \<Longrightarrow> alias m = Some a \<Longrightarrow> alias a = None"
    and inj: "\<And>m'. m' \<in> set ms \<Longrightarrow> alias m' = Some a \<Longrightarrow> m' = m"
  shows "map_of (fold (normalize_module alias) ms e) a = Some v \<and>
    map_of (fold (normalize_module alias) ms e) m = None"
proof -
  from assms(2) obtain xs ys where ms: "ms = xs @ m # ys" by (meson split_list)
  have nt: "alias x \<noteq> Some m" if "x \<in> set ms" for x
    using target [OF that, of m] assms(3) by auto
  let ?e1 = "fold (normalize_module alias) xs e"
  let ?e2 = "normalize_module alias m ?e1"
  have "map_of ?e1 m = Some v"
    using assms(1,4) nt by (subst fold_normalize_frame) (auto simp: ms)
  moreover have "a \<noteq> m" using target [OF assms(2,3)] assms(3) by auto
  ultimately have 2: "map_of ?e2 a = Some v" "map_of ?e2 m = None"
    using assms(3) by (simp_all add: normalize_module_lookup)
  have ma: "map_of (fold (normalize_module alias) ys ?e2) a = map_of ?e2 a"
  proof (rule fold_normalize_frame)
    show "alias a = None" by (rule target [OF assms(2,3)])
    show "alias x \<noteq> Some a" if "x \<in> set ys" for x
      using inj [of x] that assms(1) by (auto simp: ms)
  qed
  have mm: "map_of (fold (normalize_module alias) ys ?e2) m = map_of ?e2 m"
    by (rule fold_normalize_frame) (use assms(1) nt in \<open>auto simp: ms\<close>)
  show ?thesis using 2 ma mm by (simp add: ms)
qed

text \<open>Normalising the module names: when no alias leads to another alias and no two modules to the
  same name, every module found under an alias is afterwards under its name, no alias is left, and
  all other modules are as before, whatever order the map is ranged over in.\<close>

theorem normalize_extra_correct:
  assumes "gomap_ok e" and "\<forall>m a. alias m = Some a \<longrightarrow> alias a = None"
    and "\<forall>m m' a. alias m = Some a \<longrightarrow> alias m' = Some a \<longrightarrow> m = m'"
  shows "map_of (normalize_extra alias e) k =
     (if alias k \<noteq> None then None
      else case filter (\<lambda>m. alias m = Some k) (map fst e) of
             m # _ \<Rightarrow> map_of e m
           | [] \<Rightarrow> map_of e k)"
proof (cases "alias k")
  case None
  show ?thesis
  proof (cases "filter (\<lambda>m. alias m = Some k) (map fst e)")
    case Nil
    then have "\<And>m. m \<in> set (map fst e) \<Longrightarrow> alias m \<noteq> Some k"
      by (metis (mono_tags, lifting) empty_filter_conv)
    then have "map_of (normalize_extra alias e) k = map_of e k"
      unfolding normalize_extra_def by (intro fold_normalize_frame) (use None in auto)
    with Nil None show ?thesis by simp
  next
    case (Cons m ms)
    then have "m \<in> set (filter (\<lambda>m. alias m = Some k) (map fst e))" by (metis list.set_intros(1))
    then have m: "m \<in> set (map fst e)" "alias m = Some k" by simp_all
    from m(1) obtain v where v: "map_of e m = Some v"
      by (metis list.set_map map_of_eq_None_iff not_None_eq)
    have "map_of (normalize_extra alias e) k = Some v"
      unfolding normalize_extra_def
      by (rule fold_normalize_moved [THEN conjunct1]) (use assms m v in auto)
    with Cons None v show ?thesis by simp
  qed
next
  case (Some a)
  show ?thesis
  proof (cases "k \<in> set (map fst e)")
    case True
    then obtain v where v: "map_of e k = Some v"
      by (metis list.set_map map_of_eq_None_iff not_None_eq)
    have "map_of (normalize_extra alias e) k = None"
      unfolding normalize_extra_def
      by (rule fold_normalize_moved [THEN conjunct2]) (use assms True Some v in auto)
    with Some show ?thesis by simp
  next
    case False
    have "map_of (normalize_extra alias e) k = map_of e k"
      unfolding normalize_extra_def by (rule fold_normalize_frame) (use assms False Some in auto)
    with Some False show ?thesis by (simp add: map_of_eq_None_iff)
  qed
qed

theorem normalize_extra_correct_witness:
  "map_of (normalize_extra [''proxy'' \<mapsto> proxy_Namespace] [(''x'', VNil), (''proxy'', VBool True)]) proxy_Namespace = Some (VBool True)"
proof -
  let ?al = "[''proxy'' \<mapsto> proxy_Namespace]" and ?e = "[(''x'', VNil), (''proxy'', VBool True)]"
  have n: "proxy_Namespace \<noteq> ''proxy''" by (simp add: proxy_Namespace_def)
  have 1: "gomap_ok ?e" by simp
  have 2: "\<forall>m a. ?al m = Some a \<longrightarrow> ?al a = None" using n by simp
  have 3: "\<forall>m m' a. ?al m = Some a \<longrightarrow> ?al m' = Some a \<longrightarrow> m = m'" by simp
  have f: "filter (\<lambda>m. ?al m = Some proxy_Namespace) (map fst ?e) = [''proxy'']" by simp
  have "?al proxy_Namespace = None" using n by simp
  then show ?thesis
    unfolding normalize_extra_correct [OF 1 2 3] f by simp
qed

end
