(* ===== verification/ConfigParser.thy ===== *)
theory ConfigParser
  imports ConfigInit
begin

text \<open>
  The JSON configuration parser, \<open>src/config/parser.go\<close>: the structs the file is unmarshalled into,
  their conversion to the configuration, and errors with a position in the file. Reading the file,
  \<open>json.Unmarshal\<close> and \<open>time.ParseDuration\<close> are parameters. A pointer to a struct in a list may be
  nil (\<open>null\<close> in the file): using it panics, and the conversions return \<open>None\<close> then.
\<close>

section \<open>The parsed structs\<close>

record parseable_tls =
  pt_IsDisabled :: bool
  pt_PublicKey :: string
  pt_PrivateKey :: string
  pt_CaCerts :: "string list"
  pt_MinVersion :: string
  pt_MaxVersion :: string
  pt_CurvePreferences :: "16 word list"
  pt_PreferServerCipherSuites :: bool
  pt_CipherSuites :: "16 word list"
  pt_EnableMTLS :: bool
  pt_DisableSystemCaPool :: bool
  pt_Keys :: "tls_key_pair list"

record parseable_client_tls =
  pct_AllowInsecureConnections :: bool
  pct_CaCerts :: "string list"
  pct_DisableSystemCaPool :: bool
  pct_MinVersion :: string
  pct_MaxVersion :: string
  pct_CurvePreferences :: "16 word list"
  pct_CipherSuites :: "16 word list"
  pct_ClientCerts :: "client_tls_cert list"

record parseable_backend =
  pb_Group :: string
  pb_Method :: string
  pb_Host :: "string list"
  pb_HostSanitizationDisabled :: bool
  pb_URLPattern :: string
  pb_AllowList :: "string list"
  pb_DenyList :: "string list"
  pb_Mapping :: "string gomap"
  pb_Encoding :: string
  pb_IsCollection :: bool
  pb_Target :: string
  pb_ExtraConfig :: "extra_config option"
  pb_SD :: string
  pb_HeadersToPass :: "string list"
  pb_SDScheme :: string
  pb_QueryStringsToPass :: "string list"

record parseable_endpoint_config =
  pe_Endpoint :: string
  pe_Method :: string
  pe_Backend :: "parseable_backend option list"
  pe_ConcurrentCalls :: int
  pe_Timeout :: string
  pe_CacheTTL :: string
  pe_QueryString :: "string list"
  pe_ExtraConfig :: "extra_config option"
  pe_HeadersToPass :: "string list"
  pe_OutputEncoding :: string

record parseable_async_agent =
  pa_Name :: string
  pa_MaxRetries :: int
  pa_BackoffStrategy :: string
  pa_HealthInterval :: string
  pa_Timeout :: string
  pa_Workers :: int
  pa_Topic :: string
  pa_MaxRate :: "64 word"
  pa_Encoding :: string
  pa_Backend :: "parseable_backend option list"
  pa_ExtraConfig :: extra_config

record parseable_service_config =
  ps_Name :: string
  ps_Endpoints :: "parseable_endpoint_config option list"
  ps_AsyncAgents :: "parseable_async_agent option list"
  ps_Timeout :: string
  ps_CacheTTL :: string
  ps_Host :: "string list"
  ps_Port :: int
  ps_Address :: string
  ps_Version :: int
  ps_ExtraConfig :: "extra_config option"
  ps_ReadTimeout :: string
  ps_WriteTimeout :: string
  ps_IdleTimeout :: string
  ps_ReadHeaderTimeout :: string
  ps_MaxHeaderBytes :: int
  ps_DisableKeepAlives :: bool
  ps_DisableCompression :: bool
  ps_DisableStrictREST :: bool
  ps_MaxIdleConns :: int
  ps_MaxIdleConnsPerHost :: int
  ps_IdleConnTimeout :: string
  ps_ResponseHeaderTimeout :: string
  ps_ExpectContinueTimeout :: string
  ps_OutputEncoding :: string
  ps_DialerTimeout :: string
  ps_DialerFallbackDelay :: string
  ps_DialerKeepAlive :: string
  ps_Debug :: bool
  ps_Echo :: bool
  ps_Plugin :: "plugin_config option"
  ps_TLS :: "parseable_tls option"
  ps_ClientTLS :: "parseable_client_tls option"
  ps_UseH2C :: bool
  ps_DNSCacheTTL :: string
  ps_MaxShutdownDuration :: string

section \<open>Conversion\<close>

text \<open>\<open>parseDuration\<close>: what \<open>time.ParseDuration\<close> (\<open>pd\<close>) rejects counts as no duration at all.\<close>

definition parse_duration :: "(string \<Rightarrow> duration option) \<Rightarrow> string \<Rightarrow> duration" where
  "parse_duration pd v = (case pd v of None \<Rightarrow> 0 | Some d \<Rightarrow> d)"

definition extra_of :: "extra_config option \<Rightarrow> extra_config" where
  "extra_of e = (case e of None \<Rightarrow> [] | Some ec \<Rightarrow> ec)"

text \<open>A loop that calls a method on each pointer.\<close>

fun each :: "('a \<Rightarrow> 'b option) \<Rightarrow> 'a option list \<Rightarrow> 'b list option" where
  "each f [] = Some []"
| "each f (None # xs) = None"
| "each f (Some x # xs) =
     (case f x of None \<Rightarrow> None | Some y \<Rightarrow> (case each f xs of None \<Rightarrow> None | Some ys \<Rightarrow> Some (y # ys)))"

definition parsed_backend :: "parseable_backend \<Rightarrow> backend" where
  "parsed_backend p =
     (let b = backend_zero\<lparr>b_Group := pb_Group p, b_Method := pb_Method p, b_Host := pb_Host p,
            b_HostSanitizationDisabled := pb_HostSanitizationDisabled p, b_URLPattern := pb_URLPattern p,
            b_Mapping := pb_Mapping p, b_Encoding := pb_Encoding p, b_IsCollection := pb_IsCollection p,
            b_Target := pb_Target p, b_SD := pb_SD p, b_SDScheme := pb_SDScheme p,
            b_AllowList := pb_AllowList p, b_DenyList := pb_DenyList p, b_HeadersToPass := pb_HeadersToPass p,
            b_QueryStringsToPass := pb_QueryStringsToPass p\<rparr>;
          b = (if b_SDScheme b = [] then b\<lparr>b_SDScheme := ''http''\<rparr> else b)
      in (case pb_ExtraConfig p of None \<Rightarrow> b | Some ec \<Rightarrow> b\<lparr>b_ExtraConfig := ec\<rparr>))"

definition parsed_backends :: "parseable_backend option list \<Rightarrow> backend list option" where
  "parsed_backends = each (\<lambda>p. Some (parsed_backend p))"

definition parsed_endpoint ::
  "(string \<Rightarrow> duration option) \<Rightarrow> parseable_endpoint_config \<Rightarrow> endpoint_config option" where
  "parsed_endpoint pd p =
     (let e = endpoint_zero\<lparr>e_Endpoint := pe_Endpoint p, e_Method := pe_Method p,
            e_ConcurrentCalls := pe_ConcurrentCalls p, e_Timeout := parse_duration pd (pe_Timeout p),
            e_CacheTTL := parse_duration pd (pe_CacheTTL p), e_QueryString := pe_QueryString p,
            e_HeadersToPass := pe_HeadersToPass p, e_OutputEncoding := pe_OutputEncoding p,
            e_ExtraConfig := extra_of (pe_ExtraConfig p)\<rparr>
      in case parsed_backends (pe_Backend p) of
           None \<Rightarrow> None
         | Some bs \<Rightarrow> Some (e\<lparr>e_Backend := bs\<rparr>))"

definition parsed_agent ::
  "(string \<Rightarrow> duration option) \<Rightarrow> parseable_async_agent \<Rightarrow> async_agent option" where
  "parsed_agent pd p =
     (case parsed_backends (pa_Backend p) of
        None \<Rightarrow> None
      | Some bs \<Rightarrow>
          Some \<lparr>a_Name = pa_Name p,
            a_Connection = \<lparr>c_MaxRetries = pa_MaxRetries p, c_BackoffStrategy = pa_BackoffStrategy p,
              c_HealthInterval = parse_duration pd (pa_HealthInterval p)\<rparr>,
            a_Consumer = \<lparr>c_Timeout = parse_duration pd (pa_Timeout p), c_Workers = pa_Workers p,
              c_Topic = pa_Topic p, c_MaxRate = pa_MaxRate p\<rparr>,
            a_Encoding = pa_Encoding p, a_Backend = bs, a_ExtraConfig = pa_ExtraConfig p\<rparr>)"

definition parsed_tls :: "parseable_tls \<Rightarrow> tls" where
  "parsed_tls p =
     \<lparr>t_IsDisabled = pt_IsDisabled p, t_PublicKey = pt_PublicKey p, t_PrivateKey = pt_PrivateKey p,
      t_CaCerts = pt_CaCerts p, t_MinVersion = pt_MinVersion p, t_MaxVersion = pt_MaxVersion p,
      t_CurvePreferences = pt_CurvePreferences p, t_PreferServerCipherSuites = pt_PreferServerCipherSuites p,
      t_CipherSuites = pt_CipherSuites p, t_EnableMTLS = pt_EnableMTLS p,
      t_DisableSystemCaPool = pt_DisableSystemCaPool p, t_Keys = pt_Keys p\<rparr>"

definition parsed_client_tls :: "parseable_client_tls \<Rightarrow> client_tls" where
  "parsed_client_tls p =
     \<lparr>ct_AllowInsecureConnections = pct_AllowInsecureConnections p, ct_CaCerts = pct_CaCerts p,
      ct_DisableSystemCaPool = pct_DisableSystemCaPool p, ct_MinVersion = pct_MinVersion p,
      ct_MaxVersion = pct_MaxVersion p, ct_CurvePreferences = pct_CurvePreferences p,
      ct_CipherSuites = pct_CipherSuites p, ct_ClientCerts = pct_ClientCerts p\<rparr>"

text \<open>\<open>parseableServiceConfig.normalize\<close>.\<close>

definition parsed_service ::
  "(string \<Rightarrow> duration option) \<Rightarrow> parseable_service_config \<Rightarrow> service_config option" where
  "parsed_service pd p =
     (let d = parse_duration pd;
          cfg = service_zero\<lparr>s_Name := ps_Name p, s_Timeout := d (ps_Timeout p), s_CacheTTL := d (ps_CacheTTL p),
            s_Host := ps_Host p, s_Port := ps_Port p, s_Address := ps_Address p, s_Version := ps_Version p,
            s_Debug := ps_Debug p, s_Echo := ps_Echo p, s_ReadTimeout := d (ps_ReadTimeout p),
            s_WriteTimeout := d (ps_WriteTimeout p), s_IdleTimeout := d (ps_IdleTimeout p),
            s_ReadHeaderTimeout := d (ps_ReadHeaderTimeout p), s_MaxHeaderBytes := ps_MaxHeaderBytes p,
            s_DisableKeepAlives := ps_DisableKeepAlives p, s_DisableCompression := ps_DisableCompression p,
            s_DisableStrictREST := ps_DisableStrictREST p, s_MaxIdleConns := ps_MaxIdleConns p,
            s_MaxIdleConnsPerHost := ps_MaxIdleConnsPerHost p, s_IdleConnTimeout := d (ps_IdleConnTimeout p),
            s_ResponseHeaderTimeout := d (ps_ResponseHeaderTimeout p),
            s_ExpectContinueTimeout := d (ps_ExpectContinueTimeout p), s_DialerTimeout := d (ps_DialerTimeout p),
            s_DialerFallbackDelay := d (ps_DialerFallbackDelay p), s_DialerKeepAlive := d (ps_DialerKeepAlive p),
            s_OutputEncoding := ps_OutputEncoding p, s_Plugin := ps_Plugin p, s_UseH2C := ps_UseH2C p,
            s_DNSCacheTTL := d (ps_DNSCacheTTL p), s_MaxShutdownDuration := d (ps_MaxShutdownDuration p)\<rparr>;
          cfg = cfg\<lparr>s_TLS := map_option parsed_tls (ps_TLS p),
            s_ClientTLS := map_option parsed_client_tls (ps_ClientTLS p),
            s_ExtraConfig := extra_of (ps_ExtraConfig p)\<rparr>
      in case each (parsed_endpoint pd) (ps_Endpoints p) of
           None \<Rightarrow> None
         | Some es \<Rightarrow>
             (case each (parsed_agent pd) (ps_AsyncAgents p) of
                None \<Rightarrow> None
              | Some as \<Rightarrow> Some (cfg\<lparr>s_Endpoints := es, s_AsyncAgents := as\<rparr>)))"

section \<open>Positions of errors\<close>

text \<open>\<open>getErrorRowCol\<close>: the loop over the bytes before the offset.\<close>

fun row_col_loop :: "string \<Rightarrow> int \<times> int \<Rightarrow> int \<times> int" where
  "row_col_loop [] (row, col) = (row, col)"
| "row_col_loop (v # vs) (row, col) =
     (if v = CHR 0x0D then row_col_loop vs (row, col)
      else if v = CHR 0x0A then row_col_loop vs (row + 1, 0)
      else row_col_loop vs (row, col + 1))"

definition get_error_row_col :: "string \<Rightarrow> int \<Rightarrow> int \<times> int" where
  "get_error_row_col source offset =
     (let offset = (if int (length source) < offset then int (length source) - 1 else offset)
      in row_col_loop (take (nat offset) source) (0, 0))"

text \<open>The errors that \<open>CheckErr\<close> tells apart, with their offset or operation, and their text.\<close>

datatype file_error =
    JSONError int string           \<comment> \<open>\<open>*json.SyntaxError\<close> and \<open>*json.UnmarshalTypeError\<close>: offset, text\<close>
  | PathError string string        \<comment> \<open>operation, text\<close>
  | OtherError string

datatype parse_error =
    ParseError string int int int string   \<comment> \<open>file, offset, row, column, text\<close>
  | Described string

fun parse_error_text :: "parse_error \<Rightarrow> string" where
  "parse_error_text (ParseError f off row col e) =
     [CHR 0x27] @ f @ [CHR 0x27] @ '': '' @ e @ '', offset: '' @ show_int off @ '', row: '' @ show_int row @
     '', col: '' @ show_int col"
| "parse_error_text (Described s) = s"

text \<open>\<open>NewParseError\<close> reads the file once more; \<open>content\<close> is what it gets (nothing on an error).\<close>

definition new_parse_error :: "string \<Rightarrow> string \<Rightarrow> string \<Rightarrow> int \<Rightarrow> parse_error" where
  "new_parse_error content err configFile offset =
     (case get_error_row_col content offset of (row, col) \<Rightarrow> ParseError configFile offset row col err)"

definition check_err :: "string \<Rightarrow> file_error \<Rightarrow> string \<Rightarrow> parse_error" where
  "check_err content err configFile =
     (case err of
        JSONError offset e \<Rightarrow> new_parse_error content e configFile offset
      | PathError op e \<Rightarrow> Described ([CHR 0x27] @ configFile @ [CHR 0x27] @ '' ('' @ op @ ''): '' @ e)
      | OtherError e \<Rightarrow> Described ([CHR 0x27] @ configFile @ [CHR 0x27] @ '': '' @ e))"

text \<open>\<open>parser.Parse\<close>; \<open>None\<close> is a panic.\<close>

definition parser_parse ::
  "config_env \<Rightarrow> (string \<Rightarrow> duration option) \<Rightarrow> (string \<Rightarrow> file_error + string) \<Rightarrow>
   (string \<Rightarrow> file_error + parseable_service_config) \<Rightarrow> string \<Rightarrow> string \<Rightarrow>
   (parse_error + service_config) option" where
  "parser_parse env pd fileReader unmarshal content configFile =
     (case fileReader configFile of
        Inl e \<Rightarrow> Some (Inl (check_err content e configFile))
      | Inr data \<Rightarrow>
          (case unmarshal data of
             Inl e \<Rightarrow> Some (Inl (check_err content e configFile))
           | Inr cfg \<Rightarrow>
               (case parsed_service pd cfg of
                  None \<Rightarrow> None
                | Some s \<Rightarrow>
                    (case service_init env s of
                       Inl e \<Rightarrow> Some (Inl (check_err content (OtherError (config_error_text e)) configFile))
                     | Inr s' \<Rightarrow> Some (Inr s')))))"

section \<open>Properties\<close>

lemma split_on_more: "c \<in> set s \<Longrightarrow> \<exists>p q ps. split_on c s = p # q # ps"
proof (induction s)
  case (Cons x s)
  show ?case
  proof (cases "x = c")
    case True
    then show ?thesis by (cases "split_on c s") simp_all
  next
    case False
    with Cons obtain p q ps where "split_on c s = p # q # ps" by auto
    with False show ?thesis by simp
  qed
qed simp

lemma row_col_loop_spec:
  "row_col_loop vs (row, col) =
     (row + int (length (filter ((=) (CHR 0x0A)) vs)),
      if CHR 0x0A \<in> set vs then int (length (filter ((\<noteq>) (CHR 0x0D)) (last (split_on (CHR 0x0A) vs))))
      else col + int (length (filter ((\<noteq>) (CHR 0x0D)) vs)))"
proof (induction vs arbitrary: row col)
  case (Cons v vs)
  have single: "CHR 0x0A \<notin> set vs \<Longrightarrow> split_on (CHR 0x0A) vs = [vs]" by (simp add: split_on_no_sep)
  show ?case
  proof (cases "CHR 0x0A \<in> set vs")
    case True
    then obtain p q ps where s: "split_on (CHR 0x0A) vs = p # q # ps"
      by (metis split_on_more)
    with True Cons show ?thesis by auto
  next
    case False
    with Cons single show ?thesis by auto
  qed
qed simp

text \<open>The position reported for an error: the number of line breaks before the offset, and the number
  of characters, carriage returns not counted, between the last of them and the offset.\<close>

theorem error_position_correct:
  "get_error_row_col source offset =
     (let before = take (nat (if int (length source) < offset then int (length source) - 1 else offset)) source
      in (int (length (filter ((=) (CHR 0x0A)) before)),
          int (length (filter ((\<noteq>) (CHR 0x0D)) (last (split_on (CHR 0x0A) before))))))"
  by (simp add: get_error_row_col_def Let_def row_col_loop_spec split_on_no_sep)

lemma each_None: "each f xs = None \<longleftrightarrow> None \<in> set xs \<or> (\<exists>x. Some x \<in> set xs \<and> f x = None)"
  by (induction f xs rule: each.induct) (auto split: option.splits)

lemma each_Some: "each f xs = Some ys \<Longrightarrow> length ys = length xs"
  by (induction f xs arbitrary: ys rule: each.induct) (auto split: option.splits)

text \<open>The places of a parsed file where a pointer may be nil.\<close>

definition has_null :: "parseable_service_config \<Rightarrow> bool" where
  "has_null p \<longleftrightarrow>
     None \<in> set (ps_Endpoints p) \<or> None \<in> set (ps_AsyncAgents p) \<or>
     (\<exists>e. Some e \<in> set (ps_Endpoints p) \<and> None \<in> set (pe_Backend e)) \<or>
     (\<exists>a. Some a \<in> set (ps_AsyncAgents p) \<and> None \<in> set (pa_Backend a))"

lemma parsed_service_None: "parsed_service pd p = None \<longleftrightarrow> has_null p"
proof -
  have b: "parsed_backends bs = None \<longleftrightarrow> None \<in> set bs" for bs
    by (simp add: parsed_backends_def each_None)
  have e: "parsed_endpoint pd e = None \<longleftrightarrow> None \<in> set (pe_Backend e)" for e
    by (simp add: parsed_endpoint_def Let_def b [symmetric] split: option.split)
  have a: "parsed_agent pd a = None \<longleftrightarrow> None \<in> set (pa_Backend a)" for a
    by (simp add: parsed_agent_def b [symmetric] split: option.split)
  have "parsed_service pd p = None \<longleftrightarrow>
      each (parsed_endpoint pd) (ps_Endpoints p) = None \<or> each (parsed_agent pd) (ps_AsyncAgents p) = None"
    by (auto simp: parsed_service_def Let_def split: option.splits)
  then show ?thesis unfolding each_None e a has_null_def by blast
qed

text \<open>C37. The parser returns a configuration or an error for every file, except that it panics exactly on
  well-formed JSON with a \<open>null\<close> in place of an endpoint, an agent or a backend.\<close>

theorem parser_panics_on_null:
  "parser_parse env pd fileReader unmarshal content configFile = None \<longleftrightarrow>
     (\<exists>data p. fileReader configFile = Inr data \<and> unmarshal data = Inr p \<and> has_null p)"
  by (auto simp: parser_parse_def parsed_service_None [of pd, symmetric] split: sum.splits option.splits)

end
