(* ===== verification/Balancer.thy ===== *)
theory Balancer
  imports ConfigTypes
begin

text \<open>
  Service discovery and load balancing: subscribers (\<open>src/sd/subscriber.go\<close>) and balancers
  (\<open>src/sd/loadbalancing.go\<close>). A subscriber that is not a \<open>FixedSubscriber\<close> reads the world it
  is called in. The random source \<open>fastrand.Uint32n\<close> is third-party code, a function \<open>rnd\<close> that
  returns a number below its argument. The round-robin counter is a \<open>uint64\<close> that wraps; an
  atomic increment makes concurrent calls a sequence of calls.
\<close>

section \<open>Subscribers\<close>

datatype 'w subscriber = Fixed "string list" | Dynamic "'w \<Rightarrow> goerror + string list"

fun subscriber_hosts :: "'w \<Rightarrow> 'w subscriber \<Rightarrow> goerror + string list" where
  "subscriber_hosts w (Fixed hs) = Inr hs"
| "subscriber_hosts w (Dynamic f) = f w"

definition fixed_subscriber_factory :: "backend \<Rightarrow> 'w subscriber" where
  "fixed_subscriber_factory cfg = Fixed (b_Host cfg)"

text \<open>\<open>NewRandomFixedSubscriber\<close>; \<open>perm n\<close> is \<open>rand.Perm(n)\<close>, a permutation of the numbers below \<open>n\<close>.\<close>

definition random_fixed_subscriber :: "(nat \<Rightarrow> nat list) \<Rightarrow> string list \<Rightarrow> string list" where
  "random_fixed_subscriber perm hosts = map (\<lambda>i. hosts ! i) (perm (length hosts))"

lemma random_fixed_subscriber_mset:
  assumes "mset (perm (length hosts)) = mset [0..<length hosts]"
  shows "mset (random_fixed_subscriber perm hosts) = mset hosts"
proof -
  have "mset (random_fixed_subscriber perm hosts) = image_mset ((!) hosts) (mset (perm (length hosts)))"
    by (simp add: random_fixed_subscriber_def)
  also have "\<dots> = mset (map ((!) hosts) [0..<length hosts])" by (simp add: assms)
  finally show ?thesis by (simp add: map_nth)
qed

section \<open>Balancers\<close>

datatype 'w balancer =
    NopBalancer string
  | RoundRobinLB "'w subscriber" "64 word"
  | RandomLB "'w subscriber"

text \<open>\<open>balancer.hosts\<close>.\<close>

definition balancer_hosts :: "'w \<Rightarrow> 'w subscriber \<Rightarrow> goerror + string list" where
  "balancer_hosts w s =
     (case subscriber_hosts w s of
        Inl e \<Rightarrow> Inl e
      | Inr hs \<Rightarrow> if hs = [] then Inl ErrNoHosts else Inr hs)"

text \<open>\<open>Host\<close> of the three balancers: the host or the error, and the balancer afterwards.\<close>

fun balancer_host :: "(nat \<Rightarrow> nat) \<Rightarrow> 'w \<Rightarrow> 'w balancer \<Rightarrow> (goerror + string) \<times> 'w balancer" where
  "balancer_host rnd w (NopBalancer h) = (Inr h, NopBalancer h)"
| "balancer_host rnd w (RoundRobinLB s c) =
     (case balancer_hosts w s of
        Inl e \<Rightarrow> (Inl e, RoundRobinLB s c)
      | Inr hs \<Rightarrow> (Inr (hs ! (unat c mod length hs)), RoundRobinLB s (c + 1)))"
| "balancer_host rnd w (RandomLB s) =
     (case balancer_hosts w s of
        Inl e \<Rightarrow> (Inl e, RandomLB s)
      | Inr hs \<Rightarrow> (Inr (hs ! rnd (length hs)), RandomLB s))"

definition new_round_robin_lb :: "(nat \<Rightarrow> nat) \<Rightarrow> 'w subscriber \<Rightarrow> 'w balancer" where
  "new_round_robin_lb rnd s =
     (case s of
        Fixed hs \<Rightarrow>
          (if length hs = 1 then NopBalancer (hs ! 0)
           else if length hs > 1 then RoundRobinLB s (of_nat (rnd (length hs)))
           else RoundRobinLB s 0)
      | Dynamic f \<Rightarrow> RoundRobinLB s 0)"

definition new_random_lb :: "'w subscriber \<Rightarrow> 'w balancer" where
  "new_random_lb s =
     (case s of
        Fixed hs \<Rightarrow> (if length hs = 1 then NopBalancer (hs ! 0) else RandomLB s)
      | Dynamic f \<Rightarrow> RandomLB s)"

text \<open>\<open>NewBalancer\<close>; \<open>procs\<close> is \<open>runtime.GOMAXPROCS(-1)\<close>.\<close>

definition new_balancer :: "nat \<Rightarrow> (nat \<Rightarrow> nat) \<Rightarrow> 'w subscriber \<Rightarrow> 'w balancer" where
  "new_balancer procs rnd s = (if procs = 1 then new_round_robin_lb rnd s else new_random_lb s)"

section \<open>The interface of a balancer\<close>

text \<open>
  What the load-balancing middleware relies on: \<open>view w b\<close> is the host list the balancer's
  subscriber offers in world \<open>w\<close>; a host that is returned is one of them, and an error is the
  subscriber's or says that there are no hosts.
\<close>

locale host_picker =
  fixes pick :: "'w \<Rightarrow> 'b \<Rightarrow> (goerror + string) \<times> 'b"
    and view :: "'w \<Rightarrow> 'b \<Rightarrow> goerror + string list"
  assumes pick_host: "pick w b = (Inr h, b') \<Longrightarrow> \<exists>hs. view w b = Inr hs \<and> h \<in> set hs"
    and pick_error: "pick w b = (Inl e, b') \<Longrightarrow> view w b = Inl e \<or> view w b = Inr [] \<and> e = ErrNoHosts"
    and pick_view: "pick w b = (r, b') \<Longrightarrow> view w' b' = view w' b"
begin

lemma pick_succeeds:
  assumes "view w b = Inr hs" and "hs \<noteq> []"
  shows "\<exists>h b'. pick w b = (Inr h, b') \<and> h \<in> set hs"
proof -
  obtain r b' where p: "pick w b = (r, b')" by fastforce
  show ?thesis
  proof (cases r)
    case (Inl e)
    with p assms show ?thesis by (auto dest: pick_error)
  next
    case (Inr h)
    with p assms show ?thesis by (fastforce dest: pick_host)
  qed
qed

text \<open>A run of calls, one per element of the list of worlds.\<close>

fun picks :: "'w list \<Rightarrow> 'b \<Rightarrow> (goerror + string) list" where
  "picks [] b = []"
| "picks (w # ws) b = (case pick w b of (r, b') \<Rightarrow> r # picks ws b')"

lemma picks_in_view:
  "Inr h \<in> set (picks ws b) \<Longrightarrow> \<exists>w \<in> set ws. \<exists>hs. view w b = Inr hs \<and> h \<in> set hs"
proof (induction ws arbitrary: b)
  case (Cons w ws)
  obtain r b' where p: "pick w b = (r, b')" by fastforce
  show ?case
  proof (cases "r = Inr h")
    case True
    with p show ?thesis by (auto dest: pick_host)
  next
    case False
    with Cons.prems p have "Inr h \<in> set (picks ws b')" by simp
    from Cons.IH [OF this] pick_view [OF p] show ?thesis by auto
  qed
qed simp

end

definition balancer_view :: "'w \<Rightarrow> 'w balancer \<Rightarrow> goerror + string list" where
  "balancer_view w b =
     (case b of NopBalancer h \<Rightarrow> Inr [h] | RoundRobinLB s c \<Rightarrow> subscriber_hosts w s
      | RandomLB s \<Rightarrow> subscriber_hosts w s)"

text \<open>The random source, cut down to its documented range.\<close>

definition below :: "(nat \<Rightarrow> nat) \<Rightarrow> nat \<Rightarrow> nat" where
  "below rnd n = rnd n mod n"

lemma below_less [simp]: "n \<noteq> 0 \<Longrightarrow> below rnd n < n"
  by (simp add: below_def)

lemma below_id: "rnd n < n \<Longrightarrow> below rnd n = rnd n"
  by (simp add: below_def)

lemma balancer_hosts_Inr:
  "balancer_hosts w s = Inr hs \<longleftrightarrow> subscriber_hosts w s = Inr hs \<and> hs \<noteq> []"
  by (auto simp: balancer_hosts_def split: sum.splits)

lemma balancer_hosts_Inl:
  "balancer_hosts w s = Inl e \<longleftrightarrow>
     subscriber_hosts w s = Inl e \<or> subscriber_hosts w s = Inr [] \<and> e = ErrNoHosts"
  by (auto simp: balancer_hosts_def split: sum.splits)

interpretation lb: host_picker "balancer_host (below rnd)" balancer_view for rnd
proof unfold_locales
  fix w :: 'a and b b' h
  assume "balancer_host (below rnd) w b = (Inr h, b')"
  then show "\<exists>hs. balancer_view w b = Inr hs \<and> h \<in> set hs"
    by (cases b) (auto simp: balancer_view_def balancer_hosts_Inr split: sum.splits)
next
  fix w :: 'a and b b' e
  assume "balancer_host (below rnd) w b = (Inl e, b')"
  then show "balancer_view w b = Inl e \<or> balancer_view w b = Inr [] \<and> e = ErrNoHosts"
    by (cases b) (auto simp: balancer_view_def balancer_hosts_Inl split: sum.splits)
next
  fix w w' :: 'a and b b' r
  assume "balancer_host (below rnd) w b = (r, b')"
  then show "balancer_view w' b' = balancer_view w' b"
    by (cases b) (auto simp: balancer_view_def split: sum.splits)
qed

section \<open>Round robin is fair\<close>

text \<open>The hosts a round-robin balancer over a fixed host list returns in \<open>n\<close> calls.\<close>

fun rr_run :: "string list \<Rightarrow> 64 word \<Rightarrow> nat \<Rightarrow> (goerror + string) list" where
  "rr_run hs c 0 = []"
| "rr_run hs c (Suc n) =
     (case balancer_host (\<lambda>_. 0) () (RoundRobinLB (Fixed hs) c) of
        (r, RoundRobinLB (Fixed hs') c') \<Rightarrow> r # rr_run hs' c' n
      | (r, _) \<Rightarrow> [r])"

lemma rr_run_nth:
  assumes "hs \<noteq> []" and "unat c + n \<le> 2 ^ 64"
  shows "rr_run hs c n = map (\<lambda>i. Inr (hs ! ((unat c + i) mod length hs))) [0..<n]"
  using assms(2)
proof (induction n arbitrary: c)
  case (Suc n)
  have step: "rr_run hs c (Suc n) = Inr (hs ! (unat c mod length hs)) # rr_run hs (c + 1) n"
    using assms(1) by (simp add: balancer_hosts_def)
  show ?case
  proof (cases "n = 0")
    case True
    with step show ?thesis by simp
  next
    case False
    with Suc.prems have "unat (c + 1) = Suc (unat c)"
      by (simp add: unat_word_ariths)
    with Suc have "rr_run hs (c + 1) n = map (\<lambda>i. Inr (hs ! ((Suc (unat c) + i) mod length hs))) [0..<n]"
      by simp
    with step show ?thesis by (simp add: upt_conv_Cons map_Suc_upt [symmetric] del: upt_Suc)
  qed
qed simp

lemma mod_shift_inj:
  fixes n :: nat
  assumes "i < n" and "j < n" and "(s + i) mod n = (s + j) mod n"
  shows "i = j"
proof -
  have le: "a = b" if "a \<le> b" "b < n" "(s + b) mod n = (s + a) mod n" for a b
  proof -
    from that have "n dvd (s + b) - (s + a)" by (subst (asm) mod_eq_dvd_iff_nat) auto
    with that show ?thesis by (auto dest: dvd_imp_le)
  qed
  show ?thesis
    using assms le [of i j] le [of j i] by (cases i j rule: linorder_cases) auto
qed

lemma mset_rotation:
  fixes n :: nat
  assumes "n \<noteq> 0"
  shows "image_mset (\<lambda>i. (s + i) mod n) (mset [0..<n]) = mset [0..<n]"
proof -
  have inj: "inj_on (\<lambda>i. (s + i) mod n) {0..<n}"
    by (rule inj_onI) (auto intro: mod_shift_inj)
  have "(\<lambda>i. (s + i) mod n) ` {0..<n} = {0..<n}"
    by (rule card_subset_eq) (use assms inj card_image [OF inj] in auto)
  with inj show ?thesis
    by (simp add: image_mset_mset_set mset_upt)
qed

lemma rotation_hosts:
  assumes "hs \<noteq> []"
  shows "mset (map (\<lambda>i. hs ! ((s + i) mod length hs)) [0..<length hs]) = mset hs"
proof -
  have "mset (map (\<lambda>i. hs ! ((s + i) mod length hs)) [0..<length hs]) =
      image_mset ((!) hs) (image_mset (\<lambda>i. (s + i) mod length hs) (mset [0..<length hs]))"
    by (simp add: image_mset.compositionality comp_def)
  also have "\<dots> = image_mset ((!) hs) (mset [0..<length hs])"
    using assms by (subst mset_rotation) auto
  also have "\<dots> = mset (map ((!) hs) [0..<length hs])" by (rule mset_map [symmetric])
  finally show ?thesis by (simp only: map_nth)
qed

lemma image_mset_repeat: "image_mset f (repeat_mset k A) = repeat_mset k (image_mset f A)"
  by (induction k) simp_all

lemma rotation_blocks:
  assumes "hs \<noteq> []"
  shows "mset (map (\<lambda>i. hs ! ((s + i) mod length hs)) [0..<k * length hs]) = repeat_mset k (mset hs)"
proof (induction k)
  case (Suc k)
  have "[0..<Suc k * length hs] = [0..<k * length hs] @ map (\<lambda>i. i + k * length hs) [0..<length hs]"
    using upt_add_eq_append [of 0 "k * length hs" "length hs"] by (simp add: map_add_upt add.commute)
  then have "map (\<lambda>i. hs ! ((s + i) mod length hs)) [0..<Suc k * length hs] =
      map (\<lambda>i. hs ! ((s + i) mod length hs)) [0..<k * length hs] @
      map (\<lambda>i. hs ! ((s + i) mod length hs)) [0..<length hs]"
    by (simp add: comp_def add.assoc [symmetric])
  then show ?case using Suc rotation_hosts [OF assms, of s] by (simp add: union_commute)
qed simp

text \<open>C31. Round robin is fair: any run of \<open>k * n\<close> consecutive calls on \<open>n\<close> fixed hosts returns every
  entry of the host list exactly \<open>k\<close> times, from whatever position the counter starts, as long as
  the 64-bit counter does not wrap during the run.\<close>

theorem round_robin_fair:
  assumes "hs \<noteq> []" and "unat c + k * length hs \<le> 2 ^ 64"
  shows "mset (rr_run hs c (k * length hs)) = repeat_mset k (image_mset Inr (mset hs))"
proof -
  have "mset (rr_run hs c (k * length hs)) =
      image_mset Inr (mset (map (\<lambda>i. hs ! ((unat c + i) mod length hs)) [0..<k * length hs]))"
    by (simp add: rr_run_nth [OF assms] image_mset.compositionality comp_def)
  then show ?thesis by (simp only: rotation_blocks [OF assms(1)] image_mset_repeat)
qed

theorem round_robin_fair_witness:
  "mset (rr_run [''a'', ''b''] 7 4) = repeat_mset 2 (image_mset Inr (mset [''a'', ''b'']))"
  using round_robin_fair [of "[''a'', ''b'']" 7 2] by simp

section \<open>Every balancer\<close>

text \<open>Whatever the balancer and the random source, a call succeeds exactly when the subscriber has a
  non-empty host list, and then it returns one of the listed hosts; otherwise the error is the
  subscriber's own or \<open>ErrNoHosts\<close>. The balancer keeps its subscriber.\<close>

theorem balancer_host_correct:
  "case balancer_host (below rnd) w b of
     (Inr h, b') \<Rightarrow>
       (case balancer_view w b of Inl e \<Rightarrow> False | Inr hs \<Rightarrow> h \<in> set hs) \<and> balancer_view w' b' = balancer_view w' b
   | (Inl e, b') \<Rightarrow>
       balancer_view w b = Inl e \<or> balancer_view w b = Inr [] \<and> e = ErrNoHosts"
proof -
  obtain r b' where p: "balancer_host (below rnd) w b = (r, b')" by fastforce
  show ?thesis
  proof (cases r)
    case (Inl e)
    with p lb.pick_error show ?thesis by fastforce
  next
    case (Inr h)
    with p have "balancer_host (below rnd) w b = (Inr h, b')" by simp
    from lb.pick_host [OF this] lb.pick_view [OF this, of w'] Inr p show ?thesis by auto
  qed
qed

lemma new_balancer_view:
  "balancer_view w (new_balancer procs rnd s) = subscriber_hosts w s"
  by (auto simp: new_balancer_def new_round_robin_lb_def new_random_lb_def balancer_view_def length_Suc_conv
      split: subscriber.splits)

end
