(* ===== verification/PropertyFilters.thy ===== *)
theory PropertyFilters
  imports Values
begin

text \<open>
  The response filters of \<open>src/proxy/formatter.go\<close>: the deny filter (\<open>buildDenyTree\<close>,
  \<open>recDelete\<close>, \<open>newDenylistingFilter\<close>) and the allow filter (\<open>buildDictPath\<close>,
  \<open>AllowlistPrune\<close>, \<open>newAllowlistingFilter\<close>). A filter works in place on the response's map;
  its model takes the map and returns it. A type assertion that fails is a panic in the code and
  \<open>None\<close> here. Both filters are specified by the paths whose values they keep, and both are
  interpretations of one interface, \<open>property_filter\<close>.
\<close>

section \<open>Deny filter\<close>

text \<open>\<open>buildDenyTree\<close>: a \<open>VNil\<close> leaf deletes everything below it.\<close>

fun build_deny_tree :: "string list \<Rightarrow> gobj \<Rightarrow> gobj" where
  "build_deny_tree [] tree = tree"
| "build_deny_tree [n] tree = AList.update n VNil tree"
| "build_deny_tree (n # m # path) tree =
     (case map_of tree n of
        Some VNil \<Rightarrow> tree
      | Some (VMap child) \<Rightarrow> AList.update n (VMap (build_deny_tree (m # path) child)) tree
      | Some _ \<Rightarrow> AList.update n VNil tree
      | None \<Rightarrow> AList.update n (VMap (build_deny_tree (m # path) [])) tree)"

text \<open>\<open>recDelete\<close>: \<open>None\<close> is the panic of \<open>rv.(map[string]interface{})\<close>.\<close>

function rec_delete :: "gobj \<Rightarrow> gval \<Rightarrow> gval option" where
  "rec_delete [] v = Some v"
| "rec_delete ((rk, rv) # ref) v =
     (case v of
        VMap m \<Rightarrow>
          (case map_of m rk of
             None \<Rightarrow> rec_delete ref (VMap m)
           | Some dv \<Rightarrow>
               (case rv of
                  VNil \<Rightarrow> rec_delete ref (VMap (AList.delete rk m))
                | VMap sub \<Rightarrow>
                    (case rec_delete sub dv of
                       None \<Rightarrow> None
                     | Some dv' \<Rightarrow> rec_delete ref (VMap (AList.update rk dv' m)))
                | _ \<Rightarrow> None))
      | _ \<Rightarrow> Some v)"
  by pat_completeness auto
termination
  by (relation "measure (\<lambda>(ref, v). obj_size ref)") auto

definition deny_tree :: "string list \<Rightarrow> gobj" where
  "deny_tree denylist = fold (\<lambda>key. build_deny_tree (split_on CHR ''.'' key)) denylist []"

text \<open>\<open>newDenylistingFilter\<close>: the function it returns, on the entity's data.\<close>

definition denylisting_filter :: "string list \<Rightarrow> gobj \<Rightarrow> gobj option" where
  "denylisting_filter denylist m =
     (case rec_delete (deny_tree denylist) (VMap m) of Some (VMap m') \<Rightarrow> Some m' | _ \<Rightarrow> None)"

section \<open>Allow filter\<close>

text \<open>
  \<open>buildDictPath\<close> returns a pointer into the tree; \<open>f\<close> is what the caller does with the map it
  points to.
\<close>

fun build_dict_path :: "gobj \<Rightarrow> string list \<Rightarrow> (gobj \<Rightarrow> gobj) \<Rightarrow> gobj" where
  "build_dict_path p [] f = f p"
| "build_dict_path p (k # ks) f =
     (case map_of p k of
        Some (VMap c) \<Rightarrow> AList.update k (VMap (build_dict_path c ks f)) p
      | _ \<Rightarrow> AList.update k (VMap (build_dict_path [] ks f)) p)"

definition allow_add :: "gobj \<Rightarrow> string list \<Rightarrow> gobj" where
  "allow_add wl fields =
     build_dict_path wl (butlast fields) (AList.update (last fields) (VBool True))"

definition allow_tree :: "string list \<Rightarrow> gobj" where
  "allow_tree allowlist = fold (\<lambda>k wl. allow_add wl (split_on CHR ''.'' k)) allowlist []"

text \<open>
  \<open>AllowlistPrune\<close>: whether the map can be deleted, and the map after the deletions.
\<close>

function allowlist_prune :: "gobj \<Rightarrow> gobj \<Rightarrow> bool \<times> gobj" where
  "allowlist_prune wl [] = (True, [])"
| "allowlist_prune wl ((k, v) # d) =
     (case allowlist_prune wl d of
        (can_delete, d') \<Rightarrow>
          (case map_of wl k of
             None \<Rightarrow> (can_delete, d')
           | Some sub_wl \<Rightarrow>
               (case sub_wl of
                  VMap sub \<Rightarrow>
                    (case v of
                       VMap m \<Rightarrow>
                         (case allowlist_prune sub m of
                            (del, m') \<Rightarrow>
                              if del then (can_delete, d') else (False, (k, VMap m') # d'))
                     | _ \<Rightarrow> (can_delete, d'))
                | _ \<Rightarrow> (False, (k, v) # d'))))"
  by pat_completeness auto
termination
  by (relation "measure (\<lambda>(wl, d). obj_size d)") auto

text \<open>\<open>newAllowlistingFilter\<close>: the function it returns, on the entity's data.\<close>

definition allowlisting_filter :: "string list \<Rightarrow> gobj \<Rightarrow> gobj" where
  "allowlisting_filter allowlist m =
     (let (del, m') = allowlist_prune (allow_tree allowlist) m in if del then [] else m')"

section \<open>What the deny filter keeps\<close>

text \<open>\<open>denied t p\<close>: some prefix of \<open>p\<close> ends in a leaf of the deny tree \<open>t\<close>.\<close>

fun denied :: "gobj \<Rightarrow> string list \<Rightarrow> bool" where
  "denied t [] = False"
| "denied t (k # ks) =
     (case map_of t k of
        Some VNil \<Rightarrow> True
      | Some (VMap s) \<Rightarrow> denied s ks
      | _ \<Rightarrow> False)"

lemma denied_empty [simp]: "\<not> denied [] q"
  by (cases q) auto

text \<open>The shape \<open>buildDenyTree\<close> maintains: leaves are nil, inner nodes maps with distinct keys.\<close>

fun deny_ok :: "gval \<Rightarrow> bool" where
  "deny_ok VNil = True"
| "deny_ok (VMap m) = (distinct (map fst m) \<and> (\<forall>kv \<in> set m. deny_ok (snd kv)))"
| "deny_ok _ = False"

lemma deny_ok_lookup: "deny_ok (VMap t) \<Longrightarrow> map_of t k = Some v \<Longrightarrow> deny_ok v"
  by (auto dest: map_of_SomeD)

lemma deny_ok_cases:
  assumes "deny_ok v"
  obtains "v = VNil" | m where "v = VMap m"
  using assms by (cases v) auto

lemma deny_ok_update: "deny_ok (VMap t) \<Longrightarrow> deny_ok v \<Longrightarrow> deny_ok (VMap (AList.update k v t))"
  using set_update_subset[of k v t] by (fastforce simp: distinct_update)

lemma build_deny_tree_ok: "deny_ok (VMap t) \<Longrightarrow> deny_ok (VMap (build_deny_tree p t))"
proof (induction p t rule: build_deny_tree.induct)
  case (3 n m path tree)
  then show ?case
    by (auto simp del: deny_ok.simps(2) split: option.splits gval.splits
        intro!: deny_ok_update dest: deny_ok_lookup) simp_all
qed (auto intro: deny_ok_update simp del: deny_ok.simps(2))

lemma denied_build:
  assumes "deny_ok (VMap t)" and "p \<noteq> []"
  shows "denied (build_deny_tree p t) q \<longleftrightarrow> denied t q \<or> prefix p q"
  using assms
proof (induction p t arbitrary: q rule: build_deny_tree.induct)
  case (2 n tree)
  then show ?case by (cases q) (auto simp: gomap_simps split: option.splits gval.splits)
next
  case (3 n m path tree)
  note IH = "3.IH"
  show ?case
  proof (cases "map_of tree n")
    case None
    have "denied (build_deny_tree (m # path) []) ks \<longleftrightarrow> prefix (m # path) ks" for ks
      using "3.IH"(1) [OF None] by simp
    with None show ?thesis by (cases q) (auto simp: gomap_simps)
  next
    case (Some v)
    with "3.prems" have "deny_ok v" by (auto dest: deny_ok_lookup)
    then show ?thesis
    proof (cases rule: deny_ok_cases)
      case 1
      with Some show ?thesis by (cases q) auto
    next
      case (2 c)
      with \<open>deny_ok v\<close> have "denied (build_deny_tree (m # path) c) ks \<longleftrightarrow> denied c ks \<or> prefix (m # path) ks" for ks
        using "3.IH"(2) Some 2 by simp
      with Some 2 show ?thesis by (cases q) (auto simp: gomap_simps)
    qed
  qed
qed simp

lemma deny_tree_fold:
  assumes "deny_ok (VMap t)"
  shows "deny_ok (VMap (fold (\<lambda>key. build_deny_tree (split_on CHR ''.'' key)) ks t))"
    and "denied (fold (\<lambda>key. build_deny_tree (split_on CHR ''.'' key)) ks t) q \<longleftrightarrow>
      denied t q \<or> (\<exists>k \<in> set ks. prefix (split_on CHR ''.'' k) q)"
  using assms
  by (induction ks arbitrary: t)
     (auto simp: denied_build build_deny_tree_ok simp del: deny_ok.simps(2) build_deny_tree.simps)

lemma deny_tree_ok: "deny_ok (VMap (deny_tree ks))"
  using deny_tree_fold(1)[of "[]"] by (simp add: deny_tree_def)

lemma denied_deny_tree: "denied (deny_tree ks) q \<longleftrightarrow> (\<exists>k \<in> set ks. prefix (split_on CHR ''.'' k) q)"
  using deny_tree_fold(2)[of "[]"] by (simp add: deny_tree_def)

lemma rec_delete_no_panic: "deny_ok (VMap ref) \<Longrightarrow> rec_delete ref v \<noteq> None"
proof (induction ref v rule: rec_delete.induct)
  case (2 rk rv ref v)
  from "2.prems" have ok: "deny_ok rv" "deny_ok (VMap ref)" by auto
  show ?case
  proof (cases "\<exists>m dv. v = VMap m \<and> map_of m rk = Some dv")
    case True
    then obtain m dv where m: "v = VMap m" "map_of m rk = Some dv" by blast
    from ok(1) show ?thesis
    proof (cases rule: deny_ok_cases)
      case 1
      with "2.IH"(2) [OF m] ok m show ?thesis by simp
    next
      case (2 sub)
      with "2.IH"(3,4) [OF m] ok m show ?thesis by (auto split: option.split)
    qed
  next
    case False
    with "2.IH"(1) ok show ?thesis by (auto split: gval.split option.split)
  qed
qed auto

text \<open>Induction over a run of \<open>recDelete\<close> that does not panic: one case per branch.\<close>

lemma rec_delete_induct [consumes 1, case_names Nil NotMap Absent Leaf Node]:
  assumes "rec_delete ref v = Some v'"
    and "\<And>v. P [] v v"
    and "\<And>kv ref v. \<not> is_map v \<Longrightarrow> P (kv # ref) v v"
    and "\<And>rk rv ref m v'. map_of m rk = None \<Longrightarrow> P ref (VMap m) v' \<Longrightarrow>
      P ((rk, rv) # ref) (VMap m) v'"
    and "\<And>rk ref m dv v'. map_of m rk = Some dv \<Longrightarrow> P ref (VMap (AList.delete rk m)) v' \<Longrightarrow>
      P ((rk, VNil) # ref) (VMap m) v'"
    and "\<And>rk sub ref m dv dv' v'. map_of m rk = Some dv \<Longrightarrow> P sub dv dv' \<Longrightarrow>
      P ref (VMap (AList.update rk dv' m)) v' \<Longrightarrow> P ((rk, VMap sub) # ref) (VMap m) v'"
  shows "P ref v v'"
  using assms(1)
proof (induction ref v arbitrary: v' rule: rec_delete.induct)
  case (1 v)
  with assms(2) show ?case by simp
next
  case (2 rk rv ref v)
  show ?case
  proof (cases "is_map v")
    case False
    then have "v' = v" using "2.prems" by (cases v) auto
    with False assms(3) show ?thesis by simp
  next
    case True
    then obtain m where v: "v = VMap m" by (auto simp: is_map_iff)
    show ?thesis
    proof (cases "map_of m rk")
      case None
      with v "2.prems" have "rec_delete ref (VMap m) = Some v'" by simp
      with None show ?thesis unfolding v by (intro assms(4) "2.IH"(1) [OF v])
    next
      case (Some dv)
      show ?thesis
      proof (cases rv)
        case VNil
        with Some v "2.prems" have "rec_delete ref (VMap (AList.delete rk m)) = Some v'" by simp
        then show ?thesis unfolding v VNil by (intro assms(5) [OF Some] "2.IH"(2) [OF v Some VNil])
      next
        case (VMap sub)
        with Some v "2.prems" obtain dv' where dv': "rec_delete sub dv = Some dv'"
          and v': "rec_delete ref (VMap (AList.update rk dv' m)) = Some v'"
          by (auto split: option.splits)
        then show ?thesis unfolding v VMap
          by (intro assms(6) [OF Some] "2.IH"(3) [OF v Some VMap] "2.IH"(4) [OF v Some VMap])
      qed (use Some v "2.prems" in auto)
    qed
  qed
qed

lemma rec_delete_is_map: "rec_delete ref v = Some v' \<Longrightarrow> is_map v' = is_map v"
  by (induction rule: rec_delete_induct) auto

lemma rec_delete_spec:
  assumes "rec_delete ref v = Some v'" and "deny_ok (VMap ref)" and "\<not> is_map x"
  shows "vget v' p = Some x \<longleftrightarrow> vget v p = Some x \<and> \<not> denied ref p"
  using assms
proof (induction arbitrary: p rule: rec_delete_induct)
  case (Nil v)
  then show ?case by simp
next
  case (NotMap kv ref v)
  then show ?case by (auto simp: vget_simps)
next
  case (Absent rk rv ref m v')
  then have "map_of ref rk = None"
    and "vget v' p = Some x \<longleftrightarrow> vget (VMap m) p = Some x \<and> \<not> denied ref p"
    by (simp_all add: map_of_eq_None_iff)
  with Absent(1) show ?case by (cases p) auto
next
  case (Leaf rk ref m dv v')
  then have "map_of ref rk = None"
    and "vget v' p = Some x \<longleftrightarrow>
      vget (VMap (AList.delete rk m)) p = Some x \<and> \<not> denied ref p"
    by (simp_all add: map_of_eq_None_iff)
  with \<open>\<not> is_map x\<close> show ?case by (cases p) (auto simp: gomap_simps)
next
  case (Node rk sub ref m dv dv' v')
  then have "map_of ref rk = None"
    and "vget v' p = Some x \<longleftrightarrow>
      vget (VMap (AList.update rk dv' m)) p = Some x \<and> \<not> denied ref p"
    and "\<And>q. vget dv' q = Some x \<longleftrightarrow> vget dv q = Some x \<and> \<not> denied sub q"
    by (simp_all add: map_of_eq_None_iff)
  with Node(1) \<open>\<not> is_map x\<close> show ?case by (cases p) (auto simp: gomap_simps)
qed

lemma rec_delete_gval_ok: "rec_delete ref v = Some v' \<Longrightarrow> gval_ok v \<Longrightarrow> gval_ok v'"
  by (induction rule: rec_delete_induct)
     (auto intro: gval_ok_update gval_ok_delete dest: gval_ok_lookup)

lemma denylisting_filter_Some: "\<exists>m'. denylisting_filter ks m = Some m' \<and> rec_delete (deny_tree ks) (VMap m) = Some (VMap m')"
proof -
  obtain v where v: "rec_delete (deny_tree ks) (VMap m) = Some v"
    using rec_delete_no_panic [OF deny_tree_ok] by blast
  then obtain m' where "v = VMap m'"
    using rec_delete_is_map [OF v] by (auto simp: is_map_iff)
  with v show ?thesis by (simp add: denylisting_filter_def)
qed

section \<open>What the allow filter keeps\<close>

text \<open>
  \<open>allow_leaf t p\<close>: the allow tree \<open>t\<close> has a leaf exactly at \<open>p\<close>. \<open>allowed t p\<close>: some prefix of
  \<open>p\<close> is such a leaf.
\<close>

fun allow_leaf :: "gobj \<Rightarrow> string list \<Rightarrow> bool" where
  "allow_leaf t [] = False"
| "allow_leaf t (k # ks) =
     (case map_of t k of
        None \<Rightarrow> False
      | Some v \<Rightarrow> (case v of VMap s \<Rightarrow> allow_leaf s ks | _ \<Rightarrow> ks = []))"

fun allowed :: "gobj \<Rightarrow> string list \<Rightarrow> bool" where
  "allowed t [] = False"
| "allowed t (k # ks) =
     (case map_of t k of
        None \<Rightarrow> False
      | Some v \<Rightarrow> (case v of VMap s \<Rightarrow> allowed s ks | _ \<Rightarrow> True))"

text \<open>
  The entries of an allow list that count: an entry is overwritten by every later entry it is a
  prefix of or that is a prefix of it.
\<close>

definition path_related :: "string list \<Rightarrow> string list \<Rightarrow> bool" where
  "path_related p q \<longleftrightarrow> prefix p q \<or> prefix q p"

fun allow_effective :: "string list list \<Rightarrow> string list list" where
  "allow_effective [] = []"
| "allow_effective (p # ps) =
     (if \<exists>q \<in> set ps. path_related p q then allow_effective ps else p # allow_effective ps)"

lemma allow_leaf_empty [simp]: "\<not> allow_leaf [] q"
  by (cases q) auto

lemma allowed_iff_leaf: "allowed t q \<longleftrightarrow> (\<exists>p. allow_leaf t p \<and> prefix p q)"
proof (induction t q rule: allowed.induct)
  case (2 t k ks)
  show ?case
  proof (cases "\<exists>s. map_of t k = Some (VMap s)")
    case True
    then obtain s where s: "map_of t k = Some (VMap s)" by blast
    have "(\<exists>p. allow_leaf t p \<and> prefix p (k # ks)) \<longleftrightarrow> (\<exists>p. allow_leaf s p \<and> prefix p ks)"
      using s by (auto simp: prefix_Cons intro: exI [of _ "k # _"])
    with s "2.IH" show ?thesis by simp
  next
    case False
    then show ?thesis
      by (auto simp: prefix_Cons split: option.splits gval.splits intro: exI [of _ "[k]"])
  qed
qed simp

lemma allow_add_single: "allow_add t [k] = AList.update k (VBool True) t"
  by (simp add: allow_add_def)

lemma allow_add_Cons:
  assumes "p \<noteq> []"
  shows "allow_add t (k # p) =
    AList.update k (VMap (allow_add (case map_of t k of Some (VMap c) \<Rightarrow> c | _ \<Rightarrow> []) p)) t"
  using assms by (auto simp: allow_add_def split: option.split gval.split)

lemma allow_leaf_add:
  "p \<noteq> [] \<Longrightarrow> allow_leaf (allow_add t p) q \<longleftrightarrow> q = p \<or> allow_leaf t q \<and> \<not> path_related p q"
proof (induction p arbitrary: t q)
  case (Cons k p)
  show ?case
  proof (cases "p = []")
    case True
    then show ?thesis
      by (cases q) (auto simp: allow_add_single gomap_simps path_related_def split: option.splits gval.splits)
  next
    case False
    note IH = Cons.IH [OF False]
    show ?thesis
    proof (cases q)
      case Nil
      then show ?thesis by simp
    next
      case (Cons k' ks)
      then show ?thesis using False
        by (auto simp: allow_add_Cons IH gomap_simps path_related_def split: option.splits gval.splits)
    qed
  qed
qed simp

lemma allow_effective_snoc:
  "set (allow_effective (ps @ [p])) = {q \<in> set (allow_effective ps). \<not> path_related p q} \<union> {p}"
proof (induction ps)
  case (Cons a ps)
  have "path_related a p = path_related p a" by (auto simp: path_related_def)
  with Cons show ?case by auto
qed simp

lemma allow_leaf_tree: "allow_leaf (allow_tree ks) q \<longleftrightarrow>
    q \<in> set (allow_effective (map (split_on CHR ''.'') ks))"
proof (induction ks arbitrary: q rule: rev_induct)
  case Nil
  then show ?case by (simp add: allow_tree_def)
next
  case (snoc k ks)
  have "allow_tree (ks @ [k]) = allow_add (allow_tree ks) (split_on CHR ''.'' k)"
    by (simp add: allow_tree_def)
  with snoc show ?case by (auto simp: allow_leaf_add allow_effective_snoc)
qed

lemma allowed_tree: "allowed (allow_tree ks) q \<longleftrightarrow>
    (\<exists>p \<in> set (allow_effective (map (split_on CHR ''.'') ks)). prefix p q)"
  by (auto simp: allowed_iff_leaf allow_leaf_tree)

lemma allow_effective_subset: "set (allow_effective ps) \<subseteq> set ps"
  by (induction ps) auto

lemma allow_effective_unrelated:
  "(\<forall>p \<in> set ps. \<forall>q \<in> set ps. path_related p q \<longrightarrow> p = q) \<Longrightarrow> set (allow_effective ps) = set ps"
proof (induction ps)
  case (Cons p ps)
  then have IH: "set (allow_effective ps) = set ps" by simp
  show ?case
  proof (cases "\<exists>q \<in> set ps. path_related p q")
    case True
    with Cons.prems have "p \<in> set ps" by auto
    with True IH show ?thesis by auto
  qed (use IH in auto)
qed simp

text \<open>Induction over a run of \<open>AllowlistPrune\<close>: one case per branch of its loop body.\<close>

lemma allowlist_prune_induct [consumes 1, case_names Nil Absent NotMap Leaf Node]:
  assumes "allowlist_prune wl d = (b, d')"
    and "\<And>wl. P wl [] True []"
    and "\<And>wl k v d b d'. map_of wl k = None \<Longrightarrow> P wl d b d' \<Longrightarrow> P wl ((k, v) # d) b d'"
    and "\<And>wl k v d b d' sub. map_of wl k = Some (VMap sub) \<Longrightarrow> \<not> is_map v \<Longrightarrow> P wl d b d' \<Longrightarrow>
      P wl ((k, v) # d) b d'"
    and "\<And>wl k v d b d' w. map_of wl k = Some w \<Longrightarrow> \<not> is_map w \<Longrightarrow> P wl d b d' \<Longrightarrow>
      P wl ((k, v) # d) False ((k, v) # d')"
    and "\<And>wl k m d b d' sub del m'. map_of wl k = Some (VMap sub) \<Longrightarrow>
      allowlist_prune sub m = (del, m') \<Longrightarrow> P sub m del m' \<Longrightarrow> P wl d b d' \<Longrightarrow>
      P wl ((k, VMap m) # d) (del \<and> b) (if del then d' else (k, VMap m') # d')"
  shows "P wl d b d'"
  using assms(1)
proof (induction wl d arbitrary: b d' rule: allowlist_prune.induct)
  case (1 wl)
  with assms(2) show ?case by simp
next
  case (2 wl k v d)
  obtain b0 d0 where rest: "allowlist_prune wl d = (b0, d0)" by fastforce
  with "2.IH"(1) have IH: "P wl d b0 d0" by simp
  show ?case
  proof (cases "map_of wl k")
    case None
    with rest "2.prems" IH show ?thesis by (auto intro: assms(3))
  next
    case (Some w)
    show ?thesis
    proof (cases "is_map w")
      case False
      with Some rest "2.prems" have "b = False" "d' = (k, v) # d0"
        by (auto split: gval.splits)
      with Some False IH show ?thesis by (auto intro: assms(5))
    next
      case True
      then obtain sub where w: "w = VMap sub" by (auto simp: is_map_iff)
      show ?thesis
      proof (cases "is_map v")
        case False
        with Some w rest "2.prems" have "b = b0" "d' = d0" by (auto split: gval.splits)
        with Some w False IH show ?thesis by (auto intro: assms(4))
      next
        case True
        then obtain m where v: "v = VMap m" by (auto simp: is_map_iff)
        obtain del m' where sub: "allowlist_prune sub m = (del, m')" by fastforce
        with "2.IH"(2) [OF rest [symmetric] Some w v] have IHs: "P sub m del m'" by simp
        have eqs: "b = (del \<and> b0)" "d' = (if del then d0 else (k, VMap m') # d0)"
          using "2.prems" rest Some w v sub by (auto split: if_splits)
        show ?thesis unfolding v eqs
          by (rule assms(6) [OF Some [unfolded w] sub IHs IH])
      qed
    qed
  qed
qed

lemma allowlist_prune_empty: "allowlist_prune wl d = (b, d') \<Longrightarrow> b \<longleftrightarrow> d' = []"
  by (induction rule: allowlist_prune_induct) auto

lemma allowlist_prune_ok:
  "allowlist_prune wl d = (b, d') \<Longrightarrow> gval_ok (VMap d) \<Longrightarrow>
   gval_ok (VMap d') \<and> fst ` set d' \<subseteq> fst ` set d"
proof (induction rule: allowlist_prune_induct)
  case (Node wl k m d b d' sub del m')
  then show ?case by (cases del) auto
qed auto

lemma allowlist_prune_spec:
  assumes "allowlist_prune wl d = (b, d')" and "gval_ok (VMap d)" and "\<not> is_map x"
  shows "vget (VMap d') p = Some x \<longleftrightarrow> vget (VMap d) p = Some x \<and> allowed wl p"
  using assms
proof (induction arbitrary: p rule: allowlist_prune_induct)
  case (Nil wl)
  then show ?case by (cases p) auto
next
  case (Absent wl k v d b d')
  then have IH: "vget (VMap d') p = Some x \<longleftrightarrow> vget (VMap d) p = Some x \<and> allowed wl p"
    and "map_of d k = None" by (simp_all add: map_of_eq_None_iff)
  with Absent(1) \<open>\<not> is_map x\<close> show ?case by (cases p) auto
next
  case (NotMap wl k v d b d' sub)
  then have IH: "vget (VMap d') p = Some x \<longleftrightarrow> vget (VMap d) p = Some x \<and> allowed wl p"
    and "map_of d k = None" by (simp_all add: map_of_eq_None_iff)
  moreover have "allowed sub ks \<Longrightarrow> ks \<noteq> []" for ks by auto
  ultimately show ?case using NotMap(1,2) \<open>\<not> is_map x\<close>
    by (cases p) (auto simp: vget_simps)
next
  case (Leaf wl k v d b d' w)
  then have IH: "vget (VMap d') p = Some x \<longleftrightarrow> vget (VMap d) p = Some x \<and> allowed wl p"
    by simp
  with Leaf(1,2) \<open>\<not> is_map x\<close> show ?case by (cases p) (auto split: gval.splits)
next
  case (Node wl k m d b d' sub del m')
  then have IH: "vget (VMap d') p = Some x \<longleftrightarrow> vget (VMap d) p = Some x \<and> allowed wl p"
    and sub: "\<And>q. vget (VMap m') q = Some x \<longleftrightarrow> vget (VMap m) q = Some x \<and> allowed sub q"
    and fresh: "map_of d k = None" by (simp_all add: map_of_eq_None_iff)
  have del: "del \<longleftrightarrow> m' = []" using Node(2) by (rule allowlist_prune_empty)
  show ?case
  proof (cases p)
    case Nil
    with \<open>\<not> is_map x\<close> show ?thesis by auto
  next
    case (Cons k' ks)
    have none: "vget (VMap []) ks \<noteq> Some x" using \<open>\<not> is_map x\<close> by (cases ks) auto
    show ?thesis
    proof (cases "k' = k")
      case True
      show ?thesis
      proof (cases del)
        case True
        with del sub [of ks] none have "\<not> (vget (VMap m) ks = Some x \<and> allowed sub ks)" by simp
        with True Cons \<open>k' = k\<close> IH fresh Node(1) show ?thesis by auto
      next
        case False
        with Cons \<open>k' = k\<close> sub [of ks] Node(1) show ?thesis by simp
      qed
    next
      case False
      with Cons IH show ?thesis by simp
    qed
  qed
qed

lemma allowlisting_filter_eq: "allowlisting_filter ks m = snd (allowlist_prune (allow_tree ks) m)"
  by (cases "allowlist_prune (allow_tree ks) m")
     (auto simp: allowlisting_filter_def dest: allowlist_prune_empty)

section \<open>The interface of a property filter\<close>

text \<open>
  What \<open>entityFormatter.Format\<close> relies on: the filter returns, keeps maps well formed, and keeps
  exactly the values at the paths it is configured for. Maps are compared by the values that are
  not maps themselves, since a filter may drop a map it has emptied.
\<close>

locale property_filter =
  fixes pf :: "gobj \<Rightarrow> gobj option"
    and keeps :: "string list \<Rightarrow> bool"
  assumes pf_total: "pf m \<noteq> None"
    and pf_ok: "gval_ok (VMap m) \<Longrightarrow> pf m = Some m' \<Longrightarrow> gval_ok (VMap m')"
    and pf_keeps: "gval_ok (VMap m) \<Longrightarrow> pf m = Some m' \<Longrightarrow> \<not> is_map x \<Longrightarrow>
      vget (VMap m') p = Some x \<longleftrightarrow> vget (VMap m) p = Some x \<and> keeps p"
begin

lemma pf_Some: obtains m' where "pf m = Some m'"
  using pf_total by blast

lemma pf_idem:
  assumes "gval_ok (VMap m)" and "pf m = Some m'" and "pf m' = Some m''" and "\<not> is_map x"
  shows "vget (VMap m'') p = Some x \<longleftrightarrow> vget (VMap m') p = Some x"
  using assms pf_ok pf_keeps by blast

end

definition deny_keeps :: "string list \<Rightarrow> string list \<Rightarrow> bool" where
  "deny_keeps ks p \<longleftrightarrow> \<not> (\<exists>k \<in> set ks. prefix (split_on CHR ''.'' k) p)"

definition allow_keeps :: "string list \<Rightarrow> string list \<Rightarrow> bool" where
  "allow_keeps ks p \<longleftrightarrow> (\<exists>a \<in> set (allow_effective (map (split_on CHR ''.'') ks)). prefix a p)"

interpretation deny: property_filter "denylisting_filter ks" "deny_keeps ks" for ks
proof unfold_locales
  fix m show "denylisting_filter ks m \<noteq> None"
    using denylisting_filter_Some [of ks m] by auto
next
  fix m m' assume ok: "gval_ok (VMap m)" and "denylisting_filter ks m = Some m'"
  then have "rec_delete (deny_tree ks) (VMap m) = Some (VMap m')"
    using denylisting_filter_Some [of ks m] by auto
  then show "gval_ok (VMap m')" using ok by (rule rec_delete_gval_ok)
next
  fix m m' x p
  assume "denylisting_filter ks m = Some m'" and x: "\<not> is_map x"
  then have "rec_delete (deny_tree ks) (VMap m) = Some (VMap m')"
    using denylisting_filter_Some [of ks m] by auto
  from rec_delete_spec [OF this deny_tree_ok x]
  show "vget (VMap m') p = Some x \<longleftrightarrow> vget (VMap m) p = Some x \<and> deny_keeps ks p"
    by (simp add: denied_deny_tree deny_keeps_def)
qed

interpretation allow: property_filter "\<lambda>m. Some (allowlisting_filter ks m)" "allow_keeps ks" for ks
proof unfold_locales
  fix m m' assume ok: "gval_ok (VMap m)" and "Some (allowlisting_filter ks m) = Some m'"
  then have "allowlist_prune (allow_tree ks) m = (fst (allowlist_prune (allow_tree ks) m), m')"
    by (auto simp: allowlisting_filter_eq)
  with ok show "gval_ok (VMap m')" by (blast dest: allowlist_prune_ok)
next
  fix m m' x p
  assume ok: "gval_ok (VMap m)" and "Some (allowlisting_filter ks m) = Some m'" and x: "\<not> is_map x"
  then have "allowlist_prune (allow_tree ks) m = (fst (allowlist_prune (allow_tree ks) m), m')"
    by (auto simp: allowlisting_filter_eq)
  from allowlist_prune_spec [OF this ok x]
  show "vget (VMap m') p = Some x \<longleftrightarrow> vget (VMap m) p = Some x \<and> allow_keeps ks p"
    by (simp add: allowed_tree allow_keeps_def)
qed simp

section \<open>Properties\<close>

text \<open>
  C10. The deny filter never panics, and of a response it keeps exactly the values at paths no
  entry of the deny list is a prefix of.
\<close>

theorem deny_filter_correct:
  assumes "gval_ok (VMap m)"
  shows "\<exists>m'. denylisting_filter ks m = Some m' \<and> gval_ok (VMap m') \<and>
    (\<forall>p x. \<not> is_map x \<longrightarrow>
       (vget (VMap m') p = Some x \<longleftrightarrow>
          vget (VMap m) p = Some x \<and> \<not> (\<exists>k \<in> set ks. prefix (split_on CHR ''.'' k) p)))"
proof -
  obtain m' where "denylisting_filter ks m = Some m'" by (rule deny.pf_Some)
  with assms show ?thesis
    using deny.pf_ok deny.pf_keeps by (auto simp: deny_keeps_def)
qed

lemma deny_filter_correct_witness:
  "gval_ok (VMap [(''id'', VBool True), (''u'', VMap [(''pw'', VNil), (''n'', VNil)])]) \<and>
   (\<exists>m'. denylisting_filter [''u.pw''] [(''id'', VBool True), (''u'', VMap [(''pw'', VNil), (''n'', VNil)])] = Some m' \<and>
      vget (VMap m') [''u'', ''pw''] \<noteq> Some VNil \<and> vget (VMap m') [''u'', ''n''] = Some VNil)"
proof -
  let ?m = "[(''id'', VBool True), (''u'', VMap [(''pw'', VNil), (''n'', VNil)])]"
  have ok: "gval_ok (VMap ?m)" by simp
  from deny_filter_correct [OF ok, of "[''u.pw'']"] obtain m'
    where m': "denylisting_filter [''u.pw''] ?m = Some m'"
      and keep: "\<And>p x. \<not> is_map x \<Longrightarrow> vget (VMap m') p = Some x \<longleftrightarrow>
        vget (VMap ?m) p = Some x \<and> \<not> (\<exists>k \<in> set [''u.pw'']. prefix (split_on CHR ''.'' k) p)"
    by blast
  have "vget (VMap m') [''u'', ''pw''] \<noteq> Some VNil" and "vget (VMap m') [''u'', ''n''] = Some VNil"
    by (subst keep; simp)+
  with ok m' show ?thesis by blast
qed

text \<open>
  C11. Of a response the allow filter keeps exactly the values below an effective entry of the
  allow list, an entry being effective unless a later entry is a prefix of it or extends it.
\<close>

theorem allow_filter_correct:
  assumes "gval_ok (VMap m)" and "\<not> is_map x"
  shows "gval_ok (VMap (allowlisting_filter ks m)) \<and>
    (vget (VMap (allowlisting_filter ks m)) p = Some x \<longleftrightarrow>
       vget (VMap m) p = Some x \<and>
       (\<exists>a \<in> set (allow_effective (map (split_on CHR ''.'') ks)). prefix a p))"
  using allow.pf_ok [OF assms(1)] allow.pf_keeps [OF assms(1) refl assms(2)]
  by (simp add: allow_keeps_def)

lemma allow_filter_correct_witness:
  "gval_ok (VMap [(''u'', VMap [(''pw'', VNil), (''n'', VNil)])]) \<and> \<not> is_map VNil \<and>
   vget (VMap (allowlisting_filter [''u.n''] [(''u'', VMap [(''pw'', VNil), (''n'', VNil)])])) [''u'', ''n''] = Some VNil"
proof -
  let ?m = "[(''u'', VMap [(''pw'', VNil), (''n'', VNil)])]"
  have ok: "gval_ok (VMap ?m)" and nm: "\<not> is_map VNil" by simp_all
  from allow_filter_correct [OF ok nm, of "[''u.n'']" "[''u'', ''n'']"]
  have "vget (VMap (allowlisting_filter [''u.n''] ?m)) [''u'', ''n''] = Some VNil" by simp
  with ok nm show ?thesis by blast
qed

text \<open>
  The order of an allow list matters: with a parent listed before one of its children only
  the child is allowed, with the parent listed last all of the parent is.
\<close>

theorem allow_order_matters:
  assumes "CHR ''.'' \<notin> set a" and "CHR ''.'' \<notin> set b" and "gval_ok (VMap m)" and "\<not> is_map x"
  shows "(vget (VMap (allowlisting_filter [a, a @ ''.'' @ b] m)) p = Some x \<longleftrightarrow>
            vget (VMap m) p = Some x \<and> prefix [a, b] p) \<and>
         (vget (VMap (allowlisting_filter [a @ ''.'' @ b, a] m)) p = Some x \<longleftrightarrow>
            vget (VMap m) p = Some x \<and> prefix [a] p)"
proof -
  have split: "split_on CHR ''.'' (a @ ''.'' @ b) = [a, b]"
    using assms(1,2) by (induction a) (auto simp: gostr_simps)
  have eff: "allow_keeps [a, a @ ''.'' @ b] = prefix [a, b]" "allow_keeps [a @ ''.'' @ b, a] = prefix [a]"
    using assms(1) split by (auto simp: allow_keeps_def gostr_simps path_related_def fun_eq_iff)
  show ?thesis
    using allow.pf_keeps [OF assms(3) refl assms(4)] by (simp only: eff)
qed

lemma allow_order_matters_witness:
  "vget (VMap (allowlisting_filter [''u'', ''u.n''] [(''u'', VMap [(''n'', VNil), (''e'', VNil)])])) [''u'', ''e''] \<noteq> Some VNil \<and>
   vget (VMap (allowlisting_filter [''u.n'', ''u''] [(''u'', VMap [(''n'', VNil), (''e'', VNil)])])) [''u'', ''e''] = Some VNil"
  using allow_order_matters [of "''u''" "''n''" "[(''u'', VMap [(''n'', VNil), (''e'', VNil)])]" VNil "[''u'', ''e'']"]
  by simp

end
