(* ===== verification/Formatter.thy ===== *)
theory Formatter
  imports PropertyFilters ConfigTypes
begin

text \<open>
  The entity formatter of \<open>src/proxy/formatter.go\<close>: \<open>NewEntityFormatter\<close> and the two formatters
  it chooses between, on the data of a response (\<open>None\<close> is a nil map). The tree package the
  flatmap formatter calls is third-party code, given as a record of its operations.
\<close>

section \<open>Target extraction\<close>

definition odata :: "gobj option \<Rightarrow> gobj" where
  "odata d = (case d of None \<Rightarrow> [] | Some m \<Rightarrow> m)"

lemma odata_simps [simp]: "odata None = []" "odata (Some m) = m"
  by (simp_all add: odata_def)

text \<open>The loop of \<open>extractTarget\<close> over the parts of the target.\<close>

fun extract_parts :: "string list \<Rightarrow> gobj option \<Rightarrow> gobj option" where
  "extract_parts [] d = d"
| "extract_parts (part # parts) d =
     (case map_of (odata d) part of
        Some (VMap m) \<Rightarrow> extract_parts parts (Some m)
      | _ \<Rightarrow> Some [])"

definition extract_target :: "string \<Rightarrow> gobj option \<Rightarrow> gobj option" where
  "extract_target target d = extract_parts (split_on CHR ''.'' target) d"

lemma extract_parts_spec:
  "extract_parts ps (Some m) = (case vget (VMap m) ps of Some (VMap m') \<Rightarrow> Some m' | _ \<Rightarrow> Some [])"
proof (induction ps arbitrary: m)
  case (Cons p ps)
  show ?case
  proof (cases "map_of m p")
    case (Some v)
    then show ?thesis using Cons by (cases v; cases ps) (auto split: option.split)
  qed simp
qed simp

section \<open>Key mapping\<close>

text \<open>The loop over \<open>e.Mapping\<close>, in the order the runtime visits the map.\<close>

fun apply_mapping :: "string gomap \<Rightarrow> gobj \<Rightarrow> gobj" where
  "apply_mapping [] d = d"
| "apply_mapping ((formerKey, newKey) # ms) d =
     (case map_of d formerKey of
        None \<Rightarrow> apply_mapping ms d
      | Some v \<Rightarrow> apply_mapping ms (AList.delete formerKey (AList.update newKey v d)))"

lemma apply_mapping_gval_ok: "gval_ok (VMap d) \<Longrightarrow> gval_ok (VMap (apply_mapping ms d))"
  by (induction ms d rule: apply_mapping.induct)
     (auto split: option.splits intro!: gval_ok_delete gval_ok_update dest: gval_ok_lookup)

lemma apply_mapping_untouched:
  "k \<notin> fst ` set ms \<Longrightarrow> k \<notin> snd ` set ms \<Longrightarrow> map_of (apply_mapping ms d) k = map_of d k"
  by (induction ms d rule: apply_mapping.induct) (auto simp: gomap_simps split: option.split)

lemma apply_mapping_gone:
  "k \<notin> snd ` set ms \<Longrightarrow> map_of d k = None \<Longrightarrow> map_of (apply_mapping ms d) k = None"
  by (induction ms d rule: apply_mapping.induct) (auto simp: gomap_simps split: option.split)

lemma apply_mapping_former:
  "k \<in> fst ` set ms \<Longrightarrow> k \<notin> snd ` set ms \<Longrightarrow> map_of (apply_mapping ms d) k = None"
proof (induction ms d rule: apply_mapping.induct)
  case (2 former new ms d)
  show ?case
  proof (cases "k = former")
    case True
    with 2 show ?thesis by (auto simp: gomap_simps apply_mapping_gone split: option.split)
  next
    case False
    with 2 show ?thesis by (auto split: option.split)
  qed
qed simp

lemma apply_mapping_new:
  assumes "distinct (map snd ms)" and "fst ` set ms \<inter> snd ` set ms = {}"
    and "(f, k) \<in> set ms" and "gomap_ok ms"
  shows "map_of (apply_mapping ms d) k = (case map_of d f of Some v \<Rightarrow> Some v | None \<Rightarrow> map_of d k)"
  using assms
proof (induction ms d rule: apply_mapping.induct)
  case (2 former new ms d)
  show ?case
  proof (cases "f = former")
    case True
    with 2 have "k = new" by (auto simp: rev_image_eqI)
    with 2 have "k \<notin> fst ` set ms" "k \<notin> snd ` set ms" "k \<noteq> former" by auto
    with True \<open>k = new\<close> show ?thesis
      by (auto simp: apply_mapping_untouched gomap_simps split: option.split)
  next
    case False
    with 2 have "(f, k) \<in> set ms" "k \<noteq> new" "f \<noteq> new" "k \<noteq> former" by (auto simp: rev_image_eqI)
    with False 2 show ?thesis by (auto simp: gomap_simps split: option.split)
  qed
qed simp

section \<open>The entity formatter\<close>

record entity_formatter =
  ef_Target :: string
  ef_Prefix :: string
  ef_PropertyFilter :: "gobj \<Rightarrow> gobj option"
  ef_Mapping :: "string gomap"

text \<open>\<open>Format\<close>; \<open>None\<close> is a panic of the property filter.\<close>

definition format_filter :: "entity_formatter \<Rightarrow> gobj option \<Rightarrow> gobj option option" where
  "format_filter e d =
     (if odata d = [] then Some d else map_option Some (ef_PropertyFilter e (odata d)))"

definition format_mapping :: "entity_formatter \<Rightarrow> gobj option \<Rightarrow> gobj option" where
  "format_mapping e d = (if odata d = [] then d else Some (apply_mapping (ef_Mapping e) (odata d)))"

definition format_prefix :: "string \<Rightarrow> gobj option \<Rightarrow> gobj option" where
  "format_prefix pre d = (if pre \<noteq> [] then Some [(pre, VMap (odata d))] else d)"

definition format_entity :: "entity_formatter \<Rightarrow> gobj option \<Rightarrow> gobj option option" where
  "format_entity e d =
     (let d1 = (if ef_Target e \<noteq> [] then extract_target (ef_Target e) d else d)
      in map_option (\<lambda>d2. format_prefix (ef_Prefix e) (format_mapping e d2)) (format_filter e d1))"

text \<open>The sanitised mapping of \<open>NewEntityFormatter\<close>: a new name is cut at its first dot.\<close>

definition sanitized_mapping :: "string gomap \<Rightarrow> string gomap" where
  "sanitized_mapping ms = map (\<lambda>(i, m). (i, hd (split_on CHR ''.'' m))) ms"

definition property_filter_of :: "backend \<Rightarrow> gobj \<Rightarrow> gobj option" where
  "property_filter_of remote =
     (if b_AllowList remote \<noteq> [] then (\<lambda>m. Some (allowlisting_filter (b_AllowList remote) m))
      else denylisting_filter (b_DenyList remote))"

definition plain_formatter :: "backend \<Rightarrow> entity_formatter" where
  "plain_formatter remote =
     \<lparr>ef_Target = b_Target remote, ef_Prefix = b_Group remote,
      ef_PropertyFilter = property_filter_of remote,
      ef_Mapping = sanitized_mapping (b_Mapping remote)\<rparr>"

definition remote_keeps :: "backend \<Rightarrow> string list \<Rightarrow> bool" where
  "remote_keeps remote =
     (if b_AllowList remote \<noteq> [] then allow_keeps (b_AllowList remote)
      else deny_keeps (b_DenyList remote))"

interpretation remote: property_filter "property_filter_of remote" "remote_keeps remote" for remote
proof (cases "b_AllowList remote = []")
  case True
  then show "property_filter (property_filter_of remote) (remote_keeps remote)"
    by (simp add: property_filter_of_def remote_keeps_def deny.property_filter_axioms)
next
  case False
  then show "property_filter (property_filter_of remote) (remote_keeps remote)"
    by (simp add: property_filter_of_def remote_keeps_def allow.property_filter_axioms)
qed

section \<open>The flatmap formatter\<close>

text \<open>
  The operations of \<open>github.com/pucora/flatmap/tree\<close>; \<open>ft_new\<close> is \<open>None\<close> where \<open>tree.New\<close>
  returns an error.
\<close>

record 't flat_tree =
  ft_new :: "gobj option \<Rightarrow> 't option"
  ft_move :: "string list \<Rightarrow> string list \<Rightarrow> 't \<Rightarrow> 't"
  ft_append :: "string list \<Rightarrow> string list \<Rightarrow> 't \<Rightarrow> 't"
  ft_del :: "string list \<Rightarrow> 't \<Rightarrow> 't"
  ft_get :: "string list \<Rightarrow> 't \<Rightarrow> gval"

record flatmap_op =
  op_Type :: string
  op_Args :: "string list list"

record flatmap_formatter =
  ff_Target :: string
  ff_Prefix :: string
  ff_Ops :: "flatmap_op list"

text \<open>One turn of the loop of \<open>processOps\<close>: \<open>None\<close> is an index out of range of \<open>op.Args\<close>.\<close>

fun flatmap_step :: "'t flat_tree \<Rightarrow> flatmap_op \<Rightarrow> 't \<Rightarrow> 't option" where
  "flatmap_step T op t =
     (if op_Type op = ''move'' then
        (case op_Args op of a # b # _ \<Rightarrow> Some (ft_move T a b t) | _ \<Rightarrow> None)
      else if op_Type op = ''append'' then
        (case op_Args op of a # b # _ \<Rightarrow> Some (ft_append T a b t) | _ \<Rightarrow> None)
      else if op_Type op = ''del'' then Some (fold (ft_del T) (op_Args op) t)
      else Some t)"

fun flatmap_ops :: "'t flat_tree \<Rightarrow> flatmap_op list \<Rightarrow> 't \<Rightarrow> 't option" where
  "flatmap_ops T [] t = Some t"
| "flatmap_ops T (op # ops) t = Option.bind (flatmap_step T op t) (flatmap_ops T ops)"

definition process_ops :: "'t flat_tree \<Rightarrow> flatmap_formatter \<Rightarrow> gobj option \<Rightarrow> gobj option option" where
  "process_ops T e d =
     (case ft_new T d of
        None \<Rightarrow> Some d
      | Some t \<Rightarrow>
          map_option (\<lambda>t'. case ft_get T [] t' of VMap m \<Rightarrow> Some m | _ \<Rightarrow> None)
            (flatmap_ops T (ff_Ops e) t))"

definition format_flatmap :: "'t flat_tree \<Rightarrow> flatmap_formatter \<Rightarrow> gobj option \<Rightarrow> gobj option option" where
  "format_flatmap T e d =
     (let d1 = (if ff_Target e \<noteq> [] then extract_target (ff_Target e) d else d)
      in map_option (format_prefix (ff_Prefix e)) (process_ops T e d1))"

text \<open>\<open>newFlatmapFormatter\<close>: an argument that is no string leaves a nil path.\<close>

definition parse_flatmap_arg :: "gval \<Rightarrow> string list" where
  "parse_flatmap_arg a = (case a of VString t \<Rightarrow> split_on CHR ''.'' t | _ \<Rightarrow> [])"

definition parse_flatmap_op :: "gval \<Rightarrow> flatmap_op option" where
  "parse_flatmap_op v =
     (case v of
        VMap m \<Rightarrow>
          (case ec_string m ''type'' of
             None \<Rightarrow> None
           | Some t \<Rightarrow>
               Some \<lparr>op_Type = t,
                     op_Args = (case ec_list m ''args'' of
                                  None \<Rightarrow> [] | Some args \<Rightarrow> map parse_flatmap_arg args)\<rparr>)
      | _ \<Rightarrow> None)"

definition new_flatmap_formatter :: "extra_config \<Rightarrow> string \<Rightarrow> string \<Rightarrow> flatmap_formatter option" where
  "new_flatmap_formatter cfg target grp =
     (case ec_map cfg proxy_Namespace of
        None \<Rightarrow> None
      | Some e \<Rightarrow>
          (case ec_list e ''flatmap_filter'' of
             None \<Rightarrow> None
           | Some vs \<Rightarrow>
               (if vs = [] then None
                else
                  (let ops = List.map_filter parse_flatmap_op vs
                   in if ops = [] then None
                      else Some \<lparr>ff_Target = target, ff_Prefix = grp, ff_Ops = ops\<rparr>))))"

text \<open>\<open>NewEntityFormatter\<close>: the flatmap formatter where it is configured, else the plain one.\<close>

datatype formatter = Flatmap flatmap_formatter | Plain entity_formatter

definition new_entity_formatter :: "backend \<Rightarrow> formatter" where
  "new_entity_formatter remote =
     (case new_flatmap_formatter (b_ExtraConfig remote) (b_Target remote) (b_Group remote) of
        Some ef \<Rightarrow> Flatmap ef
      | None \<Rightarrow> Plain (plain_formatter remote))"

fun run_formatter :: "'t flat_tree \<Rightarrow> formatter \<Rightarrow> gobj option \<Rightarrow> gobj option option" where
  "run_formatter T (Flatmap e) d = format_flatmap T e d"
| "run_formatter T (Plain e) d = format_entity e d"

section \<open>What a formatted response holds\<close>

definition group_path :: "backend \<Rightarrow> string list" where
  "group_path remote = (if b_Group remote = [] then [] else [b_Group remote])"

definition target_path :: "backend \<Rightarrow> string list" where
  "target_path remote = (if b_Target remote = [] then [] else split_on CHR ''.'' (b_Target remote))"

lemma format_target_eq:
  "(if b_Target remote \<noteq> [] then extract_target (b_Target remote) (Some m) else Some m) =
     (case vget (VMap m) (target_path remote) of Some (VMap m') \<Rightarrow> Some m' | _ \<Rightarrow> Some [])"
  by (simp add: target_path_def extract_target_def extract_parts_spec)

lemma target_obj:
  assumes "gval_ok (VMap m)"
  obtains t where "(if b_Target remote \<noteq> [] then extract_target (b_Target remote) (Some m) else Some m) = Some t"
    and "gval_ok (VMap t)"
    and "\<And>q x. q \<noteq> [] \<Longrightarrow> vget (VMap t) q = Some x \<longleftrightarrow> vget (VMap m) (target_path remote @ q) = Some x"
proof (cases "\<exists>t. vget (VMap m) (target_path remote) = Some (VMap t)")
  case True
  then obtain t where t: "vget (VMap m) (target_path remote) = Some (VMap t)" by blast
  with assms have "gval_ok (VMap t)" by (rule gval_ok_vget)
  with t show thesis by (intro that [of t]) (auto simp: format_target_eq vget_append)
next
  case False
  then have empty: "vget (VMap []) q = Some x \<longleftrightarrow> vget (VMap m) (target_path remote @ q) = Some x"
    if "q \<noteq> []" for q x
    using that by (cases q) (auto simp: vget_append vget_simps is_map_iff split: option.splits)
  from False show thesis
    by (intro that [of "[]"]) (auto simp: format_target_eq empty split: option.splits gval.splits)
qed

context property_filter
begin

text \<open>The formatter around any property filter, without key mapping.\<close>

lemma format_filter_paths:
  assumes "gval_ok (VMap t)" and "ef_PropertyFilter e = pf"
  obtains t' where "format_filter e (Some t) = Some (Some t')" and "gval_ok (VMap t')"
    and "\<And>x q. \<not> is_map x \<Longrightarrow> q \<noteq> [] \<Longrightarrow>
      vget (VMap t') q = Some x \<longleftrightarrow> vget (VMap t) q = Some x \<and> keeps q"
proof (cases "t = []")
  case True
  have none: "vget (VMap []) q \<noteq> Some x" if "q \<noteq> []" for q x
    using that by (cases q) auto
  with True show thesis by (intro that [of t]) (auto simp: format_filter_def)
next
  case False
  obtain t' where "pf t = Some t'" by (rule pf_Some)
  with assms False pf_ok pf_keeps show thesis
    by (intro that [of t']) (auto simp: format_filter_def)
qed

end

text \<open>
  Renaming keys does not depend on the order in which the runtime visits the mapping, when
  the new names are distinct and none of them is itself a renamed key: a renamed key is gone,
  a new name holds its key's value where the response had one, every other key is untouched.
\<close>

theorem mapping_order_independent:
  assumes "gomap_ok ms" and "distinct (map snd ms)" and "fst ` set ms \<inter> snd ` set ms = {}"
    and "set ms' = set ms" and "gomap_ok ms'" and "distinct (map snd ms')"
  shows "map_of (apply_mapping ms d) = map_of (apply_mapping ms' d) \<and>
    (\<forall>f k. (f, k) \<in> set ms \<longrightarrow>
       map_of (apply_mapping ms d) f = None \<and>
       map_of (apply_mapping ms d) k = (case map_of d f of Some v \<Rightarrow> Some v | None \<Rightarrow> map_of d k))"
proof -
  have former: "map_of (apply_mapping xs d) f = None"
    if "(f, k) \<in> set xs" "fst ` set xs \<inter> snd ` set xs = {}" for xs f k
    using that by (intro apply_mapping_former) force+
  have new: "map_of (apply_mapping xs d) k = (case map_of d f of Some v \<Rightarrow> Some v | None \<Rightarrow> map_of d k)"
    if "(f, k) \<in> set xs" "gomap_ok xs" "distinct (map snd xs)" "fst ` set xs \<inter> snd ` set xs = {}" for xs f k
    using that by (intro apply_mapping_new) auto
  have "map_of (apply_mapping ms d) k = map_of (apply_mapping ms' d) k" for k
  proof (cases "k \<in> fst ` set ms \<or> k \<in> snd ` set ms")
    case True
    then obtain f k' where "(f, k') \<in> set ms" "k = f \<or> k = k'" by force
    then show ?thesis
    proof (elim disjE)
      assume "k = f"
      with \<open>(f, k') \<in> set ms\<close> assms show ?thesis by (simp add: former [of f k'])
    next
      assume "k = k'"
      with \<open>(f, k') \<in> set ms\<close> assms show ?thesis by (simp add: new [of f k'])
    qed
  next
    case False
    with assms(4) show ?thesis by (simp add: apply_mapping_untouched)
  qed
  moreover have "map_of (apply_mapping ms d) f = None \<and>
      map_of (apply_mapping ms d) k = (case map_of d f of Some v \<Rightarrow> Some v | None \<Rightarrow> map_of d k)"
    if "(f, k) \<in> set ms" for f k
    using former [OF that assms(3)] new [OF that assms(1-3)] by simp
  ultimately show ?thesis by blast
qed

text \<open>The name under which a key of the filtered data is found in the end, and the renamings that neither
  collide with each other nor with a key below the target.\<close>

definition renamed :: "backend \<Rightarrow> string \<Rightarrow> string" where
  "renamed remote k = (case map_of (sanitized_mapping (b_Mapping remote)) k of Some n \<Rightarrow> n | None \<Rightarrow> k)"

definition renames_apart :: "backend \<Rightarrow> gobj \<Rightarrow> bool" where
  "renames_apart remote m \<longleftrightarrow>
     (let ms = sanitized_mapping (b_Mapping remote)
      in gomap_ok ms \<and> distinct (map snd ms) \<and> fst ` set ms \<inter> snd ` set ms = {} \<and>
         (\<forall>n \<in> snd ` set ms. vget (VMap m) (target_path remote @ [n]) = None))"

lemma apply_mapping_empty [simp]: "apply_mapping ms [] = []"
  by (induction ms) auto

lemma format_mapping_Some: "format_mapping e (Some d) = Some (apply_mapping (ef_Mapping e) d)"
  by (simp add: format_mapping_def)

lemma renamed_paths:
  assumes apart: "renames_apart remote m" and leaf: "\<not> is_map x"
    and none: "\<And>n q. n \<in> snd ` set (sanitized_mapping (b_Mapping remote)) \<Longrightarrow> vget (VMap t) (n # q) \<noteq> Some x"
  shows "vget (VMap (apply_mapping (sanitized_mapping (b_Mapping remote)) t)) p = Some x \<longleftrightarrow>
    (\<exists>k q. p = renamed remote k # q \<and> vget (VMap t) (k # q) = Some x)"
proof -
  define ms where "ms = sanitized_mapping (b_Mapping remote)"
  have ms: "gomap_ok ms" "distinct (map snd ms)" "fst ` set ms \<inter> snd ` set ms = {}"
    using apart by (simp_all add: renames_apart_def ms_def Let_def)
  have nocoll: "vget (VMap t) (n # q) \<noteq> Some x" if "n \<in> snd ` set ms" for n q
    using none that unfolding ms_def by blast
  have name: "renamed remote k = (case map_of ms k of Some n \<Rightarrow> n | None \<Rightarrow> k)" for k
    by (simp add: renamed_def ms_def)
  show ?thesis
  proof (cases p)
    case Nil
    with leaf show ?thesis by auto
  next
    case (Cons k' q)
    consider f where "(f, k') \<in> set ms" | "k' \<in> fst ` set ms" | "k' \<notin> fst ` set ms" "k' \<notin> snd ` set ms"
      by force
    then show ?thesis
    proof cases
      case 1
      have new: "map_of (apply_mapping ms t) k' = (case map_of t f of Some v \<Rightarrow> Some v | None \<Rightarrow> map_of t k')"
        using mapping_order_independent [OF ms refl ms(1,2)] 1 by blast
      have "renamed remote k = k' \<longleftrightarrow> k = f \<or> k = k'" for k
      proof -
        have f: "map_of ms f = Some k'" using 1 ms(1) by simp
        have kk: "map_of ms k' = None" using 1 ms(3) by (force simp: map_of_eq_None_iff)
        have "k = f" if "map_of ms k = Some k'"
          using map_of_SomeD [OF that] 1 ms(2) by (metis distinct_map inj_on_def prod.inject snd_conv)
        with f kk show ?thesis by (auto simp: name split: option.splits)
      qed
      then have rhs: "(\<exists>k r. k' # q = renamed remote k # r \<and> vget (VMap t) (k # r) = Some x) \<longleftrightarrow>
          vget (VMap t) (f # q) = Some x \<or> vget (VMap t) (k' # q) = Some x"
        by (metis list.inject)
      have miss: "vget (VMap t) (k' # q) \<noteq> Some x" using nocoll 1 by force
      have "vget (VMap (apply_mapping ms t)) (k' # q) = Some x \<longleftrightarrow> vget (VMap t) (f # q) = Some x"
        using miss by (simp add: new split: option.splits)
      with rhs miss show ?thesis unfolding ms_def [symmetric] Cons by blast
    next
      case 2
      then have "map_of (apply_mapping ms t) k' = None"
        using mapping_order_independent [OF ms refl ms(1,2)] by force
      moreover have "renamed remote k \<noteq> k'" for k
      proof -
        have "k' \<notin> snd ` set ms" using 2 ms(3) by blast
        then have "map_of ms k \<noteq> Some k'" by (metis imageI map_of_SomeD snd_conv)
        moreover have "map_of ms k' \<noteq> None" using 2 by (simp add: map_of_eq_None_iff)
        ultimately show ?thesis unfolding name by (cases "map_of ms k") auto
      qed
      ultimately show ?thesis unfolding ms_def [symmetric] Cons by (metis list.inject option.simps(3,4) vget.simps(2))
    next
      case 3
      then have same: "map_of (apply_mapping ms t) k' = map_of t k'" by (rule apply_mapping_untouched)
      have name': "renamed remote k = k' \<longleftrightarrow> k = k'" for k
      proof -
        have old: "map_of ms k' = None" using 3(1) by (simp add: map_of_eq_None_iff)
        have "map_of ms k \<noteq> Some k'" using 3(2) by (metis imageI map_of_SomeD snd_conv)
        with old show ?thesis unfolding name by (cases "map_of ms k") auto
      qed
      have "vget (VMap (apply_mapping ms t)) (k' # q) = vget (VMap t) (k' # q)" by (simp add: same)
      with name' show ?thesis unfolding ms_def [symmetric] Cons by (metis list.inject)
    qed
  qed
qed

text \<open>
  C12. A backend's formatted response: the values it holds are the values found below the target in
  the decoded body at the paths the allow list (or, without one, the deny list) keeps, with their
  first key renamed as the mapping says, moved below the group. The renamings are supposed not to
  collide. Formatting never panics.
\<close>

theorem entity_format_paths:
  assumes "gval_ok (VMap m)" and "renames_apart remote m"
  shows "\<exists>d'. format_entity (plain_formatter remote) (Some m) = Some (Some d') \<and>
    (\<forall>x p. \<not> is_map x \<longrightarrow>
       (vget (VMap d') p = Some x \<longleftrightarrow>
          (\<exists>k q. p = group_path remote @ renamed remote k # q \<and>
             vget (VMap m) (target_path remote @ k # q) = Some x \<and> remote_keeps remote (k # q))))"
proof -
  let ?ms = "sanitized_mapping (b_Mapping remote)"
  obtain t where t: "(if b_Target remote \<noteq> [] then extract_target (b_Target remote) (Some m) else Some m) = Some t"
    and ok: "gval_ok (VMap t)"
    and target: "\<And>q x. q \<noteq> [] \<Longrightarrow> vget (VMap t) q = Some x \<longleftrightarrow>
      vget (VMap m) (target_path remote @ q) = Some x"
    using assms(1) by (rule target_obj [of m remote]) blast
  obtain t' where t': "format_filter (plain_formatter remote) (Some t) = Some (Some t')"
    and keeps: "\<And>x q. \<not> is_map x \<Longrightarrow> q \<noteq> [] \<Longrightarrow>
      vget (VMap t') q = Some x \<longleftrightarrow> vget (VMap t) q = Some x \<and> remote_keeps remote q"
    using ok by (rule remote.format_filter_paths [of t "plain_formatter remote" remote])
      (auto simp: plain_formatter_def)
  have none: "vget (VMap t') (n # q) \<noteq> Some x" if "n \<in> snd ` set ?ms" "\<not> is_map x" for n q x
  proof
    assume "vget (VMap t') (n # q) = Some x"
    with keeps that(2) have "vget (VMap t) (n # q) = Some x" by blast
    then obtain y where "vget (VMap t) [n] = Some y" by (auto split: option.splits)
    with target [of "[n]"] assms(2) that(1) show False by (auto simp: renames_apart_def Let_def)
  qed
  let ?d = "apply_mapping ?ms t'"
  have "format_entity (plain_formatter remote) (Some m) =
      Some (Some (if b_Group remote = [] then ?d else [(b_Group remote, VMap ?d)]))"
    using t t' by (auto simp: format_entity_def plain_formatter_def format_mapping_Some format_prefix_def)
  moreover have "vget (VMap (if b_Group remote = [] then ?d else [(b_Group remote, VMap ?d)])) p = Some x \<longleftrightarrow>
      (\<exists>q. q \<noteq> [] \<and> p = group_path remote @ q \<and> vget (VMap ?d) q = Some x)"
    if "\<not> is_map x" for x p
    using that by (cases p) (auto simp: group_path_def)
  moreover have "vget (VMap ?d) q = Some x \<longleftrightarrow> (\<exists>k q'. q = renamed remote k # q' \<and>
      vget (VMap m) (target_path remote @ k # q') = Some x \<and> remote_keeps remote (k # q'))"
    if "\<not> is_map x" for x q
    using renamed_paths [OF assms(2) that none [OF _ that]] keeps [OF that] target by (simp del: vget.simps)
  ultimately show ?thesis by fastforce
qed

theorem entity_format_paths_witness:
  "\<exists>d'. format_entity (plain_formatter (backend_zero\<lparr>b_Target := ''d'', b_Group := ''g'', b_Mapping := [(''id'', ''key'')]\<rparr>))
     (Some [(''d'', VMap [(''id'', VNil)])]) = Some (Some d') \<and> vget (VMap d') [''g'', ''key''] = Some VNil"
proof -
  let ?m = "[(''d'', VMap [(''id'', VNil)])]"
  let ?r = "backend_zero\<lparr>b_Target := ''d'', b_Group := ''g'', b_Mapping := [(''id'', ''key'')]\<rparr>"
  have ok: "gval_ok (VMap ?m)" by (simp add: backend_zero_def)
  have apart: "renames_apart ?r ?m"
    by (simp add: renames_apart_def sanitized_mapping_def target_path_def)
  have keeps: "remote_keeps ?r [''id'']"
    by (simp add: remote_keeps_def backend_zero_def deny_keeps_def)
  have paths: "group_path ?r = [''g'']" "target_path ?r = [''d'']" "renamed ?r ''id'' = ''key''"
    by (simp_all add: group_path_def target_path_def renamed_def sanitized_mapping_def)
  from entity_format_paths [OF ok apart] obtain d'
    where d': "format_entity (plain_formatter ?r) (Some ?m) = Some (Some d')"
      and iff: "\<And>x p. \<not> is_map x \<Longrightarrow> vget (VMap d') p = Some x \<longleftrightarrow>
        (\<exists>k q. p = group_path ?r @ renamed ?r k # q \<and>
          vget (VMap ?m) (target_path ?r @ k # q) = Some x \<and> remote_keeps ?r (k # q))" by blast
  have "vget (VMap d') [''g'', ''key''] = Some VNil"
    using keeps by (subst iff) (auto simp: paths intro!: exI [of _ "''id''"])
  with d' show ?thesis by blast
qed

lemma mapping_order_independent_witness:
  "map_of (apply_mapping [(''a'', ''x''), (''b'', ''y'')] [(''a'', VNil), (''b'', VBool True)]) ''y'' = Some (VBool True)"
  using mapping_order_independent [of "[(''a'', ''x''), (''b'', ''y'')]" "[(''b'', ''y''), (''a'', ''x'')]"
      "[(''a'', VNil), (''b'', VBool True)]"]
  by auto

text \<open>
  Mapping a key to its own name removes it from the response, and so does mapping it to a
  dotted name that starts with its own: the new entry is written first and then deleted.
\<close>

theorem mapping_to_itself_drops:
  assumes "CHR ''.'' \<notin> set k"
  shows "map_of (apply_mapping (sanitized_mapping [(k, k)]) d) k = None \<and>
    map_of (apply_mapping (sanitized_mapping [(k, k @ ''.'' @ rest)]) d) k = None"
proof -
  have "hd (split_on CHR ''.'' (k @ ''.'' @ rest)) = k"
    using assms by (induction k) (auto split: list.splits)
  with assms show ?thesis
    by (auto simp: sanitized_mapping_def gostr_simps gomap_simps split: option.split)
qed

lemma mapping_to_itself_drops_witness:
  "map_of (apply_mapping (sanitized_mapping [(''id'', ''id'')]) [(''id'', VBool True)]) ''id'' = None"
  using mapping_to_itself_drops [of "''id''"] by simp

end
