(* ===== verification/Request.thy ===== *)
theory Request
  imports ConfigTypes
begin

text \<open>
  Requests (\<open>src/proxy/request.go\<close>) and responses (\<open>Response\<close> and \<open>Metadata\<close> of
  \<open>src/proxy/proxy.go\<close>). Of a request's parsed URL the raw query is told apart from the rest;
  printing and parsing it again (\<open>net/url\<close>) is the parameter \<open>reparse\<close>. A nil map is an empty one, a nil body \<open>None\<close>. The types
  of a response's data and body are parameters of the record, so that the merger can use it with
  maps and readers by value and by reference.
\<close>

section \<open>Requests\<close>

record url =
  u_rest :: string
  u_RawQuery :: string

record request =
  q_Method :: string
  q_URL :: "url option"
  q_Query :: "string list gomap"
  q_Path :: string
  q_Body :: "reader option"
  q_Params :: "string gomap"
  q_Headers :: "string list gomap"

definition request_zero :: request where
  "request_zero = \<lparr>q_Method = [], q_URL = None, q_Query = [], q_Path = [], q_Body = None,
     q_Params = [], q_Headers = []\<rparr>"

text \<open>\<open>GeneratePath\<close>: one \<open>bytes.ReplaceAll\<close> per parameter, in the order the map is ranged over.\<close>

definition placeholder :: "string \<Rightarrow> string" where
  "placeholder k = ''{{.'' @ k @ ''}}''"

fun replace_params :: "string gomap \<Rightarrow> string \<Rightarrow> string" where
  "replace_params [] buff = buff"
| "replace_params ((k, v) # ps) buff = replace_params ps (replace_all (placeholder k) v buff)"

definition generate_path :: "string \<Rightarrow> request \<Rightarrow> request" where
  "generate_path URLPattern r =
     (if q_Params r = [] then r\<lparr>q_Path := URLPattern\<rparr>
      else r\<lparr>q_Path := replace_params (q_Params r) URLPattern\<rparr>)"

definition clone :: "(url \<Rightarrow> url option) \<Rightarrow> request \<Rightarrow> request" where
  "clone reparse r =
     \<lparr>q_Method = q_Method r,
      q_URL = (case q_URL r of None \<Rightarrow> None | Some u \<Rightarrow> reparse u),
      q_Query = q_Query r, q_Path = q_Path r, q_Body = q_Body r, q_Params = q_Params r,
      q_Headers = q_Headers r\<rparr>"

definition clone_request_headers :: "string list gomap \<Rightarrow> string list gomap" where
  "clone_request_headers headers = write_all [] headers"

definition clone_request_params :: "string gomap \<Rightarrow> string gomap" where
  "clone_request_params params = write_all [] params"

text \<open>\<open>CloneRequest\<close>: the clone and the original afterwards; both bodies are now in-memory copies of
  what could be read, and a read error is lost.\<close>

definition clone_request :: "(url \<Rightarrow> url option) \<Rightarrow> request \<Rightarrow> request \<times> request" where
  "clone_request reparse r =
     (let c = clone reparse r;
          c = c\<lparr>q_Headers := clone_request_headers (q_Headers r), q_Params := clone_request_params (q_Params r)\<rparr>
      in case q_Body r of
           None \<Rightarrow> (c, r)
         | Some b \<Rightarrow>
             let copy = \<lparr>rd_content = rd_content b, rd_err = None\<rparr>
             in (c\<lparr>q_Body := Some copy\<rparr>, r\<lparr>q_Body := Some copy\<rparr>))"

lemma update_triv_new: "k \<notin> fst ` set m \<Longrightarrow> AList.update k v m = m @ [(k, v)]"
  by (induction m) auto

lemma write_all_Nil: "gomap_ok (m @ ps) \<Longrightarrow> write_all m ps = m @ ps"
proof (induction m ps rule: write_all.induct)
  case (2 dst k v src)
  then have "k \<notin> fst ` set dst" by simp
  then have "AList.update k v dst = dst @ [(k, v)]"
    by (rule update_triv_new)
  with 2 show ?case by simp
qed simp

text \<open>The deep clone carries the same headers, parameters and body, and leaves the original's.\<close>

lemma clone_request_eq:
  assumes "gomap_ok (q_Headers r)" and "gomap_ok (q_Params r)" and "\<forall>b. q_Body r = Some b \<longrightarrow> rd_err b = None"
  shows "clone_request reparse r = (clone reparse r, r)"
  using assms by (auto simp: clone_request_def clone_def clone_request_headers_def clone_request_params_def
      write_all_Nil Let_def split: option.split)

section \<open>Responses\<close>

record ('d, 'i) response =
  r_Data :: "'d option"
  r_IsComplete :: bool
  r_Headers :: "string list gomap"  \<comment> \<open>\<open>Metadata.Headers\<close>\<close>
  r_StatusCode :: int               \<comment> \<open>\<open>Metadata.StatusCode\<close>\<close>
  r_Io :: "'i option"

type_synonym vresponse = "(gobj, reader) response"

text \<open>What a Go function of type \<open>Proxy\<close> returns.\<close>

type_synonym 'r presult = "'r option \<times> goerror option"

text \<open>A proxy, called in a world \<open>'w\<close> that it may change.\<close>

type_synonym 'w proxy = "'w \<Rightarrow> request \<Rightarrow> vresponse presult \<times> 'w"

definition noop_proxy :: "'w proxy" where
  "noop_proxy w r = ((None, None), w)"

text \<open>\<open>EmptyMiddlewareWithLogger\<close>: more than one proxy is fatal and yields a nil proxy (\<open>Some None\<close>);
  none is an index out of range (\<open>None\<close>).\<close>

definition empty_middleware :: "'p list \<Rightarrow> 'p option option" where
  "empty_middleware next =
     (if length next > 1 then Some None
      else case next of [] \<Rightarrow> None | p # _ \<Rightarrow> Some (Some p))"

section \<open>Path templates\<close>

text \<open>
  A URL pattern seen as literal text and placeholders. The literals, and the values of the
  parameters, are free of opening braces, as are the keys, which also contain no closing ones.
\<close>

datatype segment = Lit string | Hole string

fun render_segment :: "segment \<Rightarrow> string" where
  "render_segment (Lit s) = s"
| "render_segment (Hole k) = placeholder k"

definition render :: "segment list \<Rightarrow> string" where
  "render segs = concat (map render_segment segs)"

fun segment_ok :: "segment \<Rightarrow> bool" where
  "segment_ok (Lit s) = (CHR ''{'' \<notin> set s)"
| "segment_ok (Hole k) = (CHR ''{'' \<notin> set k \<and> CHR ''}'' \<notin> set k)"

fun fill :: "(string \<Rightarrow> string option) \<Rightarrow> segment \<Rightarrow> segment" where
  "fill f (Lit s) = Lit s"
| "fill f (Hole k) = (case f k of None \<Rightarrow> Hole k | Some v \<Rightarrow> Lit v)"

lemma replace_all_lit:
  assumes "CHR ''{'' \<notin> set s"
  shows "replace_all (placeholder k) v (s @ t) = s @ replace_all (placeholder k) v t"
  using assms
proof (induction s)
  case (Cons c s)
  then have "\<not> prefix (placeholder k) ((c # s) @ t)" by (auto simp: placeholder_def)
  with Cons show ?case by (simp add: replace_all.simps [of _ _ "c # s @ t"])
qed simp

lemma takeWhile_prefix_eq:
  assumes "prefix (k @ [x]) (k' @ x # t)" and "x \<notin> set k" and "x \<notin> set k'"
  shows "k = k'"
proof -
  from assms(1) obtain u where "k' @ x # t = k @ x # u" by (auto simp: prefix_def)
  then have "takeWhile ((\<noteq>) x) (k' @ x # t) = takeWhile ((\<noteq>) x) (k @ x # u)" by simp
  moreover have "takeWhile ((\<noteq>) x) (k @ x # u) = k" if "x \<notin> set k" for k u
    using that by (induction k) auto
  ultimately show ?thesis using assms(2,3) by simp
qed

lemma replace_all_hole_same:
  "replace_all (placeholder k) v (placeholder k @ t) = v @ replace_all (placeholder k) v t"
  by (rule replace_all_hit) (simp add: placeholder_def)

lemma replace_all_hole_other:
  assumes "k \<noteq> k'" and "segment_ok (Hole k)" and "segment_ok (Hole k')"
  shows "replace_all (placeholder k) v (placeholder k' @ t) = placeholder k' @ replace_all (placeholder k) v t"
proof -
  have no: "\<not> prefix (placeholder k) (placeholder k' @ t)"
  proof
    assume "prefix (placeholder k) (placeholder k' @ t)"
    then have "prefix (k @ [CHR ''}'']) (k' @ CHR ''}'' # CHR ''}'' # t)"
      by (auto simp: placeholder_def prefix_def)
    then have "k = k'" by (rule takeWhile_prefix_eq) (use assms in auto)
    with assms(1) show False ..
  qed
  have no2: "\<not> prefix (placeholder k) (CHR ''{'' # CHR ''.'' # u)" for u
    by (auto simp: placeholder_def)
  let ?rest = "CHR ''.'' # k' @ ''}}''"
  have "placeholder k' @ t = CHR ''{'' # CHR ''{'' # (?rest @ t)" by (simp add: placeholder_def)
  then have "replace_all (placeholder k) v (placeholder k' @ t) =
      CHR ''{'' # CHR ''{'' # replace_all (placeholder k) v (?rest @ t)"
    using no no2 [of "k' @ ''}}'' @ t"] by (simp add: replace_all.simps [of _ _ "CHR ''{'' # _"])
  also have "replace_all (placeholder k) v (?rest @ t) = ?rest @ replace_all (placeholder k) v t"
    using assms(3) by (intro replace_all_lit) auto
  finally show ?thesis by (simp add: placeholder_def)
qed

lemma replace_all_render:
  assumes "\<And>s. s \<in> set segs \<Longrightarrow> segment_ok s" and "segment_ok (Hole k)"
  shows "replace_all (placeholder k) v (render segs) = render (map (fill [k \<mapsto> v]) segs)"
  using assms(1)
proof (induction segs)
  case Nil
  show ?case by (simp add: render_def replace_all.simps)
next
  case (Cons s segs)
  then have ok: "segment_ok s" by simp
  have r: "render (s # segs) = render_segment s @ render segs"
    "render (map (fill [k \<mapsto> v]) (s # segs)) = render_segment (fill [k \<mapsto> v] s) @ render (map (fill [k \<mapsto> v]) segs)"
    by (simp_all add: render_def)
  show ?case
  proof (cases s)
    case (Lit l)
    with ok Cons show ?thesis unfolding r by (simp add: replace_all_lit del: fun_upd_apply)
  next
    case (Hole k')
    show ?thesis
    proof (cases "k' = k")
      case True
      with Hole Cons show ?thesis unfolding r by (simp add: replace_all_hole_same fun_upd_same del: fun_upd_apply)
    next
      case False
      with Hole ok assms(2) Cons show ?thesis
        unfolding r by (simp add: replace_all_hole_other fun_upd_other del: segment_ok.simps fun_upd_apply)
    qed
  qed
qed

lemma fill_ok:
  "segment_ok s \<Longrightarrow> (\<And>v. f k = Some v \<Longrightarrow> CHR ''{'' \<notin> set v) \<Longrightarrow> (\<And>k v. f k = Some v \<Longrightarrow> CHR ''{'' \<notin> set v) \<Longrightarrow> segment_ok (fill f s)"
  by (cases s) (auto split: option.split)

lemma replace_params_render:
  assumes "gomap_ok ps"
    and "\<And>k v. (k, v) \<in> set ps \<Longrightarrow> segment_ok (Hole k) \<and> segment_ok (Lit v)"
    and "\<And>s. s \<in> set segs \<Longrightarrow> segment_ok s"
  shows "replace_params ps (render segs) = render (map (fill (map_of ps)) segs)"
  using assms
proof (induction ps arbitrary: segs)
  case Nil
  have "fill (map_of []) s = s" for s by (cases s) simp_all
  then show ?case by (simp add: map_idI)
next
  case (Cons p ps)
  obtain k v where p: "p = (k, v)" by (cases p)
  have kv: "segment_ok (Hole k)" "segment_ok (Lit v)" using Cons.prems(2) [of k v] p by auto
  let ?segs = "map (fill [k \<mapsto> v]) segs"
  have ok: "segment_ok s" if "s \<in> set ?segs" for s
  proof -
    from that obtain s' where s': "s' \<in> set segs" "s = fill [k \<mapsto> v] s'" by auto
    show ?thesis unfolding s'(2)
      by (rule fill_ok [OF Cons.prems(3) [OF s'(1)]]) (use kv in \<open>auto split: if_splits\<close>)
  qed
  have "replace_params (p # ps) (render segs) = replace_params ps (render ?segs)"
    using replace_all_render [of segs k v] Cons.prems(3) kv(1) p by simp
  also have "\<dots> = render (map (fill (map_of ps)) ?segs)"
    using Cons.prems ok by (intro Cons.IH) auto
  also have "map (fill (map_of ps)) ?segs = map (fill (map_of (p # ps))) segs"
  proof -
    have "fill (map_of ps) (fill [k \<mapsto> v] s) = fill (map_of (p # ps)) s" for s
      by (cases s) (auto simp: p)
    then show ?thesis by simp
  qed
  finally show ?case .
qed

text \<open>C13. Path generation is simultaneous substitution: on a pattern made of literal text and
  placeholders, with parameter values free of opening braces, every placeholder of a parameter is
  replaced by its value, every other one stays, and the order in which Go ranges over the
  parameters does not matter.\<close>

theorem generate_path_correct:
  assumes "gomap_ok ps" and "gomap_ok ps'" and "set ps' = set ps"
    and "\<forall>(k, v) \<in> set ps. segment_ok (Hole k) \<and> segment_ok (Lit v)"
    and "\<forall>s \<in> set segs. segment_ok s"
  shows "q_Path (generate_path (render segs) (r\<lparr>q_Params := ps\<rparr>)) = render (map (fill (map_of ps)) segs) \<and>
    q_Path (generate_path (render segs) (r\<lparr>q_Params := ps'\<rparr>)) = render (map (fill (map_of ps)) segs)"
proof -
  have gen: "q_Path (generate_path u (r\<lparr>q_Params := qs\<rparr>)) = replace_params qs u" for u qs
    by (simp add: generate_path_def)
  have "map_of ps' = map_of ps"
    using assms(1-3) by (intro map_of_eqI) (auto simp: map_of_eq_Some_iff)
  with assms replace_params_render [of ps segs] replace_params_render [of ps' segs]
  show ?thesis by (auto simp: gen)
qed

theorem generate_path_correct_witness:
  "q_Path (generate_path ''/u/{{.Id}}/{{.Tab}}'' (request_zero\<lparr>q_Params := [(''Tab'', ''t''), (''Id'', ''7'')]\<rparr>)) = ''/u/7/t''"
proof -
  let ?segs = "[Lit ''/u/'', Hole ''Id'', Lit ''/'', Hole ''Tab'']"
  have r: "render ?segs = ''/u/{{.Id}}/{{.Tab}}''" by (simp add: render_def placeholder_def)
  have "render (map (fill (map_of [(''Id'', ''7''), (''Tab'', ''t'')])) ?segs) = ''/u/7/t''"
    by (simp add: render_def)
  with generate_path_correct [of "[(''Id'', ''7''), (''Tab'', ''t'')]" "[(''Tab'', ''t''), (''Id'', ''7'')]" ?segs request_zero]
  show ?thesis unfolding r by auto
qed

text \<open>Without the restriction on values the order shows: a parameter value that itself reads like a
  placeholder, which a client can send in the path, is expanded to another parameter's value in
  one iteration order of the map and left alone in another.\<close>

theorem generate_path_injection:
  "\<exists>ps ps'. gomap_ok ps \<and> mset ps' = mset ps \<and>
     q_Path (generate_path ''/u/{{.Id}}'' (request_zero\<lparr>q_Params := ps\<rparr>)) = ''/u/secret'' \<and>
     q_Path (generate_path ''/u/{{.Id}}'' (request_zero\<lparr>q_Params := ps'\<rparr>)) = ''/u/{{.Token}}''"
proof -
  let ?a = "(''Id'', ''{{.Token}}'')" and ?b = "(''Token'', ''secret'')"
  have "q_Path (generate_path ''/u/{{.Id}}'' (request_zero\<lparr>q_Params := [?a, ?b]\<rparr>)) = ''/u/secret''"
    by code_simp
  moreover have "q_Path (generate_path ''/u/{{.Id}}'' (request_zero\<lparr>q_Params := [?b, ?a]\<rparr>)) = ''/u/{{.Token}}''"
    by code_simp
  moreover have "gomap_ok [?a, ?b]" and "mset [?b, ?a] = mset [?a, ?b]" by simp_all
  ultimately show ?thesis by blast
qed

end
