(* ===== verification/Middleware.thy ===== *)
theory Middleware
  imports Balancer Formatter Request
begin

text \<open>
  The middlewares of the proxy pipe that wrap a single proxy: request builder
  (\<open>src/proxy/http.go\<close>), header and query-string filters (\<open>src/proxy/headers_filter.go\<close>,
  \<open>src/proxy/query_strings_filter.go\<close>), load balancing (\<open>src/proxy/balancing.go\<close>), static data
  (\<open>src/proxy/static.go\<close>), flatmap (\<open>src/proxy/formatter.go\<close>), plugin modifiers
  (\<open>src/proxy/plugin.go\<close>) and logging (\<open>src/proxy/logging.go\<close>).

  A proxy here is a \<open>pipe\<close>: called in a world \<open>'w\<close> with a request, it panics or returns the response
  and error of the Go function, the request as the pointer it was given shows it afterwards, and the
  world. A middleware applied to a list of proxies is \<open>BFatal\<close> where the code logs a fatal error and
  returns a nil proxy, \<open>BPanics\<close> where it indexes an empty list, and \<open>Built p\<close> otherwise.
\<close>

section \<open>Pipes\<close>

datatype 'w ret = Panic | Ret "vresponse presult" request 'w

type_synonym 'w pipe = "'w \<Rightarrow> request \<Rightarrow> 'w ret"

datatype 'p built = BFatal | BPanics | Built 'p

definition lift_proxy :: "'w proxy \<Rightarrow> 'w pipe" where
  "lift_proxy p w r = (case p w r of (res, w') \<Rightarrow> Ret res r w')"

definition nil_pipe :: "'w pipe" where
  "nil_pipe w r = Panic"

text \<open>The common head of the middlewares: some take \<open>next[0]\<close> when they are built, some when called.\<close>

definition only_one :: "('w pipe \<Rightarrow> 'q) \<Rightarrow> 'w pipe list \<Rightarrow> 'q built" where
  "only_one f next =
     (if length next > 1 then BFatal
      else case next of [] \<Rightarrow> BPanics | p # _ \<Rightarrow> Built (f p))"

definition at_most_one :: "('w pipe \<Rightarrow> 'q) \<Rightarrow> 'w pipe list \<Rightarrow> 'q built" where
  "at_most_one f next =
     (if length next > 1 then BFatal
      else Built (f (case next of [] \<Rightarrow> nil_pipe | p # _ \<Rightarrow> p)))"

lemma only_one_single [simp]: "only_one f [p] = Built (f p)"
  by (simp add: only_one_def)

lemma at_most_one_single [simp]: "at_most_one f [p] = Built (f p)"
  by (simp add: at_most_one_def)

section \<open>Request builder\<close>

definition request_builder_call :: "backend \<Rightarrow> 'w pipe \<Rightarrow> 'w pipe" where
  "request_builder_call remote next w r =
     next w ((generate_path (b_URLPattern remote) r)\<lparr>q_Method := b_Method remote\<rparr>)"

definition new_request_builder_middleware :: "backend \<Rightarrow> 'w pipe list \<Rightarrow> 'w pipe built" where
  "new_request_builder_middleware remote = at_most_one (request_builder_call remote)"

section \<open>Header and query-string filters\<close>

definition count_passing :: "string list \<Rightarrow> 'v gomap \<Rightarrow> nat" where
  "count_passing ks m = length (filter (\<lambda>v. map_of m v \<noteq> None) ks)"

fun listed_entries :: "string list \<Rightarrow> 'v gomap \<Rightarrow> 'v gomap \<Rightarrow> 'v gomap" where
  "listed_entries [] m acc = acc"
| "listed_entries (v # vs) m acc =
     (case map_of m v of
        Some values \<Rightarrow> listed_entries vs m (AList.update v values acc)
      | None \<Rightarrow> listed_entries vs m acc)"

text \<open>A call with a new request leaves the caller's alone.\<close>

definition keep_request :: "request \<Rightarrow> 'w ret \<Rightarrow> 'w ret" where
  "keep_request r x = (case x of Panic \<Rightarrow> Panic | Ret res _ w \<Rightarrow> Ret res r w)"

definition filter_headers_call :: "backend \<Rightarrow> 'w pipe \<Rightarrow> 'w pipe" where
  "filter_headers_call remote next w r =
     (if q_Headers r = [] then next w r
      else if count_passing (b_HeadersToPass remote) (q_Headers r) = length (q_Headers r) then next w r
      else keep_request r
        (next w (r\<lparr>q_Headers := listed_entries (b_HeadersToPass remote) (q_Headers r) []\<rparr>)))"

definition new_filter_headers_middleware :: "backend \<Rightarrow> 'w pipe list \<Rightarrow> 'w pipe built" where
  "new_filter_headers_middleware remote =
     (if b_HeadersToPass remote = [] then only_one (\<lambda>p. p) else only_one (filter_headers_call remote))"

definition filter_query_strings_call :: "backend \<Rightarrow> 'w pipe \<Rightarrow> 'w pipe" where
  "filter_query_strings_call remote next w r =
     (if q_Query r = [] then next w r
      else if count_passing (b_QueryStringsToPass remote) (q_Query r) = length (q_Query r) then next w r
      else keep_request r
        (next w (r\<lparr>q_Query := listed_entries (b_QueryStringsToPass remote) (q_Query r) []\<rparr>)))"

definition new_filter_query_strings_middleware :: "backend \<Rightarrow> 'w pipe list \<Rightarrow> 'w pipe built" where
  "new_filter_query_strings_middleware remote =
     (if b_QueryStringsToPass remote = [] then only_one (\<lambda>p. p)
      else only_one (filter_query_strings_call remote))"

section \<open>Load balancing\<close>

text \<open>\<open>url.Values.Encode\<close> and \<open>url.QueryEscape\<close>: sorted keys, every byte but the unreserved ones as two
  hexadecimal digits, a blank as a plus sign.\<close>

definition unreserved_char :: "char \<Rightarrow> bool" where
  "unreserved_char c \<longleftrightarrow>
     c \<in> set ''abcdefghijklmnopqrstuvwxyzABCDEFGHIJKLMNOPQRSTUVWXYZ0123456789-_.~''"

definition hex_digit :: "nat \<Rightarrow> char" where
  "hex_digit n = ''0123456789ABCDEF'' ! n"

definition escape_char :: "char \<Rightarrow> string" where
  "escape_char c =
     (if unreserved_char c then [c] else if c = CHR '' '' then ''+''
      else [CHR ''%'', hex_digit (of_char c div 16), hex_digit (of_char c mod 16)])"

definition query_escape :: "string \<Rightarrow> string" where
  "query_escape s = concat (map escape_char s)"

definition encode_query :: "string list gomap \<Rightarrow> string" where
  "encode_query q =
     join_with ''&'' (concat (map (\<lambda>(k, vs). map (\<lambda>v. query_escape k @ ''='' @ query_escape v) vs)
       (sort_key fst q)))"

definition append_query :: "url \<Rightarrow> string list gomap \<Rightarrow> url" where
  "append_query u q =
     (if q = [] then u
      else if u_RawQuery u \<noteq> [] then u\<lparr>u_RawQuery := u_RawQuery u @ ''&'' @ encode_query q\<rparr>
      else u\<lparr>u_RawQuery := u_RawQuery u @ encode_query q\<rparr>)"

text \<open>The middleware over any balancer, whose state is in the world; \<open>parse\<close> is \<open>url.Parse\<close>.\<close>

definition load_balanced_call ::
  "('w \<Rightarrow> 'b \<Rightarrow> (goerror + string) \<times> 'b) \<Rightarrow> (string \<Rightarrow> goerror + url) \<Rightarrow> 'w pipe \<Rightarrow> ('b \<times> 'w) pipe" where
  "load_balanced_call pick parse next bw r =
     (case bw of (b, w) \<Rightarrow>
        (case pick w b of
           (Inl e, b') \<Rightarrow> Ret (None, Some e) r (b', w)
         | (Inr host, b') \<Rightarrow>
             (case parse (host @ q_Path r) of
                Inl e \<Rightarrow> Ret (None, Some e) (r\<lparr>q_URL := None\<rparr>) (b', w)
              | Inr u \<Rightarrow>
                  (case next w (r\<lparr>q_URL := Some (append_query u (q_Query r))\<rparr>) of
                     Panic \<Rightarrow> Panic
                   | Ret res r' w' \<Rightarrow> Ret res r' (b', w')))))"

definition new_load_balanced_middleware ::
  "(nat \<Rightarrow> nat) \<Rightarrow> (string \<Rightarrow> goerror + url) \<Rightarrow> 'w pipe list \<Rightarrow> ('w balancer \<times> 'w) pipe built" where
  "new_load_balanced_middleware rnd parse = at_most_one (load_balanced_call (balancer_host rnd) parse)"

section \<open>Static data\<close>

record static_config =
  st_Data :: gobj
  st_Strategy :: string

definition static_match :: "string \<Rightarrow> vresponse option \<Rightarrow> goerror option \<Rightarrow> bool" where
  "static_match strategy r err =
     (if strategy = ''success'' then err = None
      else if strategy = ''errored'' then err \<noteq> None
      else if strategy = ''complete'' then
        err = None \<and> (case r of None \<Rightarrow> False | Some x \<Rightarrow> r_IsComplete x)
      else if strategy = ''incomplete'' then
        (case r of None \<Rightarrow> True | Some x \<Rightarrow> \<not> r_IsComplete x)
      else True)"

definition get_static_middleware_cfg :: "extra_config \<Rightarrow> static_config option" where
  "get_static_middleware_cfg extra =
     (case ec_map extra proxy_Namespace of
        None \<Rightarrow> None
      | Some e \<Rightarrow>
          (case ec_map e ''static'' of
             None \<Rightarrow> None
           | Some tmp \<Rightarrow>
               (case ec_map tmp ''data'' of
                  None \<Rightarrow> None
                | Some data \<Rightarrow>
                    Some \<lparr>st_Data = data,
                      st_Strategy = (case ec_string tmp ''strategy'' of None \<Rightarrow> ''always'' | Some s \<Rightarrow> s)\<rparr>)))"

definition empty_response :: vresponse where
  "empty_response =
     \<lparr>r_Data = Some [], r_IsComplete = False, r_Headers = [], r_StatusCode = 0, r_Io = None\<rparr>"

definition add_static :: "gobj \<Rightarrow> vresponse option \<Rightarrow> vresponse" where
  "add_static data result =
     (let x = (case result of
                 None \<Rightarrow> empty_response
               | Some x \<Rightarrow> (case r_Data x of None \<Rightarrow> x\<lparr>r_Data := Some []\<rparr> | Some _ \<Rightarrow> x))
      in x\<lparr>r_Data := Some (write_all (odata (r_Data x)) data)\<rparr>)"

definition static_call :: "static_config \<Rightarrow> 'w pipe \<Rightarrow> 'w pipe" where
  "static_call cfg next w r =
     (case next w r of
        Panic \<Rightarrow> Panic
      | Ret (result, err) r' w' \<Rightarrow>
          (if \<not> static_match (st_Strategy cfg) result err then Ret (result, err) r' w'
           else Ret (Some (add_static (st_Data cfg) result), err) r' w'))"

definition new_static_middleware :: "endpoint_config \<Rightarrow> 'w pipe list \<Rightarrow> 'w pipe built" where
  "new_static_middleware endpointConfig =
     (case get_static_middleware_cfg (e_ExtraConfig endpointConfig) of
        None \<Rightarrow> only_one (\<lambda>p. p)
      | Some cfg \<Rightarrow> at_most_one (static_call cfg))"

section \<open>Flatmap\<close>

definition flatmap_call :: "'t flat_tree \<Rightarrow> flatmap_formatter \<Rightarrow> 'w pipe \<Rightarrow> 'w pipe" where
  "flatmap_call T f next w r =
     (case next w r of
        Panic \<Rightarrow> Panic
      | Ret (resp, Some e) r' w' \<Rightarrow> Ret (resp, Some e) r' w'
      | Ret (None, None) r' w' \<Rightarrow> Panic
      | Ret (Some x, None) r' w' \<Rightarrow>
          (case format_flatmap T f (r_Data x) of
             None \<Rightarrow> Panic
           | Some d \<Rightarrow> Ret (Some (x\<lparr>r_Data := d\<rparr>), None) r' w'))"

definition new_flatmap_middleware :: "'t flat_tree \<Rightarrow> endpoint_config \<Rightarrow> 'w pipe list \<Rightarrow> 'w pipe built" where
  "new_flatmap_middleware T cfg =
     (case new_flatmap_formatter (e_ExtraConfig cfg) [] [] of
        None \<Rightarrow> only_one (\<lambda>p. p)
      | Some f \<Rightarrow> at_most_one (flatmap_call T f))"

section \<open>Plugin modifiers\<close>

text \<open>
  A modifier is plugin code: given what it is passed, it fails, or returns a wrapper, or something
  else (\<open>None\<close>). A request wrapper shows the fields of the request, a response wrapper those of the
  response and the request. The registers map a name to a factory, which makes a modifier, or nil.
\<close>

type_synonym ('w, 'a) modifier = "'w \<Rightarrow> 'a \<Rightarrow> (goerror + 'a option) \<times> 'w"
type_synonym ('w, 'a) modifier_factory = "gobj \<Rightarrow> ('w, 'a) modifier option"

fun run_modifiers :: "('w, 'a) modifier list \<Rightarrow> 'w \<Rightarrow> 'a \<Rightarrow> (goerror + 'a) \<times> 'w" where
  "run_modifiers [] w tmp = (Inr tmp, w)"
| "run_modifiers (f # fs) w tmp =
     (case f w tmp of
        (Inl e, w') \<Rightarrow> (Inl e, w')
      | (Inr None, w') \<Rightarrow> run_modifiers fs w' tmp
      | (Inr (Some t), w') \<Rightarrow> run_modifiers fs w' t)"

definition execute_request_modifiers ::
  "('w, request) modifier list \<Rightarrow> 'w \<Rightarrow> request \<Rightarrow> (goerror + request) \<times> 'w" where
  "execute_request_modifiers ms w r =
     (case run_modifiers ms w r of
        (Inl e, w') \<Rightarrow> (Inl e, w')
      | (Inr tmp, w') \<Rightarrow>
          (Inr (r\<lparr>q_Method := q_Method tmp, q_URL := q_URL tmp, q_Query := q_Query tmp,
                  q_Path := q_Path tmp, q_Body := q_Body tmp, q_Params := q_Params tmp,
                  q_Headers := q_Headers tmp\<rparr>), w'))"

text \<open>\<open>None\<close> for a nil response, whose fields are read.\<close>

definition execute_response_modifiers ::
  "('w, request \<times> vresponse) modifier list \<Rightarrow> 'w \<Rightarrow> vresponse option \<Rightarrow> request \<Rightarrow>
   (vresponse presult \<times> 'w) option" where
  "execute_response_modifiers ms w resp req =
     (case resp of
        None \<Rightarrow> None
      | Some x \<Rightarrow>
          (case run_modifiers ms w (req, x) of
             (Inl e, w') \<Rightarrow> Some ((None, Some e), w')
           | (Inr (_, tmp), w') \<Rightarrow>
               Some ((Some (x\<lparr>r_Data := r_Data tmp, r_IsComplete := r_IsComplete tmp, r_Io := r_Io tmp,
                             r_Headers := r_Headers tmp, r_StatusCode := r_StatusCode tmp\<rparr>), None), w')))"

text \<open>The loop over the plugin names: a name registered for requests is not looked up for responses.\<close>

fun select_modifiers ::
  "(string \<Rightarrow> ('w, request) modifier_factory option) \<Rightarrow>
   (string \<Rightarrow> ('w, request \<times> vresponse) modifier_factory option) \<Rightarrow> gobj \<Rightarrow> gval list \<Rightarrow>
   ('w, request) modifier list \<times> ('w, request \<times> vresponse) modifier list" where
  "select_modifiers reqs resps cfg [] = ([], [])"
| "select_modifiers reqs resps cfg (p # ps) =
     (case select_modifiers reqs resps cfg ps of (as, bs) \<Rightarrow>
        (case p of
           VString name \<Rightarrow>
             (case reqs name of
                Some mf \<Rightarrow> (case mf cfg of None \<Rightarrow> (as, bs) | Some fn \<Rightarrow> (fn # as, bs))
              | None \<Rightarrow>
                  (case resps name of
                     Some mf \<Rightarrow> (case mf cfg of None \<Rightarrow> (as, bs) | Some fn \<Rightarrow> (as, fn # bs))
                   | None \<Rightarrow> (as, bs)))
         | _ \<Rightarrow> (as, bs)))"

definition finish_plugins ::
  "('w, request \<times> vresponse) modifier list \<Rightarrow> 'w ret \<Rightarrow> 'w ret" where
  "finish_plugins resps x =
     (case x of
        Panic \<Rightarrow> Panic
      | Ret (resp, Some e) r' w' \<Rightarrow> Ret (resp, Some e) r' w'
      | Ret (resp, None) r' w' \<Rightarrow>
          (case execute_response_modifiers resps w' resp r' of
             None \<Rightarrow> Panic
           | Some (res, w'') \<Rightarrow> Ret res r' w''))"

definition plugin_call ::
  "('w, request) modifier list \<Rightarrow> ('w, request \<times> vresponse) modifier list \<Rightarrow> 'w pipe \<Rightarrow> 'w pipe" where
  "plugin_call reqs resps next w r =
     (if reqs = [] then finish_plugins resps (next w r)
      else if resps = [] then
        (case execute_request_modifiers reqs w r of
           (Inl e, w') \<Rightarrow> Ret (None, Some e) r w'
         | (Inr r', w') \<Rightarrow> next w' r')
      else
        (case execute_request_modifiers reqs w r of
           (Inl e, w') \<Rightarrow> Ret (None, Some e) r w'
         | (Inr r', w') \<Rightarrow> finish_plugins resps (next w' r')))"

definition plugin_Namespace :: string where
  "plugin_Namespace = ''github.com/pucora/pucora/proxy/plugin''"

definition plugin_middleware ::
  "(string \<Rightarrow> ('w, request) modifier_factory option) \<Rightarrow>
   (string \<Rightarrow> ('w, request \<times> vresponse) modifier_factory option) \<Rightarrow> gobj \<Rightarrow> 'w pipe list \<Rightarrow> 'w pipe built" where
  "plugin_middleware reqs resps cfg =
     (case ec_list cfg ''name'' of
        None \<Rightarrow> only_one (\<lambda>p. p)
      | Some plugins \<Rightarrow>
          (case select_modifiers reqs resps cfg plugins of (as, bs) \<Rightarrow>
             (if length as = length bs \<and> length bs = 0 then only_one (\<lambda>p. p)
              else at_most_one (plugin_call as bs))))"

definition new_plugin_middleware ::
  "(string \<Rightarrow> ('w, request) modifier_factory option) \<Rightarrow>
   (string \<Rightarrow> ('w, request \<times> vresponse) modifier_factory option) \<Rightarrow> extra_config \<Rightarrow>
   'w pipe list \<Rightarrow> 'w pipe built" where
  "new_plugin_middleware reqs resps extra =
     (case ec_map extra plugin_Namespace of
        None \<Rightarrow> only_one (\<lambda>p. p)
      | Some cfg \<Rightarrow> plugin_middleware reqs resps cfg)"

section \<open>Logging\<close>

text \<open>\<open>NewLoggingMiddleware\<close>: the messages with their level, then the result of the proxy as it is.\<close>

datatype log_level = LDebug | LInfo | LWarning | LError | LCritical | LFatal

definition logging_call :: "string \<Rightarrow> 'w pipe \<Rightarrow> ((log_level \<times> string) list \<times> 'w) pipe" where
  "logging_call pre next lw r =
     (case lw of (l, w) \<Rightarrow>
        (case next w r of
           Panic \<Rightarrow> Panic
         | Ret (result, err) r' w' \<Rightarrow>
             Ret (result, err) r'
               (l @ [(LInfo, pre @ ''Calling backend''), (LDebug, pre @ ''Request''),
                     (LInfo, pre @ ''Call to backend took'')] @
                (case (err, result) of
                   (Some e, _) \<Rightarrow> [(LWarning, pre @ ''Call to backend failed:'' @ error_text e)]
                 | (None, None) \<Rightarrow> [(LWarning, pre @ ''Call to backend returned a null response'')]
                 | (None, Some _) \<Rightarrow> []), w')))"

definition new_logging_middleware :: "string \<Rightarrow> 'w pipe list \<Rightarrow> ((log_level \<times> string) list \<times> 'w) pipe built" where
  "new_logging_middleware name = at_most_one (logging_call (''['' @ to_upper name @ '']''))"

section \<open>What the filters let through\<close>

text \<open>What the caller of a proxy sees, without the request.\<close>

definition outcome :: "'w ret \<Rightarrow> (vresponse presult \<times> 'w) option" where
  "outcome x = (case x of Panic \<Rightarrow> None | Ret res _ w \<Rightarrow> Some (res, w))"

lemma outcome_simps [simp]:
  "outcome Panic = None" "outcome (Ret res r w) = Some (res, w)"
  "outcome (keep_request r x) = outcome x"
  by (simp_all add: outcome_def keep_request_def split: ret.split)

lemma map_of_listed_entries:
  "map_of (listed_entries vs m acc) k =
     (if k \<in> set vs \<and> map_of m k \<noteq> None then map_of m k else map_of acc k)"
  by (induction vs m acc rule: listed_entries.induct) (auto simp: gomap_simps split: option.split)

lemma gomap_ok_listed_entries [intro]: "gomap_ok acc \<Longrightarrow> gomap_ok (listed_entries vs m acc)"
  by (induction vs m acc rule: listed_entries.induct) (auto split: option.split)

text \<open>A list without duplicates that has as many of the map's keys as the map has, has all of them.\<close>

lemma count_passing_all:
  assumes "distinct ks" and "gomap_ok m" and "count_passing ks m = length m" and "map_of m k \<noteq> None"
  shows "k \<in> set ks"
proof -
  let ?ks = "filter (\<lambda>v. map_of m v \<noteq> None) ks"
  have "set ?ks \<subseteq> set (map fst m)" by (auto dest: map_of_SomeD intro: rev_image_eqI)
  moreover have "card (set ?ks) = card (set (map fst m))"
    using assms(1-3) distinct_card [of ?ks] distinct_card [of "map fst m"]
    by (simp add: count_passing_def)
  ultimately have "set ?ks = set (map fst m)" by (simp add: card_subset_eq)
  moreover from assms(4) have "k \<in> set (map fst m)" by (auto dest: map_of_SomeD intro: rev_image_eqI)
  ultimately show ?thesis by auto
qed

definition restricted :: "string list \<Rightarrow> 'v gomap \<Rightarrow> 'v gomap \<Rightarrow> bool" where
  "restricted ks m h \<longleftrightarrow> gomap_ok h \<and> (\<forall>k. map_of h k = (if k \<in> set ks then map_of m k else None))"

lemma restricted_listed: "restricted ks m (listed_entries ks m [])"
  by (auto simp: restricted_def map_of_listed_entries)

lemma restricted_all:
  assumes "distinct ks" and "gomap_ok m" and "count_passing ks m = length m"
  shows "restricted ks m m"
proof -
  have "map_of m k = None" if "k \<notin> set ks" for k
    using that count_passing_all [OF assms, of k] by blast
  with assms(2) show ?thesis by (simp add: restricted_def)
qed

text \<open>The headers and the query strings that reach the next proxy are exactly the listed ones.\<close>

lemma filter_choice:
  assumes "distinct ks" and "gomap_ok m" and "\<And>h. outcome (g h) = outcome (f h)"
  shows "\<exists>h. restricted ks m h \<and>
    outcome (if m = [] then f m else if count_passing ks m = length m then f m else g (listed_entries ks m [])) =
    outcome (f h)"
proof (cases "m = [] \<or> count_passing ks m = length m")
  case True
  with assms have "restricted ks m m"
    by (auto simp: count_passing_def intro: restricted_all)
  with True show ?thesis by auto
next
  case False
  with assms(3) restricted_listed [of ks m] show ?thesis by auto
qed

lemma keep_headers [simp]: "r\<lparr>q_Headers := q_Headers r\<rparr> = (r :: request)"
  by (cases r) simp

lemma keep_query [simp]: "r\<lparr>q_Query := q_Query r\<rparr> = (r :: request)"
  by (cases r) simp

lemma filter_headers_restricts:
  assumes "distinct (b_HeadersToPass remote)" and "gomap_ok (q_Headers r)"
  shows "\<exists>h. restricted (b_HeadersToPass remote) (q_Headers r) h \<and>
    outcome (filter_headers_call remote next w r) = outcome (next w (r\<lparr>q_Headers := h\<rparr>))"
  using filter_choice [OF assms, of "\<lambda>h. keep_request r (next w (r\<lparr>q_Headers := h\<rparr>))" "\<lambda>h. next w (r\<lparr>q_Headers := h\<rparr>)"]
  unfolding filter_headers_call_def keep_headers by (simp only: outcome_simps)

lemma filter_query_strings_restricts:
  assumes "distinct (b_QueryStringsToPass remote)" and "gomap_ok (q_Query r)"
  shows "\<exists>h. restricted (b_QueryStringsToPass remote) (q_Query r) h \<and>
    outcome (filter_query_strings_call remote next w r) = outcome (next w (r\<lparr>q_Query := h\<rparr>))"
  using filter_choice [OF assms, of "\<lambda>h. keep_request r (next w (r\<lparr>q_Query := h\<rparr>))" "\<lambda>h. next w (r\<lparr>q_Query := h\<rparr>)"]
  unfolding filter_query_strings_call_def keep_query by (simp only: outcome_simps)

text \<open>Both filters count the entries of their list, so a list that names a header twice can let all
  the headers through.\<close>

lemma duplicate_entry_passes_all:
  assumes "map_of (q_Headers r) a = Some x" and "length (q_Headers r) = 2"
    and "b_HeadersToPass remote = [a, a]"
  shows "filter_headers_call remote next w r = next w r"
  using assms by (auto simp: filter_headers_call_def count_passing_def)

section \<open>What the middlewares establish\<close>

text \<open>The pipeline of modifiers, without the cases the code tells apart.\<close>

definition modifier_pipeline ::
  "('w, request) modifier list \<Rightarrow> ('w, request \<times> vresponse) modifier list \<Rightarrow> 'w pipe \<Rightarrow> 'w pipe" where
  "modifier_pipeline reqs resps next w r =
    (case run_modifiers reqs w r of
       (Inl e, w') \<Rightarrow> Ret (None, Some e) r w'
     | (Inr r', w') \<Rightarrow>
         (case next w' r' of
            Ret (Some x, None) r'' w'' \<Rightarrow>
              (case run_modifiers resps w'' (r'', x) of
                 (Inl e, w3) \<Rightarrow> Ret (None, Some e) r'' w3
               | (Inr t, w3) \<Rightarrow> Ret (Some (snd t), None) r'' w3)
          | Ret (None, None) r'' w'' \<Rightarrow> if resps = [] then Ret (None, None) r'' w'' else Panic
          | y \<Rightarrow> y))"

lemma execute_request_modifiers_eq: "execute_request_modifiers ms w r = run_modifiers ms w r"
  by (auto simp: execute_request_modifiers_def split: prod.split sum.split)

lemma execute_response_modifiers_eq:
  "execute_response_modifiers ms w (Some x) req =
     (case run_modifiers ms w (req, x) of
        (Inl e, w') \<Rightarrow> Some ((None, Some e), w')
      | (Inr t, w') \<Rightarrow> Some ((Some (snd t), None), w'))"
  by (auto simp: execute_response_modifiers_def split: prod.split sum.split)

lemma finish_plugins_eq:
  "resps \<noteq> [] \<Longrightarrow> finish_plugins resps x =
    (case x of
       Ret (Some y, None) r w \<Rightarrow>
         (case run_modifiers resps w (r, y) of
            (Inl e, w') \<Rightarrow> Ret (None, Some e) r w'
          | (Inr t, w') \<Rightarrow> Ret (Some (snd t), None) r w')
     | Ret (None, None) r w \<Rightarrow> Panic
     | y \<Rightarrow> y)"
  by (auto simp: finish_plugins_def execute_response_modifiers_eq execute_response_modifiers_def [of _ _ None]
      split: ret.split option.split prod.split sum.split)

lemma plugin_call_pipeline:
  assumes "reqs \<noteq> [] \<or> resps \<noteq> []"
  shows "plugin_call reqs resps next w r = modifier_pipeline reqs resps next w r"
  using assms
  by (cases "reqs = []"; cases "resps = []")
     (auto simp: plugin_call_def modifier_pipeline_def execute_request_modifiers_eq finish_plugins_eq
      split: ret.split option.split prod.split sum.split)

lemma empty_pipeline: "modifier_pipeline [] [] next = next"
  by (intro ext) (auto simp: modifier_pipeline_def split: ret.split option.split)

lemma new_plugin_middleware_single:
  "new_plugin_middleware rq rs extra [next] =
    Built (case ec_map extra plugin_Namespace of
        None \<Rightarrow> next
      | Some cfg \<Rightarrow>
          (case ec_list cfg ''name'' of
             None \<Rightarrow> next
           | Some names \<Rightarrow>
               (case select_modifiers rq rs cfg names of (as, bs) \<Rightarrow> modifier_pipeline as bs next)))"
proof -
  have eq: "plugin_call as bs next = modifier_pipeline as bs next" if "as \<noteq> [] \<or> bs \<noteq> []" for as bs
    by (intro ext plugin_call_pipeline that)
  then have eq': "plugin_call as bs next = modifier_pipeline as bs next" if "length as \<noteq> length bs" for as bs
    using that by (cases as) auto
  show ?thesis
    by (auto simp: new_plugin_middleware_def plugin_middleware_def eq eq' empty_pipeline
        split: option.split prod.split)
qed

lemma select_modifiers_eq:
  "select_modifiers rq rs cfg names =
    (List.map_filter (\<lambda>p. case p of
        VString name \<Rightarrow> (case rq name of None \<Rightarrow> None | Some mf \<Rightarrow> mf cfg) | _ \<Rightarrow> None) names,
     List.map_filter (\<lambda>p. case p of
        VString name \<Rightarrow>
          if rq name \<noteq> None then None else (case rs name of None \<Rightarrow> None | Some mf \<Rightarrow> mf cfg)
      | _ \<Rightarrow> None) names)"
  by (induction names) (simp_all add: List.map_filter_simps split: gval.split option.split)

text \<open>C40. The pipeline of a plugin middleware: the request modifiers in the order in which the configuration
  names them, the next proxy, and the response modifiers in that order. A name stands for the request modifier
  registered under it, and only when there is none for the response modifier; an entry that is no name, a
  name that is not registered and a factory that makes nothing are passed over. The first failing modifier
  ends the pipeline, and when a request modifier fails the next proxy is not called. The cases the code
  tells apart, no modifiers at all among them, are this one pipeline; it panics on a nil response without an
  error when there is a response modifier.\<close>

theorem plugin_pipeline:
  "new_plugin_middleware rq rs extra [next] =
    Built (case ec_map extra plugin_Namespace of
        None \<Rightarrow> next
      | Some cfg \<Rightarrow>
          (case ec_list cfg ''name'' of
             None \<Rightarrow> next
           | Some names \<Rightarrow>
               modifier_pipeline
                 (List.map_filter (\<lambda>p. case p of
                    VString name \<Rightarrow> (case rq name of None \<Rightarrow> None | Some mf \<Rightarrow> mf cfg) | _ \<Rightarrow> None) names)
                 (List.map_filter (\<lambda>p. case p of
                    VString name \<Rightarrow>
                      if rq name \<noteq> None then None else (case rs name of None \<Rightarrow> None | Some mf \<Rightarrow> mf cfg)
                  | _ \<Rightarrow> None) names)
                 next))"
  using new_plugin_middleware_single [of rq rs extra "next"] by (simp only: select_modifiers_eq prod.case)

text \<open>The statically configured data: when the strategy matches, its keys win over those of the response
  and every other key, the error and the status are left alone.\<close>

lemma map_of_add_static:
  assumes "gomap_ok data" and "gomap_ok (case x of None \<Rightarrow> [] | Some y \<Rightarrow> odata (r_Data y))"
  shows "map_of (odata (r_Data (add_static data x))) k =
    (case map_of data k of Some v \<Rightarrow> Some v
     | None \<Rightarrow> (case x of None \<Rightarrow> None | Some y \<Rightarrow> map_of (odata (r_Data y)) k))"
  using assms by (auto simp: add_static_def Let_def empty_response_def gomap_simps map_add_def split: option.split)

text \<open>Static data: a proxy with a static configuration calls the backend first; when the strategy
  does not match the outcome, it is passed on as it is, and otherwise the keys of the configuration
  win over those of the response, which it gets if there was none; the error is returned all the same.\<close>

theorem static_correct:
  assumes "gomap_ok (st_Data cfg)" and "next w r = Ret (x, err) r' w'"
    and "gomap_ok (case x of None \<Rightarrow> [] | Some y \<Rightarrow> odata (r_Data y))"
  shows "case static_call cfg next w r of
      Panic \<Rightarrow> False
    | Ret (x', err') r'' w'' \<Rightarrow>
        err' = err \<and> r'' = r' \<and> w'' = w' \<and>
        (if static_match (st_Strategy cfg) x err
         then (\<exists>y'. x' = Some y' \<and>
           (\<forall>k. map_of (odata (r_Data y')) k =
              (case map_of (st_Data cfg) k of Some v \<Rightarrow> Some v
               | None \<Rightarrow> (case x of None \<Rightarrow> None | Some y \<Rightarrow> map_of (odata (r_Data y)) k))) \<and>
           r_IsComplete y' = (case x of None \<Rightarrow> False | Some y \<Rightarrow> r_IsComplete y))
         else x' = x)"
  using assms(2) map_of_add_static [OF assms(1,3)]
  by (auto simp: static_call_def add_static_def Let_def empty_response_def split: option.split)

theorem static_correct_witness:
  "case static_call \<lparr>st_Data = [(''a'', VInt 1)], st_Strategy = ''errored''\<rparr>
      (\<lambda>w r. Ret (None, Some ErrNoHosts) r w) () request_zero of
      Panic \<Rightarrow> False
    | Ret (x', err') r'' w'' \<Rightarrow> err' = Some ErrNoHosts \<and> (\<exists>y'. x' = Some y' \<and> map_of (odata (r_Data y')) ''a'' = Some (VInt 1))"
  using static_correct [of "\<lparr>st_Data = [(''a'', VInt 1)], st_Strategy = ''errored''\<rparr>"
      "\<lambda>w r. Ret (None, Some ErrNoHosts) r w" "()" request_zero None "Some ErrNoHosts" request_zero "()"]
  by (auto simp: static_match_def split: ret.splits)

section \<open>The load balancer in the pipe\<close>

context host_picker
begin

lemma load_balanced_ok:
  assumes "view w b = Inr hs" and "hs \<noteq> []" and "\<And>h. h \<in> set hs \<Longrightarrow> parse (h @ q_Path r) = Inr (u h)"
  shows "\<exists>h b'. h \<in> set hs \<and> (\<forall>v. view v b' = view v b) \<and>
    outcome (load_balanced_call pick parse p (b, w) r) =
      map_option (\<lambda>(res, w'). (res, b', w'))
        (outcome (p w (r\<lparr>q_URL := Some (append_query (u h) (q_Query r))\<rparr>)))"
proof -
  from pick_succeeds [OF assms(1,2)] obtain h b' where h: "pick w b = (Inr h, b')" "h \<in> set hs" by blast
  with assms(3) pick_view [OF h(1)] show ?thesis
    by (intro exI [of _ h] exI [of _ b']) (auto simp: load_balanced_call_def split: ret.split)
qed

lemma load_balanced_no_host:
  assumes "view w b = Inr [] \<or> view w b = Inl e"
  shows "\<exists>e' b'. load_balanced_call pick parse p (b, w) r = Ret (None, Some e') r (b', w)"
  using assms
  by (cases "pick w b"; cases "fst (pick w b)") (auto simp: load_balanced_call_def dest!: pick_host)

end

end
