(* ===== verification/Logging.thy ===== *)
theory Logging
  imports Middleware
begin

text \<open>
  The basic logger (\<open>src/logging/log.go\<close>): its levels, what it prints and when it ends the process, and
  the logging middleware of \<open>Middleware\<close> run over it. A line is the list of operands of \<open>Println\<close>;
  date and writer are the standard library's.
\<close>

section \<open>Levels\<close>

definition LEVEL_DEBUG :: int where "LEVEL_DEBUG = 0"
definition LEVEL_INFO :: int where "LEVEL_INFO = 1"
definition LEVEL_WARNING :: int where "LEVEL_WARNING = 2"
definition LEVEL_ERROR :: int where "LEVEL_ERROR = 3"
definition LEVEL_CRITICAL :: int where "LEVEL_CRITICAL = 4"

definition log_levels :: "int gomap" where
  "log_levels =
     [(''DEBUG'', LEVEL_DEBUG), (''INFO'', LEVEL_INFO), (''WARNING'', LEVEL_WARNING),
      (''ERROR'', LEVEL_ERROR), (''CRITICAL'', LEVEL_CRITICAL)]"

definition ErrInvalidLogLevel :: goerror where "ErrInvalidLogLevel = ErrMsg ''invalid log level''"

record 'o basic_logger =
  bl_Level :: int
  bl_Prefix :: string
  bl_Out :: 'o

definition default_logger :: "'o \<Rightarrow> 'o basic_logger" where
  "default_logger stderr = \<lparr>bl_Level = LEVEL_CRITICAL, bl_Prefix = [], bl_Out = stderr\<rparr>"

definition new_logger :: "'o \<Rightarrow> string \<Rightarrow> 'o \<Rightarrow> string \<Rightarrow> 'o basic_logger \<times> goerror option" where
  "new_logger stderr level out pre =
     (case map_of log_levels (to_upper level) of
        None \<Rightarrow> (default_logger stderr, Some ErrInvalidLogLevel)
      | Some l \<Rightarrow> (\<lparr>bl_Level = l, bl_Prefix = pre, bl_Out = out\<rparr>, None))"

section \<open>Printing\<close>

text \<open>What a component tells a logger: the levels and the operands.\<close>

type_synonym messages = "(log_level \<times> string list) list"

text \<open>What has been printed, and whether the process has ended.\<close>

type_synonym log_output = "string list list \<times> bool"

definition prepend_log :: "'o basic_logger \<Rightarrow> string \<Rightarrow> string list \<Rightarrow> log_output \<Rightarrow> log_output" where
  "prepend_log l level v out = (case out of (ls, dead) \<Rightarrow> (ls @ [[bl_Prefix l, level] @ v], dead))"

definition log_Debug :: "'o basic_logger \<Rightarrow> string list \<Rightarrow> log_output \<Rightarrow> log_output" where
  "log_Debug l v out = (if bl_Level l > LEVEL_DEBUG then out else prepend_log l ''DEBUG:'' v out)"

definition log_Info :: "'o basic_logger \<Rightarrow> string list \<Rightarrow> log_output \<Rightarrow> log_output" where
  "log_Info l v out = (if bl_Level l > LEVEL_INFO then out else prepend_log l ''INFO:'' v out)"

definition log_Warning :: "'o basic_logger \<Rightarrow> string list \<Rightarrow> log_output \<Rightarrow> log_output" where
  "log_Warning l v out = (if bl_Level l > LEVEL_WARNING then out else prepend_log l ''WARNING:'' v out)"

definition log_Error :: "'o basic_logger \<Rightarrow> string list \<Rightarrow> log_output \<Rightarrow> log_output" where
  "log_Error l v out = (if bl_Level l > LEVEL_ERROR then out else prepend_log l ''ERROR:'' v out)"

definition log_Critical :: "'o basic_logger \<Rightarrow> string list \<Rightarrow> log_output \<Rightarrow> log_output" where
  "log_Critical l v out = prepend_log l ''CRITICAL:'' v out"

definition log_Fatal :: "'o basic_logger \<Rightarrow> string list \<Rightarrow> log_output \<Rightarrow> log_output" where
  "log_Fatal l v out = (fst (prepend_log l ''FATAL:'' v out), True)"

fun log_at :: "'o basic_logger \<Rightarrow> log_level \<Rightarrow> string list \<Rightarrow> log_output \<Rightarrow> log_output" where
  "log_at l LDebug v out = log_Debug l v out"
| "log_at l LInfo v out = log_Info l v out"
| "log_at l LWarning v out = log_Warning l v out"
| "log_at l LError v out = log_Error l v out"
| "log_at l LCritical v out = log_Critical l v out"
| "log_at l LFatal v out = log_Fatal l v out"

text \<open>A list of messages; nothing is printed after the process has ended.\<close>

fun log_all :: "'o basic_logger \<Rightarrow> (log_level \<times> string list) list \<Rightarrow> log_output \<Rightarrow> log_output" where
  "log_all l [] out = out"
| "log_all l ((lv, v) # ms) out = (if snd out then out else log_all l ms (log_at l lv v out))"

section \<open>What reaches the writer\<close>

fun severity :: "log_level \<Rightarrow> int" where
  "severity LDebug = 0"
| "severity LInfo = 1"
| "severity LWarning = 2"
| "severity LError = 3"
| "severity LCritical = 4"
| "severity LFatal = 5"

fun level_tag :: "log_level \<Rightarrow> string" where
  "level_tag LDebug = ''DEBUG:''"
| "level_tag LInfo = ''INFO:''"
| "level_tag LWarning = ''WARNING:''"
| "level_tag LError = ''ERROR:''"
| "level_tag LCritical = ''CRITICAL:''"
| "level_tag LFatal = ''FATAL:''"

text \<open>The levels a logger can have: those of the table, and so at most the critical one.\<close>

definition logger_ok :: "'o basic_logger \<Rightarrow> bool" where
  "logger_ok l \<longleftrightarrow> bl_Level l \<in> snd ` set log_levels"

lemma new_logger_ok: "logger_ok (fst (new_logger stderr level out pre))"
proof (cases "map_of log_levels (to_upper level)")
  case None
  then show ?thesis by (simp add: new_logger_def default_logger_def logger_ok_def) (simp add: log_levels_def)
next
  case (Some x)
  then have "x \<in> snd ` set log_levels" by (force dest: map_of_SomeD)
  with Some show ?thesis by (simp add: new_logger_def logger_ok_def)
qed

lemma logger_level_le: "logger_ok l \<Longrightarrow> bl_Level l \<le> 4"
  by (auto simp: logger_ok_def log_levels_def LEVEL_DEBUG_def LEVEL_INFO_def LEVEL_WARNING_def LEVEL_ERROR_def
      LEVEL_CRITICAL_def)

lemma log_at_eq:
  assumes "logger_ok l"
  shows "log_at l lv v (ls, False) =
    (ls @ (if bl_Level l \<le> severity lv then [[bl_Prefix l, level_tag lv] @ v] else []), lv = LFatal)"
  using logger_level_le [OF assms]
  by (cases lv)
     (auto simp: log_Debug_def log_Info_def log_Warning_def log_Error_def log_Critical_def log_Fatal_def
        prepend_log_def LEVEL_DEBUG_def LEVEL_INFO_def LEVEL_WARNING_def LEVEL_ERROR_def)

declare log_at.simps [simp del]

lemma log_all_dead: "log_all l ms (ls, True) = (ls, True)"
  by (cases ms) auto

text \<open>A logger that \<open>NewLogger\<close> made prints, in order, exactly the messages up to the first fatal one
  whose level is its own or above, each with its prefix and level; the process ends with the first
  fatal message and only then.\<close>

lemma log_all_prints:
  assumes "logger_ok l"
  shows "log_all l ms (ls, False) =
    (let run = takeWhile (\<lambda>m. fst m \<noteq> LFatal) ms @ take 1 (dropWhile (\<lambda>m. fst m \<noteq> LFatal) ms)
     in (ls @ map (\<lambda>(lv, v). [bl_Prefix l, level_tag lv] @ v) (filter (\<lambda>m. bl_Level l \<le> severity (fst m)) run),
         LFatal \<in> fst ` set ms))"
proof (induction ms arbitrary: ls)
  case (Cons m ms)
  obtain lv v where [simp]: "m = (lv, v)" by (cases m)
  show ?case
  proof (cases "lv = LFatal")
    case True
    with logger_level_le [OF assms] show ?thesis
      by (simp add: log_at_eq [OF assms] log_all_dead Let_def)
  next
    case False
    then show ?thesis
      using Cons.IH by (auto simp: log_at_eq [OF assms] Let_def)
  qed
qed simp

text \<open>The logging middleware over a logger of the level \<open>WARNING\<close> prints something exactly when the call
  failed or gave nothing.\<close>

lemma logging_middleware_warns:
  assumes "bl_Level l = LEVEL_WARNING" and "next w r = Ret (x, err) r' w'"
    and "logging_call pre next (ms, w) r = Ret res r' (ms', w')" and "ms' = ms @ new"
  shows "fst (log_all l (map (\<lambda>(lv, t). (lv, [t])) new) ([], False)) \<noteq> [] \<longleftrightarrow> err \<noteq> None \<or> x = None"
proof -
  have "logger_ok l" by (simp add: logger_ok_def log_levels_def assms(1))
  note prints = log_all_prints [OF this]
  from assms(2-4) have "new = [(LInfo, pre @ ''Calling backend''), (LDebug, pre @ ''Request''),
      (LInfo, pre @ ''Call to backend took'')] @
      (case (err, x) of
         (Some e, _) \<Rightarrow> [(LWarning, pre @ ''Call to backend failed:'' @ error_text e)]
       | (None, None) \<Rightarrow> [(LWarning, pre @ ''Call to backend returned a null response'')]
       | (None, Some _) \<Rightarrow> [])"
    by (simp add: logging_call_def)
  then show ?thesis
    by (cases err; cases x) (simp_all add: prints Let_def assms(1) LEVEL_WARNING_def del: log_all.simps)
qed

end
