(* ===== verification/Async.thy ===== *)
theory Async
  imports Logging
begin

text \<open>
  Retry delays (\<open>src/backoff/backoff.go\<close>) and the start of the async agents
  (\<open>src/async/asyncagent.go\<close>). \<open>int\<close> and \<open>time.Duration\<close> are 64 bits wide and wrap. \<open>rnd n\<close> is
  \<open>random.Intn(n)\<close>, which panics (\<open>None\<close>) unless \<open>n\<close> is positive.
\<close>

section \<open>Backoff strategies\<close>

definition DefaultBackoffDuration :: duration where
  "DefaultBackoffDuration = second"

definition default_backoff :: "64 word \<Rightarrow> duration option" where
  "default_backoff i = Some DefaultBackoffDuration"

text \<open>A shift by 64 or more yields 0, and \<open>uint\<close> of a negative number is such a shift.\<close>

definition exponential_backoff :: "64 word \<Rightarrow> duration option" where
  "exponential_backoff i = Some (push_bit (unat i) 1 * second)"

definition linear_backoff :: "64 word \<Rightarrow> duration option" where
  "linear_backoff i = Some (i * second)"

definition intn :: "(nat \<Rightarrow> nat) \<Rightarrow> 64 word \<Rightarrow> 64 word option" where
  "intn rnd n = (if sint n \<le> 0 then None else Some (of_nat (rnd (unat n) mod unat n)))"

definition jitter :: "(nat \<Rightarrow> nat) \<Rightarrow> 64 word \<Rightarrow> duration option" where
  "jitter rnd i =
     (let ms = i * 1000; maxJitter = int_quot ms 3 + 1
      in case intn rnd (2 * maxJitter) of
           None \<Rightarrow> None
         | Some r \<Rightarrow>
             let ms' = ms + (r - maxJitter)
             in Some ((if sint ms' \<le> 0 then 1 else ms') * millisecond))"

definition linear_jitter_backoff :: "(nat \<Rightarrow> nat) \<Rightarrow> 64 word \<Rightarrow> duration option" where
  "linear_jitter_backoff rnd i = jitter rnd i"

definition exponential_jitter_backoff :: "(nat \<Rightarrow> nat) \<Rightarrow> 64 word \<Rightarrow> duration option" where
  "exponential_jitter_backoff rnd i = jitter rnd (push_bit (unat i) 1)"

definition get_by_name :: "(nat \<Rightarrow> nat) \<Rightarrow> string \<Rightarrow> 64 word \<Rightarrow> duration option" where
  "get_by_name rnd strategy =
     (let s = to_lower strategy
      in if s = ''linear'' then linear_backoff
         else if s = ''linear-jitter'' then linear_jitter_backoff rnd
         else if s = ''exponential'' then exponential_backoff
         else if s = ''exponential-jitter'' then exponential_jitter_backoff rnd
         else default_backoff)"

section \<open>Starting the agents\<close>

text \<open>The channel for pings, the error group and the logger are the same for every agent and belong to the
  state the factories work on.\<close>

record 'p options =
  o_Agent :: async_agent
  o_Endpoint :: endpoint_config
  o_Proxy :: 'p
  o_ShouldContinue :: "int \<Rightarrow> bool"
  o_BackoffF :: "64 word \<Rightarrow> duration option"

definition should_continue :: "async_agent \<Rightarrow> int \<Rightarrow> bool" where
  "should_continue agent i = (i \<le> c_MaxRetries (a_Connection agent))"

definition MaxInt :: int where "MaxInt = 2 ^ 63 - 1"

text \<open>\<open>fmt.Sprintf("AsyncAgent-%02d", i)\<close>.\<close>

definition agent_name :: "nat \<Rightarrow> string" where
  "agent_name i = ''AsyncAgent-'' @ (if i < 10 then ''0'' else []) @ show_nat i"

text \<open>The changes the loop makes to an agent before and after the pipe is built.\<close>

definition prepare_agent :: "nat \<Rightarrow> async_agent \<Rightarrow> async_agent" where
  "prepare_agent i agent =
     (let agent = (if a_Name agent = [] then agent\<lparr>a_Name := agent_name i\<rparr> else agent)
      in agent\<lparr>a_Backend := map (\<lambda>b. b\<lparr>b_Timeout := c_Timeout (a_Consumer agent)\<rparr>) (a_Backend agent)\<rparr>)"

definition agent_endpoint :: "async_agent \<Rightarrow> endpoint_config" where
  "agent_endpoint agent =
     endpoint_zero\<lparr>e_Endpoint := a_Name agent, e_Timeout := c_Timeout (a_Consumer agent),
       e_Backend := a_Backend agent, e_ExtraConfig := a_ExtraConfig agent\<rparr>"

definition limit_retries :: "async_agent \<Rightarrow> async_agent" where
  "limit_retries agent =
     (if c_MaxRetries (a_Connection agent) \<le> 0
      then agent\<lparr>a_Connection := (a_Connection agent)\<lparr>c_MaxRetries := MaxInt\<rparr>\<rparr> else agent)"

text \<open>The inner loop offers the agent to one factory after the other until one accepts; the result
  lists the offers made, as positions in the starter. A factory starts goroutines in the error group:
  \<open>'g\<close> is the state of the group, which is a package's own, with whatever else the factories change.\<close>

type_synonym ('p, 'g) agent_factory = "'p options \<Rightarrow> 'g \<Rightarrow> bool \<times> 'g"

fun offer :: "nat \<Rightarrow> ('p, 'g) agent_factory list \<Rightarrow> 'p options \<Rightarrow> 'g \<Rightarrow> nat list \<times> 'g" where
  "offer n [] opts g = ([], g)"
| "offer n (f # fs) opts g =
     (case f opts g of
        (True, g) \<Rightarrow> ([n], g)
      | (False, g) \<Rightarrow> (case offer (Suc n) fs opts g of (ns, g) \<Rightarrow> (n # ns, g)))"

text \<open>What \<open>Start\<close> leaves behind: the options each agent is offered with and to whom, the agents, which it
  changes in place, what it logs, and the group.\<close>

record ('p, 'g) started_agents =
  sa_offers :: "('p options \<times> nat list) list"
  sa_agents :: "async_agent list"
  sa_log :: messages
  sa_group :: 'g

definition agent_tag :: "async_agent \<Rightarrow> string" where
  "agent_tag agent = ''[SERVICE: AsyncAgent]['' @ a_Name agent @ '']''"

fun start_agents ::
  "(nat \<Rightarrow> nat) \<Rightarrow> ('p, 'g) agent_factory list \<Rightarrow> (endpoint_config \<Rightarrow> goerror + 'p) \<Rightarrow> nat \<Rightarrow>
   async_agent list \<Rightarrow> ('p, 'g) started_agents \<Rightarrow> ('p, 'g) started_agents" where
  "start_agents rnd fs pf i [] s = s"
| "start_agents rnd fs pf i (agent # agents) s =
     (let agent = prepare_agent i agent; endpoint = agent_endpoint agent;
          s = s\<lparr>sa_log := sa_log s @ [(LDebug, [agent_tag agent @ '' Starting the async agent''])]\<rparr>
      in case pf endpoint of
           Inl e \<Rightarrow>
             start_agents rnd fs pf (Suc i) agents
               (s\<lparr>sa_agents := sa_agents s @ [agent],
                  sa_log := sa_log s @ [(LError, [agent_tag agent @ '' building the proxy pipe:'', error_text e])]\<rparr>)
         | Inr p \<Rightarrow>
             let agent = limit_retries agent;
                 opts = \<lparr>o_Agent = agent, o_Endpoint = endpoint, o_Proxy = p,
                         o_ShouldContinue = should_continue agent,
                         o_BackoffF = get_by_name rnd (c_BackoffStrategy (a_Connection agent))\<rparr>
             in (case offer 0 fs opts (sa_group s) of
                   (ns, g) \<Rightarrow>
                     start_agents rnd fs pf (Suc i) agents
                       (s\<lparr>sa_offers := sa_offers s @ [(opts, ns)], sa_agents := sa_agents s @ [agent], sa_group := g\<rparr>)))"

text \<open>\<open>Start\<close> returns what waits: with no factories a function that reports so, otherwise the group's
  own \<open>Wait\<close>; \<open>g0\<close> is the empty group. Nothing is started in the first case.\<close>

definition ErrNoAgents :: goerror where "ErrNoAgents = ErrMsg ''no agent factories defined''"

definition agent_starter_start ::
  "(nat \<Rightarrow> nat) \<Rightarrow> ('p, 'g) agent_factory list \<Rightarrow> (endpoint_config \<Rightarrow> goerror + 'p) \<Rightarrow>
   async_agent list \<Rightarrow> 'g \<Rightarrow> ('g \<Rightarrow> goerror option) \<Rightarrow> ('p, 'g) started_agents \<times> goerror option" where
  "agent_starter_start rnd fs pf agents g0 wait =
     (if fs = [] then (\<lparr>sa_offers = [], sa_agents = agents, sa_log = [], sa_group = g0\<rparr>, Some ErrNoAgents)
      else let s = start_agents rnd fs pf 0 agents
                     \<lparr>sa_offers = [], sa_agents = [], sa_log = [], sa_group = g0\<rparr>
           in (s, wait (sa_group s)))"

section \<open>Delays\<close>

lemma sint_of_nat_64: "n < 2 ^ 63 \<Longrightarrow> sint (of_nat n :: 64 word) = int n"
  by (simp add: signed_of_nat signed_take_bit_int_eq_self)

lemma sint_of_int_64: "- (2 ^ 63) \<le> k \<Longrightarrow> k < 2 ^ 63 \<Longrightarrow> sint (word_of_int k :: 64 word) = k"
  by (simp add: signed_of_int signed_take_bit_int_eq_self)

lemma unat_of_nat_64: "n < 2 ^ 64 \<Longrightarrow> unat (of_nat n :: 64 word) = n"
  by (simp add: unat_of_nat take_bit_nat_eq_self)

lemma exponential_in_range:
  assumes "i \<le> 33"
  shows "exponential_backoff (of_nat i) = Some (of_nat (2 ^ i * 1000000000))"
proof -
  have "unat (of_nat i :: 64 word) = i" using assms by (intro unat_of_nat_64) simp
  then show ?thesis
    by (simp add: exponential_backoff_def second_def push_bit_eq_mult)
qed

lemma of_nat_shift: "(of_nat a + (of_nat b - of_nat c) :: 64 word) = word_of_int (int a + int b - int c)"
  by simp

lemma sint_shift:
  assumes "i < 2 ^ 30" and "k < 2 * m" and "2 * m < 2 ^ 62"
  shows "sint (word_of_int (int (i * 1000) + int k - int m) :: 64 word) = int (i * 1000) + int k - int m"
  using assms by (intro sint_of_int_64) simp_all

lemma linear_jitter_eq:
  assumes "i < 2 ^ 30"
  defines "m \<equiv> i * 1000 div 3 + 1"
  shows "\<exists>k < 2 * m. jitter rnd (of_nat i) =
    Some (of_nat (max 1 (i * 1000 + k - m)) * millisecond)"
proof -
  let ?ms = "of_nat i * 1000 :: 64 word"
  have ms: "?ms = of_nat (i * 1000)" by simp
  have "i * 1000 < 2 ^ 63" using assms(1) by simp
  then have s: "sint ?ms = int (i * 1000)" unfolding ms by (rule sint_of_nat_64)
  have d: "int (i * 1000) sdiv 3 = int (i * 1000 div 3)"
    by (auto simp: signed_divide_int_def sgn_if zdiv_int)
  have q: "int_quot ?ms 3 + 1 = of_nat m"
    unfolding int_quot_def s d by (simp add: m_def)
  have m: "2 * m < 2 ^ 62" "m > 0" using assms(1) by (auto simp: m_def)
  have m2: "2 * (of_nat m :: 64 word) = of_nat (2 * m)" by simp
  have u: "unat (of_nat (2 * m) :: 64 word) = 2 * m" using m by (intro unat_of_nat_64) simp
  let ?k = "rnd (2 * m) mod (2 * m)"
  have k: "?k < 2 * m" using m by simp
  have i: "intn rnd (2 * (int_quot ?ms 3 + 1)) = Some (of_nat ?k)"
    unfolding q m2 intn_def u using m sint_of_nat_64 [of "2 * m"] by simp
  let ?z = "int (i * 1000) + int ?k - int m"
  have w: "?ms + (of_nat ?k - of_nat m) = word_of_int ?z"
    unfolding ms by (rule of_nat_shift)
  have z: "sint (word_of_int ?z :: 64 word) = ?z"
    by (rule sint_shift [OF assms(1) k m(1)])
  have e: "(if sint (word_of_int ?z :: 64 word) \<le> 0 then 1 else word_of_int ?z :: 64 word) =
      of_nat (max 1 (i * 1000 + ?k - m))"
    unfolding z by (auto simp: max_def of_nat_diff)
  have "jitter rnd (of_nat i) = Some (of_nat (max 1 (i * 1000 + ?k - m)) * millisecond)"
    unfolding jitter_def Let_def q i [unfolded q] option.case w e ..
  with k show ?thesis by blast
qed

section \<open>Properties\<close>

text \<open>Jittered linear delays: for the attempt number \<open>i\<close> the delay is a whole number of
  milliseconds, at least one, and within a third (and a millisecond) of \<open>i\<close> seconds, whatever the
  random source returns; the call does not panic.\<close>

theorem linear_jitter_bounds:
  assumes "i < 2 ^ 30"
  shows "\<exists>ms. linear_jitter_backoff rnd (of_nat i) = Some (of_nat ms * millisecond) \<and>
    1 \<le> ms \<and> 2 * (i * 1000) \<le> 3 * (ms + 1) \<and> 3 * ms \<le> 4 * (i * 1000) + 3"
proof -
  from linear_jitter_eq [OF assms, of rnd] obtain k
    where k: "k < 2 * (i * 1000 div 3 + 1)"
      and j: "jitter rnd (of_nat i) = Some (of_nat (max 1 (i * 1000 + k - (i * 1000 div 3 + 1))) * millisecond)"
    by blast
  let ?ms = "max 1 (i * 1000 + k - (i * 1000 div 3 + 1))"
  have arith: "1 \<le> max 1 (b + k - (d + 1)) \<and> 2 * b \<le> 3 * (max 1 (b + k - (d + 1)) + 1) \<and>
      3 * max 1 (b + k - (d + 1)) \<le> 4 * b + 3"
    if "k < 2 * (d + 1)" and "3 * d \<le> b" for b d :: nat
    using that by (auto simp: max_def)
  have "1 \<le> ?ms \<and> 2 * (i * 1000) \<le> 3 * (?ms + 1) \<and> 3 * ?ms \<le> 4 * (i * 1000) + 3"
    by (rule arith [OF k times_div_less_eq_dividend])
  with j show ?thesis unfolding linear_jitter_backoff_def by blast
qed

theorem linear_jitter_bounds_witness:
  "\<exists>ms. linear_jitter_backoff (\<lambda>n. n - 1) (of_nat 3) = Some (of_nat ms * millisecond) \<and>
    1 \<le> ms \<and> 2 * 3000 \<le> 3 * (ms + 1) \<and> 3 * ms \<le> 4 * 3000 + (3::nat)"
  using linear_jitter_bounds [of 3 "\<lambda>n. n - 1"] by simp

text \<open>Exponential delays are \<open>2^i\<close> seconds for \<open>i \<le> 33\<close>, each twice the one before. The comment
  calls them ever increasing; the 64-bit nanosecond count overflows at \<open>i = 34\<close>, where the delay is
  negative, and from \<open>i = 55\<close> on it is zero: the retries are no longer delayed at all.\<close>

theorem exponential_backoff_range:
  "(\<forall>i \<le> 33. \<exists>d. exponential_backoff (of_nat i) = Some d \<and> sint d = 2 ^ i * 1000000000) \<and>
   (\<exists>d. exponential_backoff 34 = Some d \<and> sint d < 0) \<and>
   (\<forall>i. 55 \<le> unat i \<longrightarrow> exponential_backoff i = Some 0)"
proof (intro conjI allI impI)
  fix i :: nat assume i: "i \<le> 33"
  have "(2::nat) ^ i \<le> 2 ^ 33" using i by (intro power_increasing) simp_all
  then have "2 ^ i * 1000000000 < (2::nat) ^ 63" by simp
  from sint_of_nat_64 [OF this] exponential_in_range [OF i]
  show "\<exists>d. exponential_backoff (of_nat i) = Some d \<and> sint d = 2 ^ i * 1000000000" by simp
next
  show "\<exists>d. exponential_backoff 34 = Some d \<and> sint d < 0"
    by (simp add: exponential_backoff_def second_def push_bit_eq_mult)
next
  fix i :: "64 word" assume i: "55 \<le> unat i"
  have "(2::64 word) ^ unat i = 2 ^ (unat i - 55) * 2 ^ 55"
    using i by (simp only: power_add [symmetric] le_add_diff_inverse2)
  then have "(2::64 word) ^ unat i * second = 2 ^ (unat i - 55) * (2 ^ 55 * second)"
    by (simp only: mult.assoc)
  also have "(2::64 word) ^ 55 * second = 0" by (simp add: second_def)
  finally show "exponential_backoff i = Some 0"
    by (simp add: exponential_backoff_def push_bit_eq_mult)
qed

theorem exponential_backoff_range_witness:
  "exponential_backoff 64 = Some 0 \<and> (\<exists>d. exponential_backoff 3 = Some d \<and> sint d = 8000000000)"
proof
  show "exponential_backoff 64 = Some 0"
    using exponential_backoff_range by simp
  have "\<exists>d. exponential_backoff (of_nat 3) = Some d \<and> sint d = 2 ^ 3 * 1000000000"
    using exponential_backoff_range by (meson Suc_leI numeral_le_iff semiring_norm)
  then show "\<exists>d. exponential_backoff 3 = Some d \<and> sint d = 8000000000" by simp
qed

section \<open>The agents and their offers\<close>

text \<open>The state of the group when the factory at a position is asked, and whether it accepts.\<close>

definition group_before :: "('p, 'g) agent_factory list \<Rightarrow> 'p options \<Rightarrow> 'g \<Rightarrow> nat \<Rightarrow> 'g" where
  "group_before fs opts g k = foldl (\<lambda>g f. snd (f opts g)) g (take k fs)"

definition accepts :: "('p, 'g) agent_factory list \<Rightarrow> 'p options \<Rightarrow> 'g \<Rightarrow> nat \<Rightarrow> bool" where
  "accepts fs opts g k = fst ((fs ! k) opts (group_before fs opts g k))"

lemma offer_asks:
  "offer n fs opts g = (ns, g') \<Longrightarrow>
     \<exists>k \<le> length fs. ns = [n..<n + k] \<and> g' = group_before fs opts g k \<and>
       (\<forall>j < k. accepts fs opts g j \<longrightarrow> Suc j = k) \<and> (k < length fs \<longrightarrow> 0 < k \<and> accepts fs opts g (k - 1))"
proof (induction fs arbitrary: n g ns)
  case (Cons f fs)
  obtain b g1 where f: "f opts g = (b, g1)" by fastforce
  have before: "group_before (f # fs) opts g (Suc j) = group_before fs opts g1 j" for j
    by (simp add: group_before_def f)
  have acc: "accepts (f # fs) opts g (Suc j) = accepts fs opts g1 j" for j
    by (simp add: accepts_def before)
  have acc0: "accepts (f # fs) opts g 0 = b" by (simp add: accepts_def group_before_def f)
  show ?case
  proof (cases b)
    case True
    with Cons.prems f have "ns = [n]" "g' = g1" by simp_all
    then show ?thesis
      using True f acc0 by (intro exI [of _ 1]) (simp add: group_before_def)
  next
    case False
    with Cons.prems f obtain ns' where ns: "offer (Suc n) fs opts g1 = (ns', g')" "ns = n # ns'"
      by (auto split: prod.splits)
    from Cons.IH [OF ns(1)] obtain k where k: "k \<le> length fs" "ns' = [Suc n..<Suc n + k]"
      "g' = group_before fs opts g1 k" "\<forall>j < k. accepts fs opts g1 j \<longrightarrow> Suc j = k"
      "k < length fs \<longrightarrow> 0 < k \<and> accepts fs opts g1 (k - 1)" by blast
    have "accepts (f # fs) opts g j \<longrightarrow> Suc j = Suc k" if "j < Suc k" for j
      using that k(4) acc acc0 False by (cases j) auto
    moreover have "accepts (f # fs) opts g k" if "Suc k < length (f # fs)"
      using that k(5) acc [of "k - 1"] by (cases k) auto
    moreover have "ns = [n..<n + Suc k]" using ns(2) k(2) by (simp add: upt_rec [of n])
    ultimately show ?thesis using k(1,3) before by (intro exI [of _ "Suc k"]) simp
  qed
qed (simp add: group_before_def)

text \<open>One agent: what is offered for it, what it becomes and what is logged.\<close>

definition unlimited :: "async_agent \<Rightarrow> int" where
  "unlimited agent = (if c_MaxRetries (a_Connection agent) \<le> 0 then MaxInt else c_MaxRetries (a_Connection agent))"

definition offer_ok ::
  "('p, 'g) agent_factory list \<Rightarrow> (endpoint_config \<Rightarrow> goerror + 'p) \<Rightarrow> async_agent list \<Rightarrow> 'p options \<Rightarrow> nat list \<Rightarrow> bool" where
  "offer_ok fs pf agents opts ns \<longleftrightarrow>
     pf (o_Endpoint opts) = Inr (o_Proxy opts) \<and> o_Endpoint opts = agent_endpoint (o_Agent opts) \<and>
     (\<forall>b \<in> set (e_Backend (o_Endpoint opts)). b_Timeout b = e_Timeout (o_Endpoint opts)) \<and>
     a_Name (o_Agent opts) \<noteq> [] \<and>
     (\<exists>g. \<exists>k \<le> length fs. ns = [0..<k] \<and> (\<forall>j < k. accepts fs opts g j \<longrightarrow> Suc j = k) \<and>
        (k < length fs \<longrightarrow> 0 < k \<and> accepts fs opts g (k - 1))) \<and>
     (\<exists>agent \<in> set agents. \<forall>i. o_ShouldContinue opts i \<longleftrightarrow> i \<le> unlimited agent)"

lemma offer_ok_Cons:
  "offer_ok fs pf agents opts ns \<Longrightarrow> offer_ok fs pf (agent # agents) opts ns"
  "offer_ok fs pf [agent] opts ns \<Longrightarrow> offer_ok fs pf (agent # agents) opts ns"
  unfolding offer_ok_def by auto

lemma offer_ok_agent:
  assumes "pf (agent_endpoint (prepare_agent i agent)) = Inr p"
    and "opts = \<lparr>o_Agent = limit_retries (prepare_agent i agent), o_Endpoint = agent_endpoint (prepare_agent i agent),
      o_Proxy = p, o_ShouldContinue = should_continue (limit_retries (prepare_agent i agent)), o_BackoffF = bo\<rparr>"
    and "offer 0 fs opts g = (ns, g')"
  shows "offer_ok fs pf [agent] opts ns"
proof -
  from offer_asks [OF assms(3)] have "\<exists>g. \<exists>k \<le> length fs. ns = [0..<k] \<and> (\<forall>j < k. accepts fs opts g j \<longrightarrow> Suc j = k) \<and>
      (k < length fs \<longrightarrow> 0 < k \<and> accepts fs opts g (k - 1))" by auto
  with assms(1,2) show ?thesis
    by (auto simp: offer_ok_def agent_endpoint_def limit_retries_def prepare_agent_def Let_def should_continue_def
        unlimited_def MaxInt_def endpoint_zero_def agent_name_def)
qed

text \<open>What the agent becomes in the configuration: its retries are limited only when its pipe was built.\<close>

definition agent_after :: "(endpoint_config \<Rightarrow> goerror + 'p) \<Rightarrow> nat \<Rightarrow> async_agent \<Rightarrow> async_agent" where
  "agent_after pf i agent =
     (case pf (agent_endpoint (prepare_agent i agent)) of
        Inl _ \<Rightarrow> prepare_agent i agent
      | Inr _ \<Rightarrow> limit_retries (prepare_agent i agent))"

lemma start_agents_offers:
  "\<exists>offers. sa_offers (start_agents rnd fs pf i agents s) = sa_offers s @ offers \<and>
     (\<forall>(opts, ns) \<in> set offers. offer_ok fs pf agents opts ns)"
proof (induction agents arbitrary: i s)
  case (Cons agent agents)
  let ?a = "prepare_agent i agent"
  show ?case
  proof (cases "pf (agent_endpoint ?a)")
    case (Inl e)
    define s1 where "s1 = s\<lparr>sa_agents := sa_agents s @ [?a],
      sa_log := (sa_log s @ [(LDebug, [agent_tag ?a @ '' Starting the async agent''])]) @
        [(LError, [agent_tag ?a @ '' building the proxy pipe:'', error_text e])]\<rparr>"
    from Inl have "start_agents rnd fs pf i (agent # agents) s = start_agents rnd fs pf (Suc i) agents s1"
      by (simp add: Let_def s1_def)
    moreover obtain offers where "sa_offers (start_agents rnd fs pf (Suc i) agents s1) = sa_offers s1 @ offers"
      "\<forall>(opts, ns) \<in> set offers. offer_ok fs pf agents opts ns"
      using Cons.IH [of "Suc i" s1] by blast
    ultimately show ?thesis
      by (intro exI [of _ offers]) (auto simp: s1_def offer_ok_Cons simp del: start_agents.simps)
  next
    case (Inr p)
    define opts where "opts = \<lparr>o_Agent = limit_retries ?a, o_Endpoint = agent_endpoint ?a, o_Proxy = p,
      o_ShouldContinue = should_continue (limit_retries ?a),
      o_BackoffF = get_by_name rnd (c_BackoffStrategy (a_Connection (limit_retries ?a)))\<rparr>"
    obtain ns g where o: "offer 0 fs opts (sa_group s) = (ns, g)" by fastforce
    define s1 where "s1 = s\<lparr>sa_log := sa_log s @ [(LDebug, [agent_tag ?a @ '' Starting the async agent''])],
      sa_offers := sa_offers s @ [(opts, ns)], sa_agents := sa_agents s @ [limit_retries ?a], sa_group := g\<rparr>"
    from Inr o have "start_agents rnd fs pf i (agent # agents) s = start_agents rnd fs pf (Suc i) agents s1"
      by (simp add: Let_def s1_def opts_def)
    moreover obtain offers where "sa_offers (start_agents rnd fs pf (Suc i) agents s1) = sa_offers s1 @ offers"
      "\<forall>(opts, ns) \<in> set offers. offer_ok fs pf agents opts ns"
      using Cons.IH [of "Suc i" s1] by blast
    moreover have "offer_ok fs pf [agent] opts ns" using Inr opts_def o by (rule offer_ok_agent)
    ultimately show ?thesis
      by (intro exI [of _ "(opts, ns) # offers"]) (auto simp: s1_def offer_ok_Cons simp del: start_agents.simps)
  qed
qed simp

lemma start_agents_left:
  "sa_agents (start_agents rnd fs pf i agents s) =
     sa_agents s @ map (\<lambda>(j, a). agent_after pf j a) (List.enumerate i agents) \<and>
   length (sa_offers (start_agents rnd fs pf i agents s)) + length (filter (\<lambda>m. fst m = LError) (sa_log (start_agents rnd fs pf i agents s))) =
     length (sa_offers s) + length (filter (\<lambda>m. fst m = LError) (sa_log s)) + length agents"
  by (induction agents arbitrary: i s) (auto simp: Let_def agent_after_def split: sum.split prod.split)

text \<open>Starting the agents. Every agent is either offered or reported as one without a pipe. It is
  offered with the pipe built for its endpoint, in which every backend has the consumer's timeout; the factories are asked in
  order up to the first that accepts, and an agent without a positive retry limit may retry for ever.
  Without factories nothing is started or changed, and the function returned reports that.\<close>

theorem start_agents_correct:
  "case agent_starter_start rnd fs pf agents g0 wait of
     (s, err) \<Rightarrow>
       if fs = [] then err = Some ErrNoAgents \<and> sa_agents s = agents \<and> sa_group s = g0
       else err = wait (sa_group s) \<and>
         sa_agents s = map (\<lambda>(j, a). agent_after pf j a) (List.enumerate 0 agents) \<and>
         list_all (\<lambda>(opts, ns). offer_ok fs pf agents opts ns) (sa_offers s) \<and>
         length (sa_offers s) + length (filter (\<lambda>m. fst m = LError) (sa_log s)) = length agents"
proof -
  define s0 :: "('a, 'b) started_agents" where "s0 = \<lparr>sa_offers = [], sa_agents = [], sa_log = [], sa_group = g0\<rparr>"
  show ?thesis
    using start_agents_offers [of rnd fs pf 0 agents s0] start_agents_left [of rnd fs pf 0 agents s0]
    by (auto simp: agent_starter_start_def Let_def list_all_iff simp flip: s0_def) (auto simp: s0_def)
qed

end
