(* ===== verification/HttpProxy.thy ===== *)
theory HttpProxy
  imports Middleware
begin

text \<open>
  The proxy at the end of the pipe: status handlers (\<open>src/transport/http/client/status.go\<close>), response
  parsers (\<open>src/proxy/http_response.go\<close>) and the HTTP proxy (\<open>src/proxy/http.go\<close>). Third-party and
  standard-library code is a parameter: the request executor \<open>re\<close>, the check \<open>check\<close> that
  \<open>http.NewRequest\<close> makes of method and URL, the printing \<open>print\<close> of a URL, \<open>gunzip\<close>, and
  \<open>ctx_done\<close>, the error of the context, if it is done, in a world. A body is a reader, which the
  executor consumes; the request's own record keeps what the reader had.
\<close>

section \<open>Messages\<close>

record http_request =
  hr_Method :: string
  hr_URL :: string
  hr_Header :: "string list gomap"
  hr_Body :: "reader option"
  hr_ContentLength :: int
  hr_GetBody :: bool  \<comment> \<open>the body can be sent again on a redirect\<close>

record http_response =
  hp_StatusCode :: int
  hp_Header :: "string list gomap"
  hp_Body :: reader
  hp_URL :: "string option"  \<comment> \<open>\<open>resp.Request.URL\<close>, when both are there\<close>

definition header_get :: "string list gomap \<Rightarrow> string \<Rightarrow> string" where
  "header_get h k = (case map_of h k of Some (v # _) \<Rightarrow> v | _ \<Rightarrow> [])"

section \<open>Status handlers\<close>

type_synonym status_handler = "http_response \<Rightarrow> http_response option \<times> goerror option"

definition http_Namespace :: string where
  "http_Namespace = ''github.com/pucora/pucora/http''"

definition new_err_invalid_status_code :: "http_response \<Rightarrow> string \<Rightarrow> goerror" where
  "new_err_invalid_status_code resp errPrefix =
     ErrInvalidStatus (hp_StatusCode resp) errPrefix (case hp_URL resp of None \<Rightarrow> [] | Some p \<Rightarrow> p)"

definition default_status_handler :: status_handler where
  "default_status_handler resp =
     (if hp_StatusCode resp \<noteq> 200 \<and> hp_StatusCode resp \<noteq> 201 then (None, Some ErrInvalidStatusCode)
      else (Some resp, None))"

definition default_status_handler_with_prefix :: "string \<Rightarrow> status_handler" where
  "default_status_handler_with_prefix errPrefix resp =
     (if hp_StatusCode resp \<noteq> 200 \<and> hp_StatusCode resp \<noteq> 201
      then (None, Some (new_err_invalid_status_code resp errPrefix))
      else (Some resp, None))"

text \<open>\<open>newHTTPResponseError\<close> reads the body and puts a copy in its place: the code, message and encoding
  of the error, and the response afterwards.\<close>

definition new_http_response_error :: "http_response \<Rightarrow> (int \<times> string \<times> string) \<times> http_response" where
  "new_http_response_error resp =
     (let body = (case rd_err (hp_Body resp) of None \<Rightarrow> rd_content (hp_Body resp) | Some _ \<Rightarrow> [])
      in ((hp_StatusCode resp, body, header_get (hp_Header resp) ''Content-Type''),
          resp\<lparr>hp_Body := \<lparr>rd_content = body, rd_err = None\<rparr>\<rparr>))"

definition error_status_handler_over :: "status_handler \<Rightarrow> status_handler" where
  "error_status_handler_over defaultH resp =
     (case defaultH resp of
        (_, None) \<Rightarrow> (Some resp, None)
      | (_, Some _) \<Rightarrow>
          (case new_http_response_error resp of ((c, m, e), resp') \<Rightarrow> (Some resp', Some (HTTPResponseError c m e))))"

definition detailed_status_handler_over :: "status_handler \<Rightarrow> string \<Rightarrow> status_handler" where
  "detailed_status_handler_over defaultH name resp =
     (case defaultH resp of
        (_, None) \<Rightarrow> (Some resp, None)
      | (_, Some _) \<Rightarrow>
          (case new_http_response_error resp of
             ((c, m, e), resp') \<Rightarrow> (Some resp', Some (NamedHTTPResponseError c m e name))))"

definition error_status_handler :: status_handler where
  "error_status_handler = error_status_handler_over default_status_handler"

definition error_status_handler_with_prefix :: "string \<Rightarrow> status_handler" where
  "error_status_handler_with_prefix errPrefix =
     error_status_handler_over (default_status_handler_with_prefix errPrefix)"

definition detailed_status_handler :: "string \<Rightarrow> status_handler" where
  "detailed_status_handler name = detailed_status_handler_over default_status_handler name"

definition detailed_status_handler_with_prefix :: "string \<Rightarrow> string \<Rightarrow> status_handler" where
  "detailed_status_handler_with_prefix name errPrefix =
     detailed_status_handler_over (default_status_handler_with_prefix errPrefix) name"

definition noop_status_handler :: status_handler where
  "noop_status_handler resp = (Some resp, None)"

text \<open>\<open>GetHTTPStatusHandler\<close>: an entry \<open>return_error_details\<close> hides \<open>return_error_code\<close>, whatever it is.\<close>

definition get_status_handler :: "backend \<Rightarrow> status_handler" where
  "get_status_handler remote =
     (let errPrefix = ''['' @ b_Method remote @ '' '' @ b_URLPattern remote @ '']:'';
          default = default_status_handler_with_prefix errPrefix
      in case ec_map (b_ExtraConfig remote) http_Namespace of
           None \<Rightarrow> default
         | Some m \<Rightarrow>
             (case map_of m ''return_error_details'' of
                Some v \<Rightarrow>
                  (case v of
                     VString b \<Rightarrow> if b \<noteq> [] then detailed_status_handler_with_prefix b errPrefix else default
                   | _ \<Rightarrow> default)
              | None \<Rightarrow>
                  (case ec_bool m ''return_error_code'' of
                     Some True \<Rightarrow> error_status_handler_with_prefix errPrefix
                   | _ \<Rightarrow> default)))"

section \<open>Response parsers\<close>

text \<open>\<open>None\<close> is a panic.\<close>

type_synonym response_parser = "http_response \<Rightarrow> vresponse presult option"

definition format_with :: "'t flat_tree \<Rightarrow> formatter \<Rightarrow> gobj option \<Rightarrow> gobj option option" where
  "format_with T ef d = (case ef of Flatmap f \<Rightarrow> format_flatmap T f d | Plain f \<Rightarrow> format_entity f d)"

definition default_response_parser ::
  "(reader \<Rightarrow> goerror + reader) \<Rightarrow> decoder option \<Rightarrow> (gobj option \<Rightarrow> gobj option option) \<Rightarrow> response_parser" where
  "default_response_parser gunzip dec fmt resp =
     (case (if header_get (hp_Header resp) ''Content-Encoding'' = ''gzip'' then gunzip (hp_Body resp)
            else Inr (hp_Body resp)) of
        Inl err \<Rightarrow> Some (None, Some err)
      | Inr reader \<Rightarrow>
          (case dec of
             None \<Rightarrow> None
           | Some decode \<Rightarrow>
               (case decode reader of
                  Inl err \<Rightarrow> Some (None, Some err)
                | Inr data \<Rightarrow>
                    map_option (\<lambda>d. (Some \<lparr>r_Data = d, r_IsComplete = True, r_Headers = [], r_StatusCode = 0,
                        r_Io = None\<rparr>, None)) (fmt data))))"

definition noop_response_parser :: response_parser where
  "noop_response_parser resp =
     Some (Some \<lparr>r_Data = Some [], r_IsComplete = False, r_Headers = hp_Header resp,
                 r_StatusCode = hp_StatusCode resp, r_Io = Some (hp_Body resp)\<rparr>, None)"

section \<open>The HTTP proxy\<close>

text \<open>\<open>strconv.Atoi\<close>: an optional sign and decimal digits, within 64 bits.\<close>

definition digit_value :: "char \<Rightarrow> int option" where
  "digit_value c = (let n = of_char c :: int in if 48 \<le> n \<and> n \<le> 57 then Some (n - 48) else None)"

fun digits_value :: "string \<Rightarrow> int \<Rightarrow> int option" where
  "digits_value [] n = Some n"
| "digits_value (c # s) n =
     (case digit_value c of None \<Rightarrow> None | Some d \<Rightarrow> digits_value s (10 * n + d))"

definition atoi :: "string \<Rightarrow> int option" where
  "atoi s =
     (case (case s of
              c # t \<Rightarrow> if c = CHR ''-'' then (t, - 1) else if c = CHR ''+'' then (t, 1) else (s, 1)
            | [] \<Rightarrow> ([], 1 :: int)) of
        (ds, sign) \<Rightarrow>
          (if ds = [] then None
           else case digits_value ds 0 of
                  None \<Rightarrow> None
                | Some n \<Rightarrow> if - (2 ^ 63) \<le> sign * n \<and> sign * n < 2 ^ 63 then Some (sign * n) else None))"

text \<open>\<open>redirectPostReaderFactory\<close>: whether the body is read into a buffer before the call.\<close>

definition redirect_post :: "backend \<Rightarrow> bool" where
  "redirect_post cfg =
     (case ec_map (b_ExtraConfig cfg) ''backend/http/client'' of
        None \<Rightarrow> False
      | Some v \<Rightarrow> ec_bool v ''send_body_on_redirect'' = Some True)"

definition body_of :: "backend \<Rightarrow> reader option \<Rightarrow> reader option" where
  "body_of cfg body =
     (case body of
        None \<Rightarrow> None
      | Some r \<Rightarrow> if redirect_post cfg then Some \<lparr>rd_content = rd_content r, rd_err = None\<rparr> else Some r)"

text \<open>\<open>http.NewRequest\<close>, which knows the length of a buffer only.\<close>

definition new_http_request ::
  "(string \<Rightarrow> string \<Rightarrow> goerror option) \<Rightarrow> string \<Rightarrow> string \<Rightarrow> reader option \<Rightarrow> bool \<Rightarrow> goerror + http_request" where
  "new_http_request check method url body buffered =
     (case check method url of
        Some e \<Rightarrow> Inl e
      | None \<Rightarrow>
          Inr \<lparr>hr_Method = (if method = [] then ''GET'' else method), hr_URL = url, hr_Header = [],
               hr_Body = body,
               hr_ContentLength =
                 (case body of Some b \<Rightarrow> if buffered then int (length (rd_content b)) else 0 | None \<Rightarrow> 0),
               hr_GetBody = (buffered \<and> body \<noteq> None)\<rparr>)"

definition declared_length :: "request \<Rightarrow> int option" where
  "declared_length r =
     (if q_Body r = None then None
      else case map_of (q_Headers r) ''Content-Length'' of
             Some [v] \<Rightarrow> if v \<noteq> ''chunked'' then atoi v else None
           | _ \<Rightarrow> None)"

definition backend_request ::
  "(string \<Rightarrow> string \<Rightarrow> goerror option) \<Rightarrow> (url \<Rightarrow> string) \<Rightarrow> backend \<Rightarrow> request \<Rightarrow> url \<Rightarrow> goerror + http_request" where
  "backend_request check print cfg r u =
     (case new_http_request check (to_upper (q_Method r)) (print u) (body_of cfg (q_Body r)) (redirect_post cfg) of
        Inl e \<Rightarrow> Inl e
      | Inr q \<Rightarrow>
          (let q = q\<lparr>hr_Header := write_all [] (q_Headers r)\<rparr>
           in Inr (case declared_length r of None \<Rightarrow> q | Some n \<Rightarrow> q\<lparr>hr_ContentLength := n\<rparr>)))"

type_synonym 'w executor = "'w \<Rightarrow> http_request \<Rightarrow> (goerror + http_response) \<times> 'w"

fun response_error :: "goerror \<Rightarrow> (string \<times> int) option" where
  "response_error (NamedHTTPResponseError c m e name) = Some (name, c)"
| "response_error _ = None"

definition named_error_response :: "string \<Rightarrow> int \<Rightarrow> goerror \<Rightarrow> vresponse" where
  "named_error_response name code t =
     \<lparr>r_Data = Some [(''error_'' @ name, VErr t)], r_IsComplete = False, r_Headers = [],
      r_StatusCode = code, r_Io = None\<rparr>"

text \<open>What the proxy makes of the executor's answer.\<close>

definition http_answer :: "status_handler \<Rightarrow> response_parser \<Rightarrow> http_response \<Rightarrow> vresponse presult option" where
  "http_answer ch rp resp =
     (case ch resp of
        (_, Some err) \<Rightarrow>
          (case response_error err of
             Some (name, code) \<Rightarrow> Some (Some (named_error_response name code err), None)
           | None \<Rightarrow> Some (None, Some err))
      | (None, None) \<Rightarrow> None
      | (Some resp', None) \<Rightarrow> rp resp')"

text \<open>\<open>NewHTTPProxyDetailed\<close>. A nil URL is dereferenced.\<close>

definition new_http_proxy_detailed ::
  "(string \<Rightarrow> string \<Rightarrow> goerror option) \<Rightarrow> (url \<Rightarrow> string) \<Rightarrow> ('w \<Rightarrow> goerror option) \<Rightarrow> backend \<Rightarrow>
   'w executor \<Rightarrow> status_handler \<Rightarrow> response_parser \<Rightarrow> 'w pipe" where
  "new_http_proxy_detailed check print ctx_done cfg re ch rp w r =
     (case q_URL r of
        None \<Rightarrow> Panic
      | Some u \<Rightarrow>
          (case backend_request check print cfg r u of
             Inl e \<Rightarrow> Ret (None, Some e) r w
           | Inr q \<Rightarrow>
               (case re w q of
                  (answer, w') \<Rightarrow>
                    (case ctx_done w' of
                       Some e \<Rightarrow> Ret (None, Some e) r w'
                     | None \<Rightarrow>
                         (case answer of
                            Inl e \<Rightarrow> Ret (None, Some e) r w'
                          | Inr resp \<Rightarrow>
                              (case http_answer ch rp resp of
                                 None \<Rightarrow> Panic
                               | Some res \<Rightarrow> Ret res r w'))))))"

definition new_http_proxy_with_http_executor ::
  "'t flat_tree \<Rightarrow> (reader \<Rightarrow> goerror + reader) \<Rightarrow> (string \<Rightarrow> string \<Rightarrow> goerror option) \<Rightarrow> (url \<Rightarrow> string) \<Rightarrow>
   ('w \<Rightarrow> goerror option) \<Rightarrow> backend \<Rightarrow> 'w executor \<Rightarrow> decoder option \<Rightarrow> 'w pipe" where
  "new_http_proxy_with_http_executor T gunzip check print ctx_done remote re dec =
     (if b_Encoding remote = NOOP
      then new_http_proxy_detailed check print ctx_done remote re noop_status_handler noop_response_parser
      else new_http_proxy_detailed check print ctx_done remote re (get_status_handler remote)
        (default_response_parser gunzip dec (format_with T (new_entity_formatter remote))))"

text \<open>\<open>NewHTTPProxy\<close> and \<open>CustomHTTPProxyFactory\<close>: \<open>do\<close> is the client's \<open>Do\<close>, the default executor.\<close>

definition custom_http_proxy_factory ::
  "'t flat_tree \<Rightarrow> (reader \<Rightarrow> goerror + reader) \<Rightarrow> (string \<Rightarrow> string \<Rightarrow> goerror option) \<Rightarrow> (url \<Rightarrow> string) \<Rightarrow>
   ('w \<Rightarrow> goerror option) \<Rightarrow> 'w executor \<Rightarrow> backend \<Rightarrow> 'w pipe" where
  "custom_http_proxy_factory T gunzip check print ctx_done do remote =
     new_http_proxy_with_http_executor T gunzip check print ctx_done remote do (b_Decoder remote)"

section \<open>Properties\<close>

definition status_ok :: "http_response \<Rightarrow> bool" where
  "status_ok resp \<longleftrightarrow> hp_StatusCode resp = 200 \<or> hp_StatusCode resp = 201"

text \<open>What can be read of a body, as the errors carry it.\<close>

definition readable :: "reader \<Rightarrow> string" where
  "readable b = (case rd_err b of None \<Rightarrow> rd_content b | Some _ \<Rightarrow> [])"

lemma status_handler_cases:
  "default_status_handler_with_prefix p resp =
     (if status_ok resp then (Some resp, None) else (None, Some (new_err_invalid_status_code resp p)))"
  by (simp add: default_status_handler_with_prefix_def status_ok_def)

lemma ec_vget:
  "ec_map e ns = (case vget (VMap e) [ns] of Some (VMap m) \<Rightarrow> Some m | _ \<Rightarrow> None)"
  "ec_map e ns = Some m \<Longrightarrow> vget (VMap e) [ns, k] = map_of m k"
  "ec_map e ns = None \<Longrightarrow> vget (VMap e) [ns, k] = None"
  by (auto simp: ec_map_def split: option.splits gval.splits)

lemma http_answer_default:
  "http_answer (default_status_handler_with_prefix p) rp resp =
     (if status_ok resp then rp resp else Some (None, Some (new_err_invalid_status_code resp p)))"
  by (simp add: http_answer_def status_handler_cases new_err_invalid_status_code_def)

lemma http_answer_error:
  "http_answer (error_status_handler_with_prefix p) rp resp =
     (if status_ok resp then rp resp
      else Some (None, Some (HTTPResponseError (hp_StatusCode resp) (readable (hp_Body resp))
        (header_get (hp_Header resp) ''Content-Type''))))"
  by (simp add: http_answer_def status_handler_cases error_status_handler_with_prefix_def
      error_status_handler_over_def new_http_response_error_def readable_def Let_def)

lemma http_answer_detailed:
  "http_answer (detailed_status_handler_with_prefix name p) rp resp =
     (if status_ok resp then rp resp
      else Some (Some (named_error_response name (hp_StatusCode resp)
        (NamedHTTPResponseError (hp_StatusCode resp) (readable (hp_Body resp))
          (header_get (hp_Header resp) ''Content-Type'') name)), None))"
  by (simp add: http_answer_def status_handler_cases detailed_status_handler_with_prefix_def
      detailed_status_handler_over_def new_http_response_error_def readable_def Let_def)

lemma get_status_handler_cases:
  "get_status_handler remote =
    (let p = ''['' @ b_Method remote @ '' '' @ b_URLPattern remote @ '']:''
     in case vget (VMap (b_ExtraConfig remote)) [http_Namespace, ''return_error_details''] of
          Some (VString name) \<Rightarrow>
            if name = [] then default_status_handler_with_prefix p else detailed_status_handler_with_prefix name p
        | Some _ \<Rightarrow> default_status_handler_with_prefix p
        | None \<Rightarrow>
            if vget (VMap (b_ExtraConfig remote)) [http_Namespace, ''return_error_code''] = Some (VBool True)
            then error_status_handler_with_prefix p else default_status_handler_with_prefix p)"
proof (cases "ec_map (b_ExtraConfig remote) http_Namespace")
  case None
  then show ?thesis by (simp add: get_status_handler_def ec_vget(3) Let_def del: vget.simps)
next
  case (Some m)
  note vget = ec_vget(2) [OF Some]
  have bool: "ec_bool m ''return_error_code'' = Some True \<longleftrightarrow> map_of m ''return_error_code'' = Some (VBool True)"
    by (auto simp: ec_bool_def split: option.split gval.split)
  show ?thesis
  proof (cases "map_of m ''return_error_details''")
    case None
    with Some vget bool show ?thesis
      by (cases "ec_bool m ''return_error_code''") (auto simp: get_status_handler_def Let_def simp del: vget.simps split: bool.split)
  next
    case (Some v)
    with \<open>ec_map _ _ = Some m\<close> vget show ?thesis
      by (cases v) (simp_all add: get_status_handler_def Let_def del: vget.simps)
  qed
qed

lemma status_handler_answer:
  "http_answer (get_status_handler remote) rp resp =
    (let code = hp_StatusCode resp; body = readable (hp_Body resp);
         enc = header_get (hp_Header resp) ''Content-Type'';
         default = Some (None, Some (new_err_invalid_status_code resp
            (''['' @ b_Method remote @ '' '' @ b_URLPattern remote @ '']:'')))
     in if status_ok resp then rp resp
        else case vget (VMap (b_ExtraConfig remote)) [http_Namespace, ''return_error_details''] of
               Some (VString name) \<Rightarrow>
                 if name = [] then default
                 else Some (Some (named_error_response name code (NamedHTTPResponseError code body enc name)), None)
             | Some _ \<Rightarrow> default
             | None \<Rightarrow>
                 if vget (VMap (b_ExtraConfig remote)) [http_Namespace, ''return_error_code''] = Some (VBool True)
                 then Some (None, Some (HTTPResponseError code body enc)) else default)"
  by (simp add: get_status_handler_cases Let_def http_answer_default http_answer_error http_answer_detailed
      split: option.split gval.split)

text \<open>C18. How a backend's status decides. With a status of 200 or 201 the parser gets the response. With
  any other it never runs: a non-empty string under \<open>return_error_details\<close> gives a response that
  carries status, body and content type under \<open>error_\<close> and that string; with no such entry and
  \<open>return_error_code\<close> set, an error with the status and body; otherwise the error names the status,
  the backend and the URL.\<close>

theorem status_decides:
  "http_answer (get_status_handler remote) rp resp =
    (let code = hp_StatusCode resp; body = readable (hp_Body resp);
         enc = header_get (hp_Header resp) ''Content-Type'';
         default = Some (None, Some (new_err_invalid_status_code resp
            (''['' @ b_Method remote @ '' '' @ b_URLPattern remote @ '']:'')))
     in if status_ok resp then rp resp
        else case vget (VMap (b_ExtraConfig remote)) [http_Namespace, ''return_error_details''] of
               Some (VString name) \<Rightarrow>
                 if name = [] then default
                 else Some (Some (named_error_response name code (NamedHTTPResponseError code body enc name)), None)
             | Some _ \<Rightarrow> default
             | None \<Rightarrow>
                 if vget (VMap (b_ExtraConfig remote)) [http_Namespace, ''return_error_code''] = Some (VBool True)
                 then Some (None, Some (HTTPResponseError code body enc)) else default)"
  by (rule status_handler_answer)

text \<open>The request a backend gets: the headers are copied, the method is in upper case.\<close>

lemma backend_request_spec:
  assumes "backend_request check print cfg r u = Inr q" and "gomap_ok (q_Headers r)"
  shows "hr_URL q = print u \<and> hr_Header q = q_Headers r \<and> hr_Body q = body_of cfg (q_Body r) \<and>
    hr_Method q = (if q_Method r = [] then ''GET'' else to_upper (q_Method r)) \<and>
    (\<forall>n. declared_length r = Some n \<longrightarrow> hr_ContentLength q = n)"
  using assms
  by (auto simp: backend_request_def new_http_request_def Let_def write_all_Nil to_upper_def
      split: option.splits sum.splits)

lemma http_proxy_Ret:
  assumes "new_http_proxy_detailed check print ctx_done cfg re ch rp w r = Ret (Some x, e) r' w'"
  shows "\<exists>u q resp. q_URL r = Some u \<and> backend_request check print cfg r u = Inr q \<and>
    re w q = (Inr resp, w') \<and> ctx_done w' = None \<and> r' = r \<and> http_answer ch rp resp = Some (Some x, e)"
  using assms by (auto simp: new_http_proxy_detailed_def split: option.splits sum.splits prod.splits)

lemma default_response_parser_Some:
  assumes "default_response_parser gunzip dec fmt resp = Some (Some x, e)"
  shows "e = None \<and> r_IsComplete x \<and>
    (\<exists>decode body data. dec = Some decode \<and>
       (if header_get (hp_Header resp) ''Content-Encoding'' = ''gzip'' then gunzip (hp_Body resp) = Inr body
        else body = hp_Body resp) \<and>
       decode body = Inr data \<and> fmt data = Some (r_Data x))"
  using assms
  by (cases "header_get (hp_Header resp) ''Content-Encoding'' = ''gzip''")
     (fastforce simp: default_response_parser_def split: option.splits sum.splits)+

lemma http_proxy_origin:
  assumes "new_http_proxy_with_http_executor T gunzip check print ctx_done remote re dec w r = Ret (Some x, e) r' w'"
  shows "\<exists>u q resp. q_URL r = Some u \<and> backend_request check print remote r u = Inr q \<and>
    re w q = (Inr resp, w') \<and> ctx_done w' = None \<and> e = None \<and> r' = r \<and>
    (if b_Encoding remote = NOOP
     then r_StatusCode x = hp_StatusCode resp \<and> r_Headers x = hp_Header resp \<and> r_Io x = Some (hp_Body resp) \<and>
       \<not> r_IsComplete x
     else if status_ok resp
     then r_IsComplete x \<and>
       (\<exists>decode body data. dec = Some decode \<and>
         (if header_get (hp_Header resp) ''Content-Encoding'' = ''gzip'' then gunzip (hp_Body resp) = Inr body
          else body = hp_Body resp) \<and>
         decode body = Inr data \<and> format_with T (new_entity_formatter remote) data = Some (r_Data x))
     else (\<exists>name. vget (VMap (b_ExtraConfig remote)) [http_Namespace, ''return_error_details''] = Some (VString name) \<and>
       name \<noteq> [] \<and> \<not> r_IsComplete x \<and> r_StatusCode x = hp_StatusCode resp))"
proof -
  show ?thesis
  proof (cases "b_Encoding remote = NOOP")
    case True
    with assms have "new_http_proxy_detailed check print ctx_done remote re noop_status_handler
        noop_response_parser w r = Ret (Some x, e) r' w'"
      by (simp add: new_http_proxy_with_http_executor_def)
    from http_proxy_Ret [OF this] True show ?thesis
      by (force simp: http_answer_def noop_status_handler_def noop_response_parser_def)
  next
    case False
    let ?rp = "default_response_parser gunzip dec (format_with T (new_entity_formatter remote))"
    from False assms have "new_http_proxy_detailed check print ctx_done remote re (get_status_handler remote)
        ?rp w r = Ret (Some x, e) r' w'"
      by (simp add: new_http_proxy_with_http_executor_def)
    from http_proxy_Ret [OF this] obtain u q resp where
      call: "q_URL r = Some u" "backend_request check print remote r u = Inr q" "re w q = (Inr resp, w')"
        "ctx_done w' = None" "r' = r"
      and answer: "http_answer (get_status_handler remote) ?rp resp = Some (Some x, e)" by blast
    show ?thesis
    proof (cases "status_ok resp")
      case True
      with answer have "?rp resp = Some (Some x, e)" by (simp add: status_handler_answer Let_def)
      from default_response_parser_Some [OF this] call False True show ?thesis by auto
    next
      case bad: False
      with answer show ?thesis using call False
        by (auto simp: status_handler_answer Let_def named_error_response_def simp del: vget.simps
            split: option.splits gval.splits if_splits)
    qed
  qed
qed

text \<open>C17. Whatever response the HTTP proxy hands on, the executor was called once, with the request built
  from this one, it answered, and the context was not done afterwards. For a no-op backend the
  response is the status, the headers and the body as they came; otherwise a complete response is the
  formatted result of decoding the (unzipped) body of an answer with status 200 or 201, and an
  incomplete one is the report of another status that the backend's configuration asks for.\<close>

theorem http_proxy_response:
  assumes "new_http_proxy_with_http_executor T gunzip check print ctx_done remote re dec w r = Ret (Some x, e) r' w'"
  shows "\<exists>u q resp. q_URL r = Some u \<and> backend_request check print remote r u = Inr q \<and>
    re w q = (Inr resp, w') \<and> ctx_done w' = None \<and> e = None \<and> r' = r \<and>
    (if b_Encoding remote = NOOP
     then r_StatusCode x = hp_StatusCode resp \<and> r_Headers x = hp_Header resp \<and> r_Io x = Some (hp_Body resp) \<and>
       \<not> r_IsComplete x
     else if status_ok resp
     then r_IsComplete x \<and>
       (\<exists>decode body data. dec = Some decode \<and>
         (if header_get (hp_Header resp) ''Content-Encoding'' = ''gzip'' then gunzip (hp_Body resp) = Inr body
          else body = hp_Body resp) \<and>
         decode body = Inr data \<and> format_with T (new_entity_formatter remote) data = Some (r_Data x))
     else (\<exists>name. vget (VMap (b_ExtraConfig remote)) [http_Namespace, ''return_error_details''] = Some (VString name) \<and>
       name \<noteq> [] \<and> \<not> r_IsComplete x \<and> r_StatusCode x = hp_StatusCode resp))"
  using assms by (rule http_proxy_origin)

text \<open>A backend that answers with text.\<close>

definition sample_flat :: "unit flat_tree" where
  "sample_flat = \<lparr>ft_new = \<lambda>d. None, ft_move = \<lambda>a b t. t, ft_append = \<lambda>a b t. t, ft_del = \<lambda>a t. t, ft_get = \<lambda>p t. VNil\<rparr>"

definition sample_http_response :: http_response where
  "sample_http_response = \<lparr>hp_StatusCode = 200, hp_Header = [], hp_Body = \<lparr>rd_content = ''hi'', rd_err = None\<rparr>, hp_URL = None\<rparr>"

definition sample_proxy :: "unit pipe" where
  "sample_proxy = new_http_proxy_with_http_executor sample_flat Inr (\<lambda>m u. None) u_rest (\<lambda>w. None) backend_zero
     (\<lambda>w q. (Inr sample_http_response, w)) (Some string_decoder)"

definition sample_request :: request where
  "sample_request = request_zero\<lparr>q_URL := Some \<lparr>u_rest = ''http://a/'', u_RawQuery = []\<rparr>\<rparr>"

lemma sample_proxy_answer:
  "sample_proxy () sample_request =
     Ret (Some \<lparr>r_Data = Some [(''content'', VString ''hi'')], r_IsComplete = True, r_Headers = [],
       r_StatusCode = 0, r_Io = None\<rparr>, None) sample_request ()"
  by code_simp

theorem http_proxy_response_witness:
  "\<exists>decode data. Some string_decoder = Some decode \<and> decode (hp_Body sample_http_response) = Inr data \<and>
     format_with sample_flat (new_entity_formatter backend_zero) data = Some (Some [(''content'', VString ''hi'')])"
proof -
  have "b_Encoding backend_zero \<noteq> NOOP" by (simp add: backend_zero_def NOOP_def)
  with http_proxy_response [OF sample_proxy_answer [unfolded sample_proxy_def]] show ?thesis
    by (auto simp: sample_http_response_def status_ok_def header_get_def)
qed

end
