(* ===== verification/RouterRequest.thy ===== *)
theory RouterRequest
  imports HttpProxy ConfigInit
begin

text \<open>
  From a client's request to a proxy request: \<open>NewRequest\<close> of \<open>src/router/gin/endpoint.go\<close>,
  \<open>NewRequestBuilder\<close> and \<open>clientIP\<close> of \<open>src/router/mux/endpoint.go\<close>, and the parameter extractors of
  the chi, gorilla and httptreemux routers. What the third-party engines and \<open>net/http\<close> say of a request (its parsed query,
  gin's client address, the matched parameters) is data of \<open>client_request\<close>; \<open>split_host_port\<close> is
  \<open>net.SplitHostPort\<close> and \<open>title\<close> is \<open>cases.Title(language.Und).String\<close>.
\<close>

section \<open>Constants\<close>

definition PucoraHeaderName :: string where "PucoraHeaderName = ''X-PUCORA''"
definition PucoraVersion :: string where "PucoraVersion = ''undefined''"
definition PucoraHeaderValue :: string where "PucoraHeaderValue = ''Version '' @ PucoraVersion"
definition PucoraUserAgent :: string where "PucoraUserAgent = ''Pucora Version '' @ PucoraVersion"
definition CompleteResponseHeaderName :: string where "CompleteResponseHeaderName = ''X-Pucora-Completed''"
definition HeaderCompleteResponseValue :: string where "HeaderCompleteResponseValue = ''true''"
definition HeaderIncompleteResponseValue :: string where "HeaderIncompleteResponseValue = ''false''"
definition HeadersToSend :: "string list" where "HeadersToSend = [''Content-Type'']"
definition UserAgentHeaderValue :: "string list" where "UserAgentHeaderValue = [PucoraUserAgent]"

section \<open>Requests\<close>

record client_request =
  cr_Method :: string
  cr_Path :: string
  cr_Query :: "string list gomap"
  cr_RequestURI :: string
  cr_User :: string                        \<comment> \<open>\<open>URL.User.String()\<close>\<close>
  cr_Fragment :: string
  cr_Host :: string
  cr_Header :: "string list gomap"
  cr_Body :: "reader option"
  cr_RemoteAddr :: string
  cr_ClientIP :: string                    \<comment> \<open>\<open>c.ClientIP()\<close> of gin\<close>
  cr_Params :: "(string \<times> string) list"    \<comment> \<open>the parameters of the matched route, in order\<close>

text \<open>The loop over the headers to send, which an asterisk ends with the client's own map.\<close>

fun forward_headers :: "string list \<Rightarrow> string list gomap \<Rightarrow> string list gomap \<Rightarrow> string list gomap" where
  "forward_headers [] hdr acc = acc"
| "forward_headers (k # ks) hdr acc =
     (if k = ''*'' then hdr
      else case map_of hdr (canonical_mime_header_key k) of
             Some h \<Rightarrow> forward_headers ks hdr (AList.update k h acc)
           | None \<Rightarrow> forward_headers ks hdr acc)"

definition router_headers :: "string \<Rightarrow> string \<Rightarrow> string list \<Rightarrow> string list gomap \<Rightarrow> string list gomap" where
  "router_headers ip host headersToSend hdr =
     (let headers = forward_headers headersToSend hdr [];
          headers = AList.update ''X-Forwarded-For'' [ip] headers;
          headers = AList.update ''X-Forwarded-Host'' [host] headers
      in if map_of headers ''User-Agent'' = None
         then AList.update ''User-Agent'' UserAgentHeaderValue headers
         else AList.update ''X-Forwarded-Via'' UserAgentHeaderValue headers)"

fun router_query :: "string list \<Rightarrow> string list gomap \<Rightarrow> string list gomap \<Rightarrow> string list gomap" where
  "router_query [] queryValues acc = acc"
| "router_query (q # qs) queryValues acc =
     (if q = ''*'' then queryValues
      else case map_of queryValues q of
             Some v \<Rightarrow> if length v > 0 then router_query qs queryValues (AList.update q v acc)
                       else router_query qs queryValues acc
           | None \<Rightarrow> router_query qs queryValues acc)"

definition request_from :: "client_request \<Rightarrow> string gomap \<Rightarrow> string \<Rightarrow> string list \<Rightarrow> string list \<Rightarrow> request" where
  "request_from r params ip queryString headersToSend =
     \<lparr>q_Method = cr_Method r, q_URL = None, q_Query = router_query queryString (cr_Query r) [],
      q_Path = cr_Path r, q_Body = cr_Body r, q_Params = params,
      q_Headers = router_headers ip (cr_Host r) headersToSend (cr_Header r)\<rparr>"

section \<open>Parameters\<close>

text \<open>The key of a parameter in gin, chi, and in gorilla and httptreemux. Route parameters have names
  that are not empty, so that slicing off the first byte is safe.\<close>

definition gin_param_key :: "string \<Rightarrow> string" where
  "gin_param_key key = canonical_mime_header_key (take 1 key) @ drop 1 key"

definition chi_param_key :: "(string \<Rightarrow> string) \<Rightarrow> string \<Rightarrow> string" where
  "chi_param_key title key = title (take 1 key) @ drop 1 key"

definition gorilla_param_key :: "(string \<Rightarrow> string) \<Rightarrow> string \<Rightarrow> string" where
  "gorilla_param_key title key = title key"

definition extract_params :: "(string \<Rightarrow> string) \<Rightarrow> (string \<times> string) list \<Rightarrow> string gomap" where
  "extract_params key ps = foldl (\<lambda>m (k, v). AList.update (key k) v m) [] ps"

section \<open>The two request builders\<close>

definition gin_new_request :: "string list \<Rightarrow> client_request \<Rightarrow> string list \<Rightarrow> request" where
  "gin_new_request headersToSend c queryString =
     request_from c (extract_params gin_param_key (cr_Params c)) (cr_ClientIP c) queryString
       (if headersToSend = [] then HeadersToSend else headersToSend)"

text \<open>\<open>strings.TrimSpace\<close>, for ASCII white space.\<close>

definition is_blank :: "char \<Rightarrow> bool" where
  "is_blank c \<longleftrightarrow> of_char c \<in> {9 :: nat, 10, 11, 12, 13, 32}"

definition trim_space :: "string \<Rightarrow> string" where
  "trim_space s = rev (dropWhile is_blank (rev (dropWhile is_blank s)))"

definition mux_client_ip :: "(string \<Rightarrow> string option) \<Rightarrow> client_request \<Rightarrow> string" where
  "mux_client_ip split_host_port r =
     (let fwd = trim_space (hd (split_on CHR '','' (header_get (cr_Header r) ''X-Forwarded-For'')));
          ip = (if fwd = [] then trim_space (header_get (cr_Header r) ''X-Real-Ip'') else fwd);
          addr = header_get (cr_Header r) ''X-Appengine-Remote-Addr''
      in if ip \<noteq> [] then ip
         else if addr \<noteq> [] then addr
         else case split_host_port (trim_space (cr_RemoteAddr r)) of Some h \<Rightarrow> h | None \<Rightarrow> [])"

definition mux_new_request ::
  "(string \<Rightarrow> string option) \<Rightarrow> (client_request \<Rightarrow> string gomap) \<Rightarrow> client_request \<Rightarrow> string list \<Rightarrow> string list \<Rightarrow> request" where
  "mux_new_request split_host_port paramExtractor r queryString headersToSend =
     request_from r (paramExtractor r) (mux_client_ip split_host_port r) queryString headersToSend"

definition noop_param_extractor :: "client_request \<Rightarrow> string gomap" where
  "noop_param_extractor r = []"

section \<open>Properties\<close>

lemma map_of_forward_headers:
  "''*'' \<notin> set ks \<Longrightarrow> map_of (forward_headers ks hdr acc) k =
     (if k \<in> set ks \<and> map_of hdr (canonical_mime_header_key k) \<noteq> None
      then map_of hdr (canonical_mime_header_key k) else map_of acc k)"
  by (induction ks hdr acc rule: forward_headers.induct) (auto simp: gomap_simps split: option.split)

lemma map_of_router_query:
  "''*'' \<notin> set qs \<Longrightarrow> map_of (router_query qs qv acc) k =
     (if k \<in> set qs \<and> (case map_of qv k of Some v \<Rightarrow> v \<noteq> [] | None \<Rightarrow> False) then map_of qv k else map_of acc k)"
  by (induction qs qv acc rule: router_query.induct) (auto simp: gomap_simps split: option.splits)

lemma forward_headers_all: "''*'' \<in> set ks \<Longrightarrow> forward_headers ks hdr acc = hdr"
  by (induction ks hdr acc rule: forward_headers.induct) (auto split: option.split)

lemma router_query_all: "''*'' \<in> set qs \<Longrightarrow> router_query qs qv acc = qv"
  by (induction qs qv acc rule: router_query.induct) (auto split: option.split)

text \<open>C26. What a router passes on of a client's request: of the headers the listed ones, or all of them when
  the list has an asterisk anywhere, but always its own \<open>X-Forwarded-For\<close> and \<open>X-Forwarded-Host\<close>, and
  a \<open>User-Agent\<close> of its own exactly when the client's is not forwarded; when it is, the router's goes
  out as \<open>X-Forwarded-Via\<close>. Of the query strings the listed ones that have a value, or all of them when that
  list has an asterisk.\<close>

theorem request_forwards_listed:
  "(let h = q_Headers (request_from r params ip qs ks);
        sent = (\<lambda>k. if ''*'' \<in> set ks then map_of (cr_Header r) k
                     else if k \<in> set ks then map_of (cr_Header r) (canonical_mime_header_key k) else None)
    in map_of h k =
         (if k = ''X-Forwarded-For'' then Some [ip]
          else if k = ''X-Forwarded-Host'' then Some [cr_Host r]
          else if k = ''User-Agent'' \<and> sent ''User-Agent'' = None then Some UserAgentHeaderValue
          else if k = ''X-Forwarded-Via'' \<and> sent ''User-Agent'' \<noteq> None then Some UserAgentHeaderValue
          else sent k)) \<and>
   map_of (q_Query (request_from r params ip qs ks)) q =
     (if ''*'' \<in> set qs then map_of (cr_Query r) q
      else if q \<in> set qs \<and> map_of (cr_Query r) q \<noteq> Some [] then map_of (cr_Query r) q else None)"
proof
  have sent: "map_of (forward_headers ks (cr_Header r) []) k =
      (if ''*'' \<in> set ks then map_of (cr_Header r) k
       else if k \<in> set ks then map_of (cr_Header r) (canonical_mime_header_key k) else None)" for k
    by (simp add: forward_headers_all map_of_forward_headers)
  show "let h = q_Headers (request_from r params ip qs ks);
        sent = (\<lambda>k. if ''*'' \<in> set ks then map_of (cr_Header r) k
                     else if k \<in> set ks then map_of (cr_Header r) (canonical_mime_header_key k) else None)
    in map_of h k =
         (if k = ''X-Forwarded-For'' then Some [ip]
          else if k = ''X-Forwarded-Host'' then Some [cr_Host r]
          else if k = ''User-Agent'' \<and> sent ''User-Agent'' = None then Some UserAgentHeaderValue
          else if k = ''X-Forwarded-Via'' \<and> sent ''User-Agent'' \<noteq> None then Some UserAgentHeaderValue
          else sent k)"
    by (auto simp: Let_def request_from_def router_headers_def gomap_simps sent)
  show "map_of (q_Query (request_from r params ip qs ks)) q =
     (if ''*'' \<in> set qs then map_of (cr_Query r) q
      else if q \<in> set qs \<and> map_of (cr_Query r) q \<noteq> Some [] then map_of (cr_Query r) q else None)"
    by (auto simp: request_from_def router_query_all map_of_router_query split: option.split)
qed

text \<open>The names under which gin and chi hand on the parameters of a route are those the backend's URL
  template was given at initialisation.\<close>

lemma gin_key_matches:
  assumes "\<And>c. ce_title env [c] = canonical_mime_header_key [c]" and "key \<noteq> []"
  shows "gin_param_key key = url_key env key" "chi_param_key (ce_title env) key = url_key env key"
  using assms by (cases key; simp add: gin_param_key_def chi_param_key_def url_key_def)+

text \<open>Titling the whole name, as the extractors for gorilla and httptreemux do, gives another one when the
  rest of the name has capitals, which titling lowers.\<close>

lemma gorilla_key_differs:
  assumes "ce_title env ''userId'' = ''Userid''" and "ce_title env ''u'' = ''U''"
  shows "map_of (extract_params (gorilla_param_key (ce_title env)) [(''userId'', v)]) (url_key env ''userId'') = None"
  using assms by (simp add: extract_params_def gorilla_param_key_def url_key_def)

end
