(* ===== verification/ResponseWriter.thy ===== *)
theory ResponseWriter
  imports RouterRequest
begin

text \<open>
  Writing a response. A \<open>http.ResponseWriter\<close> is the record \<open>writer\<close> of its methods over a state
  \<open>'w\<close>; the writer of \<open>net/http\<close>, the interceptor of \<open>src/router/mux/engine.go\<close> and \<open>safeCast\<close> of
  \<open>src/router/gin/safecast.go\<close> are instances. \<open>None\<close> is a panic. \<open>StreamCopy\<close> is that of
  \<open>src/proxy/streaming.go\<close>; a stream is the list of what its reads yield, and the error it ends
  with (\<open>None\<close> is \<open>io.EOF\<close>).
\<close>

section \<open>Writers\<close>

record 'w writer =
  wr_Header :: "'w \<Rightarrow> string list gomap"
  wr_SetHeader :: "string list gomap \<Rightarrow> 'w \<Rightarrow> 'w"  \<comment> \<open>a change of the map \<open>Header()\<close> returns\<close>
  wr_WriteHeader :: "int \<Rightarrow> 'w \<Rightarrow> 'w option"
  wr_Write :: "string \<Rightarrow> 'w \<Rightarrow> (nat \<times> goerror option) \<times> 'w"
  wr_Flush :: "('w \<Rightarrow> 'w) option"                    \<comment> \<open>the writer is a \<open>http.Flusher\<close>\<close>

definition header_set :: "'w writer \<Rightarrow> string \<Rightarrow> string \<Rightarrow> 'w \<Rightarrow> 'w" where
  "header_set W k v w = wr_SetHeader W (AList.update (canonical_mime_header_key k) [v] (wr_Header W w)) w"

definition added :: "string \<Rightarrow> string \<Rightarrow> string list gomap \<Rightarrow> string list gomap" where
  "added k v h =
     (let key = canonical_mime_header_key k
      in AList.update key ((case map_of h key of None \<Rightarrow> [] | Some vs \<Rightarrow> vs) @ [v]) h)"

definition header_add :: "'w writer \<Rightarrow> string \<Rightarrow> string \<Rightarrow> 'w \<Rightarrow> 'w" where
  "header_add W k v w = wr_SetHeader W (added k v (wr_Header W w)) w"

definition header_del :: "'w writer \<Rightarrow> string \<Rightarrow> 'w \<Rightarrow> 'w" where
  "header_del W k w = wr_SetHeader W (AList.delete (canonical_mime_header_key k) (wr_Header W w)) w"

text \<open>\<open>http.Error\<close>.\<close>

definition http_error :: "'w writer \<Rightarrow> string \<Rightarrow> int \<Rightarrow> 'w \<Rightarrow> 'w option" where
  "http_error W msg code w =
     (let w = header_del W ''Content-Length'' w;
          w = header_set W ''Content-Type'' ''text/plain; charset=utf-8'' w;
          w = header_set W ''X-Content-Type-Options'' ''nosniff'' w
      in map_option (\<lambda>w. snd (wr_Write W (msg @ [CHR 0x0A]) w)) (wr_WriteHeader W code w))"

text \<open>The loop that adds the headers of a backend's response.\<close>

definition add_headers :: "'w writer \<Rightarrow> string list gomap \<Rightarrow> 'w \<Rightarrow> 'w" where
  "add_headers W hs w = foldl (\<lambda>w (k, vs). foldl (\<lambda>w v. header_add W k v w) w vs) w hs"

section \<open>The writer of the server\<close>

record net_writer =
  nw_Header :: "string list gomap"
  nw_Info :: "(int \<times> string list gomap) list"  \<comment> \<open>the informational responses sent\<close>
  nw_Sent :: "(int \<times> string list gomap) option"  \<comment> \<open>the status line and header sent\<close>
  nw_Body :: string
  nw_Flushed :: nat                             \<comment> \<open>how much of the body flushes have pushed out\<close>

definition new_net_writer :: net_writer where
  "new_net_writer = \<lparr>nw_Header = [], nw_Info = [], nw_Sent = None, nw_Body = [], nw_Flushed = 0\<rparr>"

definition net_write_header :: "int \<Rightarrow> net_writer \<Rightarrow> net_writer option" where
  "net_write_header code w =
     (if nw_Sent w \<noteq> None then Some w
      else if code < 100 \<or> code > 999 then None
      else if code \<le> 199 \<and> code \<noteq> 101 then Some (w\<lparr>nw_Info := nw_Info w @ [(code, nw_Header w)]\<rparr>)
      else Some (w\<lparr>nw_Sent := Some (code, nw_Header w)\<rparr>))"

definition started_response :: "net_writer \<Rightarrow> net_writer" where
  "started_response w = (if nw_Sent w = None then w\<lparr>nw_Sent := Some (200, nw_Header w)\<rparr> else w)"

text \<open>What the client has got when the handler returns.\<close>

definition sent_response :: "net_writer \<Rightarrow> int \<times> string list gomap" where
  "sent_response w = the (nw_Sent (started_response w))"

definition body_allowed :: "int \<Rightarrow> bool" where
  "body_allowed status \<longleftrightarrow> \<not> (100 \<le> status \<and> status \<le> 199 \<or> status = 204 \<or> status = 304)"

definition declared_body_length :: "string list gomap \<Rightarrow> int option" where
  "declared_body_length h =
     (if header_get h ''Content-Length'' = [] then None
      else case atoi (header_get h ''Content-Length'') of
             Some n \<Rightarrow> if n \<ge> 0 then Some n else None
           | None \<Rightarrow> None)"

definition net_write :: "string \<Rightarrow> net_writer \<Rightarrow> (nat \<times> goerror option) \<times> net_writer" where
  "net_write s w0 =
     (let w = started_response w0; (status, h) = sent_response w0
      in if s = [] then ((0, None), w)
         else if \<not> body_allowed status
         then ((0, Some (ErrMsg ''http: request method or response status code does not allow body'')), w)
         else if (case declared_body_length h of
                    Some n \<Rightarrow> int (length (nw_Body w) + length s) > n
                  | None \<Rightarrow> False)
         then ((0, Some (ErrMsg ''http: wrote more than the declared Content-Length'')), w)
         else ((length s, None), w\<lparr>nw_Body := nw_Body w @ s\<rparr>))"

definition net_flush :: "net_writer \<Rightarrow> net_writer" where
  "net_flush w = (let w = started_response w in w\<lparr>nw_Flushed := length (nw_Body w)\<rparr>)"

definition net_http :: "net_writer writer" where
  "net_http = \<lparr>wr_Header = nw_Header, wr_SetHeader = (\<lambda>h w. w\<lparr>nw_Header := h\<rparr>),
     wr_WriteHeader = net_write_header, wr_Write = net_write, wr_Flush = Some net_flush\<rparr>"

section \<open>The interceptor and the safe cast\<close>

text \<open>\<open>HTTPErrorInterceptor\<close> embeds the interface, so that it has its three methods only; the state is
  that of the writer and whether the \<open>sync.Once\<close> is spent.\<close>

definition intercepted_write_header :: "'w writer \<Rightarrow> int \<Rightarrow> 'w \<times> bool \<Rightarrow> ('w \<times> bool) option" where
  "intercepted_write_header W code i =
     (case i of (w, once) \<Rightarrow>
        map_option (\<lambda>w. (w, True))
          (wr_WriteHeader W code
            (if \<not> once \<and> code \<noteq> 200
             then header_set W CompleteResponseHeaderName HeaderIncompleteResponseValue w else w)))"

definition error_interceptor :: "'w writer \<Rightarrow> ('w \<times> bool) writer" where
  "error_interceptor W =
     \<lparr>wr_Header = (\<lambda>(w, once). wr_Header W w),
      wr_SetHeader = (\<lambda>h (w, once). (wr_SetHeader W h w, once)),
      wr_WriteHeader = intercepted_write_header W,
      wr_Write = (\<lambda>s (w, once). case wr_Write W s w of (res, w') \<Rightarrow> (res, (w', once))),
      wr_Flush = None\<rparr>"

definition new_http_error_interceptor :: "'w \<Rightarrow> 'w \<times> bool" where
  "new_http_error_interceptor w = (w, False)"

definition safe_cast :: "'w writer \<Rightarrow> 'w writer" where
  "safe_cast W =
     \<lparr>wr_Header = wr_Header W, wr_SetHeader = wr_SetHeader W, wr_WriteHeader = wr_WriteHeader W,
      wr_Write = wr_Write W,
      wr_Flush = Some (\<lambda>w. case wr_Flush W of Some f \<Rightarrow> f w | None \<Rightarrow> w)\<rparr>"

section \<open>Streaming\<close>

definition err_short_write :: goerror where
  "err_short_write = ErrMsg ''short write''"

definition flush_if_can :: "'w writer \<Rightarrow> 'w \<Rightarrow> 'w" where
  "flush_if_can W w = (case wr_Flush W of Some f \<Rightarrow> f w | None \<Rightarrow> w)"

fun stream_copy :: "'w writer \<Rightarrow> string list \<Rightarrow> goerror option \<Rightarrow> nat \<Rightarrow> 'w \<Rightarrow> (nat \<times> goerror option) \<times> 'w" where
  "stream_copy W [] er written w = ((written, er), w)"
| "stream_copy W (buf # reads) er written w =
     (if buf = [] then stream_copy W reads er written w
      else case wr_Write W buf w of
             ((nw, Some ew), w') \<Rightarrow> ((written + nw, Some ew), w')
           | ((nw, None), w') \<Rightarrow>
               if nw \<noteq> length buf then ((written + nw, Some err_short_write), w')
               else stream_copy W reads er (written + nw) (flush_if_can W w'))"

section \<open>What streaming writes\<close>

text \<open>The contract of \<open>io.Writer\<close>, and of a writer that reports an error only where it falls short.\<close>

locale body_writer =
  fixes W :: "'w writer" and body :: "'w \<Rightarrow> string"
  assumes write_body: "wr_Write W s w = ((n, e), w') \<Longrightarrow> n \<le> length s \<and> (e = None \<longrightarrow> n = length s) \<and>
      body w' = body w @ take n s"
    and flush_body: "body (flush_if_can W w) = body w"
begin

lemma stream_copy_body:
  "stream_copy W reads er k w = ((n, e), w') \<Longrightarrow>
     k \<le> n \<and> n - k \<le> length (concat reads) \<and> body w' = body w @ take (n - k) (concat reads) \<and>
     (e = None \<longrightarrow> n - k = length (concat reads))"
proof (induction reads arbitrary: k w n e w')
  case (Cons buf reads)
  obtain m f u where wr: "wr_Write W buf w = ((m, f), u)" by (metis prod.exhaust)
  note law = write_body [OF wr]
  show ?case
  proof (cases "buf = [] \<or> f \<noteq> None")
    case True
    with Cons wr law show ?thesis by (auto split: if_splits)
  next
    case False
    then have [simp]: "f = None" "buf \<noteq> []" by auto
    with law have [simp]: "m = length buf" by simp
    have "stream_copy W reads er (k + length buf) (flush_if_can W u) = ((n, e), w')"
      using Cons.prems wr by simp
    from Cons.IH [OF this] law show ?thesis by (auto simp: flush_body)
  qed
qed simp

end

text \<open>A writer that flushes, and that takes nothing of what it refuses.\<close>

locale flushing_writer = body_writer W body for W :: "'w writer" and body :: "'w \<Rightarrow> string" +
  fixes pushed :: "'w \<Rightarrow> nat"
  assumes flush_all: "pushed (flush_if_can W w) = length (body w)"
    and write_pushed: "wr_Write W s w = (r, w') \<Longrightarrow> pushed w' = pushed w"
    and write_refused: "wr_Write W s w = ((n, Some e), w') \<Longrightarrow> n = 0"
begin

lemma stream_copy_pushed:
  "stream_copy W reads er k w = ((n, e), w') \<Longrightarrow>
     pushed w' = (if n = k then pushed w else length (body w')) \<and>
     (n - k = length (concat reads) \<longrightarrow> e = er)"
proof (induction reads arbitrary: k w n e w')
  case (Cons buf reads)
  obtain m f u where wr: "wr_Write W buf w = ((m, f), u)" by (metis prod.exhaust)
  note law = write_body [OF wr] write_pushed [OF wr]
  show ?case
  proof (cases "buf = []")
    case False
    show ?thesis
    proof (cases f)
      case None
      with law False have [simp]: "f = None" "buf \<noteq> []" "m = length buf" by auto
      have rest: "stream_copy W reads er (k + length buf) (flush_if_can W u) = ((n, e), w')"
        using Cons.prems wr by simp
      from Cons.IH [OF rest] stream_copy_body [OF rest] law show ?thesis
        by (auto simp: flush_body flush_all)
    next
      case (Some g)
      with wr write_refused have "m = 0" by blast
      with Some False Cons.prems wr law show ?thesis by auto
    qed
  qed (use Cons in simp)
qed simp

end

interpretation net: flushing_writer net_http nw_Body nw_Flushed
proof unfold_locales
  show "n \<le> length s \<and> (e = None \<longrightarrow> n = length s) \<and> nw_Body w' = nw_Body w @ take n s"
    if "wr_Write net_http s w = ((n, e), w')" for s w n e w'
    using that by (auto simp: net_http_def net_write_def Let_def started_response_def split: prod.splits if_splits)
qed (auto simp: net_http_def net_write_def flush_if_can_def net_flush_def Let_def started_response_def
    split: prod.splits if_splits)

text \<open>The interceptor keeps the contract of a writer, but not that of a flusher.\<close>

interpretation intercepted: body_writer "error_interceptor net_http" "\<lambda>i. nw_Body (fst i)"
proof unfold_locales
  show "n \<le> length s \<and> (e = None \<longrightarrow> n = length s) \<and> nw_Body (fst w') = nw_Body (fst w) @ take n s"
    if "wr_Write (error_interceptor net_http) s w = ((n, e), w')" for s w n e w'
    using that net.write_body [of s "fst w" n e "fst w'"]
    by (auto simp: error_interceptor_def split: prod.splits)
qed (auto simp: error_interceptor_def flush_if_can_def)

lemma intercepted_pushed:
  "wr_Write (error_interceptor net_http) s w = (r, w') \<Longrightarrow> nw_Flushed (fst w') = nw_Flushed (fst w)"
  using net.write_pushed [of s "fst w"] by (auto simp: error_interceptor_def split: prod.splits)

lemma intercepted_never_flushes:
  "nw_Flushed (fst (snd (stream_copy (error_interceptor net_http) reads er k w))) = nw_Flushed (fst w)"
proof (induction reads arbitrary: k w)
  case (Cons buf reads)
  obtain m f u where wr: "wr_Write (error_interceptor net_http) buf w = ((m, f), u)" by (metis prod.exhaust)
  have "flush_if_can (error_interceptor net_http) u = u" by (simp add: flush_if_can_def error_interceptor_def)
  with Cons wr intercepted_pushed [OF wr] show ?case by (cases f) auto
qed simp

lemma safe_cast_flusher: "wr_Flush W = Some f \<Longrightarrow> safe_cast W = W"
  by (simp add: safe_cast_def)

lemma safe_cast_keeps:
  "wr_Header (safe_cast W) = wr_Header W" "wr_SetHeader (safe_cast W) = wr_SetHeader W"
  "wr_WriteHeader (safe_cast W) = wr_WriteHeader W" "wr_Write (safe_cast W) = wr_Write W"
  "flush_if_can (safe_cast W) = flush_if_can W"
  by (auto simp: safe_cast_def flush_if_can_def fun_eq_iff split: option.split)

text \<open>\<open>StreamCopy\<close> writes the bytes of the stream in order, however they are cut into reads: all of them
  or, when it returns an error of the writer, a beginning, and it returns how many. Over the writer of
  the server every byte written has been flushed by then; over the interceptor of the basic engine none
  has, since the interceptor hides that the writer is a flusher.\<close>

theorem stream_copy_correct:
  "(case stream_copy net_http reads er 0 w of
      ((n, e), w') \<Rightarrow>
        n \<le> length (concat reads) \<and> nw_Body w' = nw_Body w @ take n (concat reads) \<and>
        (if n < length (concat reads) then e \<noteq> None else e = er) \<and>
        nw_Flushed w' = (if n = 0 then nw_Flushed w else length (nw_Body w'))) \<and>
   (case stream_copy (error_interceptor net_http) reads er 0 (w, once) of
      ((n, e), i) \<Rightarrow>
        n \<le> length (concat reads) \<and> nw_Body (fst i) = nw_Body w @ take n (concat reads) \<and>
        nw_Flushed (fst i) = nw_Flushed w)"
proof -
  obtain n e w' where one: "stream_copy net_http reads er 0 w = ((n, e), w')" by (metis prod.exhaust)
  obtain m f u where two: "stream_copy (error_interceptor net_http) reads er 0 (w, once) = ((m, f), u)"
    by (metis prod.exhaust)
  show ?thesis
    using net.stream_copy_body [OF one] net.stream_copy_pushed [OF one] intercepted.stream_copy_body [OF two]
      intercepted_never_flushes [of reads er 0 "(w, once)"]
    by (auto simp: one two)
qed

section \<open>Any handler behind the interceptor\<close>

text \<open>A handler is seen by what it does to its writer.\<close>

datatype writer_call =
    CallSet string string
  | CallAdd string string
  | CallDel string
  | CallWriteHeader int
  | CallWrite string

fun run_call :: "'w writer \<Rightarrow> writer_call \<Rightarrow> 'w \<Rightarrow> 'w option" where
  "run_call W (CallSet k v) w = Some (header_set W k v w)"
| "run_call W (CallAdd k v) w = Some (header_add W k v w)"
| "run_call W (CallDel k) w = Some (header_del W k w)"
| "run_call W (CallWriteHeader code) w = wr_WriteHeader W code w"
| "run_call W (CallWrite s) w = Some (snd (wr_Write W s w))"

fun run_calls :: "'w writer \<Rightarrow> writer_call list \<Rightarrow> 'w \<Rightarrow> 'w option" where
  "run_calls W [] w = Some w"
| "run_calls W (c # cs) w = (case run_call W c w of None \<Rightarrow> None | Some w' \<Rightarrow> run_calls W cs w')"

fun informational :: "writer_call \<Rightarrow> bool" where
  "informational (CallWriteHeader code) \<longleftrightarrow> 100 \<le> code \<and> code \<le> 199 \<and> code \<noteq> 101"
| "informational _ \<longleftrightarrow> False"

text \<open>What holds of the interceptor between two calls: a status other than 200 goes with the header, and
  the \<open>sync.Once\<close> is spent only once a status has been sent.\<close>

definition marked :: "net_writer \<times> bool \<Rightarrow> bool" where
  "marked i \<longleftrightarrow>
     (case nw_Sent (fst i) of
        None \<Rightarrow> \<not> snd i
      | Some (status, h) \<Rightarrow> status = 200 \<or> header_get h CompleteResponseHeaderName = HeaderIncompleteResponseValue)"

lemma canonical_complete [simp]:
  "canonical_mime_header_key CompleteResponseHeaderName = CompleteResponseHeaderName"
  by code_simp


lemma header_set_intercepted:
  "wr_Header (error_interceptor W) (w, once) = wr_Header W w"
  "wr_SetHeader (error_interceptor W) h (w, once) = (wr_SetHeader W h w, once)"
  by (simp_all add: error_interceptor_def)

lemma run_call_marked:
  assumes "run_call (error_interceptor net_http) c i = Some i'" and "\<not> informational c" and "marked i"
  shows "marked i'"
proof (cases c)
  case (CallWriteHeader code)
  obtain w once where [simp]: "i = (w, once)" by (cases i)
  show ?thesis
  proof (cases "nw_Sent w")
    case None
    with assms(3) have [simp]: "once = False" by (simp add: marked_def)
    from None assms CallWriteHeader show ?thesis
      by (auto simp: error_interceptor_def intercepted_write_header_def net_http_def net_write_header_def
          header_set_def marked_def header_get_def gomap_simps split: if_splits)
  next
    case (Some s)
    with assms CallWriteHeader show ?thesis
      by (auto simp: error_interceptor_def intercepted_write_header_def net_http_def net_write_header_def
          header_set_def marked_def split: if_splits)
  qed
next
  case (CallWrite s)
  with assms show ?thesis
    by (cases i) (auto simp: error_interceptor_def net_http_def net_write_def started_response_def marked_def
        Let_def split: prod.splits if_splits option.splits)
qed (use assms in \<open>auto simp: header_set_def header_add_def header_del_def error_interceptor_def
      net_http_def marked_def split: prod.splits option.splits\<close>)

lemma run_calls_marked:
  "run_calls (error_interceptor net_http) cs i = Some i' \<Longrightarrow> list_all (\<lambda>c. \<not> informational c) cs \<Longrightarrow>
     marked i \<Longrightarrow> marked i'"
  by (induction cs arbitrary: i) (auto split: option.splits dest: run_call_marked)

text \<open>C25. Whatever a handler behind the basic engine does with its writer, short of sending informational
  statuses, a client that sees another status than 200 sees the response flagged as incomplete.\<close>

theorem interceptor_flags_errors:
  assumes "run_calls (error_interceptor net_http) cs (new_http_error_interceptor new_net_writer) = Some (w, once)"
    and "list_all (\<lambda>c. \<not> informational c) cs"
    and "fst (sent_response w) \<noteq> 200"
  shows "header_get (snd (sent_response w)) CompleteResponseHeaderName = HeaderIncompleteResponseValue"
proof -
  have "marked (new_http_error_interceptor new_net_writer)"
    by (simp add: marked_def new_http_error_interceptor_def new_net_writer_def)
  from run_calls_marked [OF assms(1,2) this] assms(3) show ?thesis
    by (auto simp: marked_def sent_response_def started_response_def split: option.splits if_splits)
qed

definition lying_handler :: "writer_call list" where
  "lying_handler =
     [CallSet CompleteResponseHeaderName HeaderCompleteResponseValue, CallWriteHeader 503, CallWrite ''down'']"

lemma lying_handler_runs:
  "run_calls (error_interceptor net_http) lying_handler (new_http_error_interceptor new_net_writer) =
     Some (\<lparr>nw_Header = [(CompleteResponseHeaderName, [HeaderIncompleteResponseValue])], nw_Info = [],
            nw_Sent = Some (503, [(CompleteResponseHeaderName, [HeaderIncompleteResponseValue])]),
            nw_Body = ''down'', nw_Flushed = 0\<rparr>, True)"
  by code_simp

theorem interceptor_flags_errors_witness:
  "(case run_calls (error_interceptor net_http) lying_handler (new_http_error_interceptor new_net_writer) of
      None \<Rightarrow> False
    | Some (w, once) \<Rightarrow>
        header_get (snd (sent_response w)) CompleteResponseHeaderName = HeaderIncompleteResponseValue)"
  using interceptor_flags_errors [OF lying_handler_runs]
  by (simp add: lying_handler_runs) (simp add: lying_handler_def sent_response_def started_response_def)

end
