(* ===== verification/MuxRouter.thy ===== *)
theory MuxRouter
  imports ResponseWriter Middleware Registers
begin

text \<open>
  The router over \<open>net/http\<close>, which the routers for chi, gorilla, httptreemux and negroni reuse:
  renders (\<open>src/router/mux/render.go\<close>) and the endpoint handler (\<open>src/router/mux/endpoint.go\<close>);
  the engine and the registration are in \<open>MuxEngine\<close>. A handler works on a writer (any \<open>'w\<close>) and a world \<open>'v\<close> in which the endpoint's proxy
  runs; \<open>None\<close> is a panic. Standard-library code is a parameter: \<open>json.Marshal\<close>, and the way the
  body of a backend's response comes in reads.
\<close>

section \<open>Renders\<close>

type_synonym 'w render = "'w \<Rightarrow> vresponse option \<Rightarrow> 'w option"

record render_env =
  re_marshal :: "gval \<Rightarrow> goerror + string"
  re_reads :: "reader \<Rightarrow> string list"

definition write_bytes :: "'w writer \<Rightarrow> string \<Rightarrow> 'w \<Rightarrow> 'w" where
  "write_bytes W s w = snd (wr_Write W s w)"

definition write_json :: "'w writer \<Rightarrow> render_env \<Rightarrow> gval \<Rightarrow> 'w \<Rightarrow> 'w option" where
  "write_json W env v w =
     (case re_marshal env v of
        Inl err \<Rightarrow> http_error W (error_text err) 500 w
      | Inr js \<Rightarrow> Some (write_bytes W js w))"

definition data_value :: "gobj option \<Rightarrow> gval" where
  "data_value d = (case d of None \<Rightarrow> VNil | Some m \<Rightarrow> VMap m)"

definition data_field :: "gobj option \<Rightarrow> string \<Rightarrow> gval option" where
  "data_field d k = (case d of None \<Rightarrow> None | Some m \<Rightarrow> map_of m k)"

definition json_render :: "'w writer \<Rightarrow> render_env \<Rightarrow> 'w render" where
  "json_render W env w response =
     (let w = header_set W ''Content-Type'' ''application/json'' w
      in case response of
           None \<Rightarrow> Some (write_bytes W ''{}'' w)
         | Some r \<Rightarrow> write_json W env (data_value (r_Data r)) w)"

definition json_collection_render :: "'w writer \<Rightarrow> render_env \<Rightarrow> 'w render" where
  "json_collection_render W env w response =
     (let w = header_set W ''Content-Type'' ''application/json'' w
      in case response of
           None \<Rightarrow> Some (write_bytes W ''[]'' w)
         | Some r \<Rightarrow>
             (case data_field (r_Data r) ''collection'' of
                None \<Rightarrow> Some (write_bytes W ''[]'' w)
              | Some col \<Rightarrow> write_json W env col w))"

definition string_render :: "'w writer \<Rightarrow> 'w render" where
  "string_render W w response =
     (let w = header_set W ''Content-Type'' ''text/plain'' w
      in case response of
           None \<Rightarrow> Some (write_bytes W [] w)
         | Some r \<Rightarrow>
             (case data_field (r_Data r) ''content'' of
                None \<Rightarrow> Some (write_bytes W [] w)
              | Some d \<Rightarrow> (case d of VString msg \<Rightarrow> Some (write_bytes W msg w) | _ \<Rightarrow> Some (write_bytes W [] w))))"

definition noop_render :: "'w writer \<Rightarrow> render_env \<Rightarrow> 'w render" where
  "noop_render W env w response =
     (case response of
        None \<Rightarrow> http_error W [] 500 w
      | Some r \<Rightarrow>
          (let w = add_headers W (r_Headers r) w
           in case (if r_StatusCode r \<noteq> 0 then wr_WriteHeader W (r_StatusCode r) w else Some w) of
                None \<Rightarrow> None
              | Some w \<Rightarrow>
                  (case r_Io r of
                     None \<Rightarrow> Some w
                   | Some b \<Rightarrow> Some (snd (stream_copy W (re_reads env b) (rd_err b) 0 w)))))"

definition render_register :: "'w writer \<Rightarrow> render_env \<Rightarrow> 'w render untyped" where
  "render_register W env =
     [(STRING, string_render W), (JSON, json_render W env), (NOOP, noop_render W env),
      (''json-collection'', json_collection_render W env)]"

definition register_render :: "string \<Rightarrow> 'r \<Rightarrow> 'r untyped \<Rightarrow> 'r untyped" where
  "register_render name r reg = untyped_register name r reg"

definition get_with_fallback :: "'r untyped \<Rightarrow> string \<Rightarrow> 'r \<Rightarrow> 'r" where
  "get_with_fallback reg key fallback = (case untyped_get reg key of None \<Rightarrow> fallback | Some r \<Rightarrow> r)"

definition get_render :: "'r untyped \<Rightarrow> 'r \<Rightarrow> endpoint_config \<Rightarrow> 'r" where
  "get_render reg json cfg =
     (let fallback = (case e_Backend cfg of [b] \<Rightarrow> get_with_fallback reg (b_Encoding b) json | _ \<Rightarrow> json)
      in if e_OutputEncoding cfg = [] then fallback
         else get_with_fallback reg (e_OutputEncoding cfg) fallback)"

section \<open>The endpoint handler\<close>

definition default_to_http_error :: "goerror \<Rightarrow> int" where
  "default_to_http_error e = 500"

text \<open>The errors with a \<open>StatusCode\<close> method.\<close>

fun error_status :: "goerror \<Rightarrow> int option" where
  "error_status (HTTPResponseError c m e) = Some c"
| "error_status (NamedHTTPResponseError c m e n) = Some c"
| "error_status _ = None"

text \<open>\<open>int(d.Seconds())\<close>. The conversion goes through a \<open>float64\<close>, which is exact for whole seconds and
  does not round up to the next second below \<open>2 ^ 22\<close> seconds (48 days).\<close>

definition whole_seconds :: "duration \<Rightarrow> int" where
  "whole_seconds d = sint (int_quot d (sint second))"

definition cache_control_header_value :: "endpoint_config \<Rightarrow> string" where
  "cache_control_header_value cfg = ''public, max-age='' @ show_int (whole_seconds (e_CacheTTL cfg))"

definition is_cache_enabled :: "endpoint_config \<Rightarrow> bool" where
  "is_cache_enabled cfg \<longleftrightarrow> e_CacheTTL cfg \<noteq> 0"

definition has_data :: "vresponse option \<Rightarrow> bool" where
  "has_data response = (case response of None \<Rightarrow> False | Some r \<Rightarrow> (case r_Data r of None \<Rightarrow> False | Some m \<Rightarrow> m \<noteq> []))"

text \<open>The deadline of the context the proxy is called with: none for a streaming endpoint.\<close>

definition endpoint_deadline :: "endpoint_config \<Rightarrow> duration option" where
  "endpoint_deadline cfg = (if is_streaming_endpoint cfg then None else Some (e_Timeout cfg))"

definition after_proxy :: "bool \<Rightarrow> vresponse presult \<Rightarrow> vresponse presult" where
  "after_proxy ctx_done res =
     (case res of
        (response, None) \<Rightarrow> (response, if ctx_done then Some ErrInternalError else None)
      | (response, Some err) \<Rightarrow> (response, Some err))"

text \<open>What is written once the proxy has answered.\<close>

definition answer_endpoint ::
  "'w writer \<Rightarrow> (goerror \<Rightarrow> int) \<Rightarrow> endpoint_config \<Rightarrow> 'w render \<Rightarrow> vresponse presult \<Rightarrow> 'w \<Rightarrow> 'w option" where
  "answer_endpoint W errF cfg rend res w =
     (case res of (response, err) \<Rightarrow>
        (case (if has_data response then response else None) of
           Some r \<Rightarrow>
             (let w = (if r_IsComplete r
                       then let w = header_set W CompleteResponseHeaderName HeaderCompleteResponseValue w
                            in if is_cache_enabled cfg
                               then header_set W ''Cache-Control'' (cache_control_header_value cfg) w else w
                       else header_set W CompleteResponseHeaderName HeaderIncompleteResponseValue w)
              in rend (add_headers W (r_Headers r) w) response)
         | None \<Rightarrow>
             (let w = header_set W CompleteResponseHeaderName HeaderIncompleteResponseValue w
              in case err of
                   Some e \<Rightarrow>
                     (case error_status e of
                        Some code \<Rightarrow> http_error W (error_text e) code w
                      | None \<Rightarrow> http_error W (error_text e) (errF e) w)
                 | None \<Rightarrow> rend w response)))"

definition endpoint_headers :: "endpoint_config \<Rightarrow> string list" where
  "endpoint_headers cfg = (if e_HeadersToPass cfg = [] then HeadersToSend else e_HeadersToPass cfg)"

type_synonym ('w, 'v) handler = "client_request \<Rightarrow> 'w \<times> 'v \<Rightarrow> ('w \<times> 'v) option"

definition endpoint_handler ::
  "'w writer \<Rightarrow> 'w render untyped \<Rightarrow> 'w render \<Rightarrow> (client_request \<Rightarrow> string list \<Rightarrow> string list \<Rightarrow> request) \<Rightarrow>
   (goerror \<Rightarrow> int) \<Rightarrow> (duration option \<Rightarrow> 'v \<Rightarrow> bool) \<Rightarrow> endpoint_config \<Rightarrow> (duration option \<Rightarrow> 'v pipe) \<Rightarrow>
   ('w, 'v) handler" where
  "endpoint_handler W renders json rb errF ctx_done cfg prxy r wv =
     (case wv of (w, v) \<Rightarrow>
        (let headersToSend = endpoint_headers cfg;
             w = header_set W PucoraHeaderName PucoraHeaderValue w
         in if cr_Method r \<noteq> to_upper (e_Method cfg)
            then map_option (\<lambda>w. (w, v)) (http_error W [] 405
                   (header_set W CompleteResponseHeaderName HeaderIncompleteResponseValue w))
            else
              (let deadline = endpoint_deadline cfg
               in case prxy deadline v (rb r (e_QueryString cfg) headersToSend) of
                    Panic \<Rightarrow> None
                  | Ret res _ v' \<Rightarrow>
                      map_option (\<lambda>w. (w, v'))
                        (answer_endpoint W errF cfg (get_render renders json cfg)
                          (after_proxy (ctx_done deadline v') res) w))))"

section \<open>What the client sees\<close>

text \<open>The header \<open>k\<close> has \<open>v\<close> for its first value, and had when the header was sent.\<close>

definition pinned :: "string \<Rightarrow> string \<Rightarrow> net_writer \<Rightarrow> bool" where
  "pinned k v w \<longleftrightarrow>
     (\<exists>vs. map_of (nw_Header w) k = Some (v # vs)) \<and>
     (case nw_Sent w of None \<Rightarrow> True | Some (status, h) \<Rightarrow> \<exists>vs. map_of h k = Some (v # vs))"

named_theorems pinned_intros \<open>what keeps the first value of a header\<close>

lemma pinned_sent: "pinned k v w \<Longrightarrow> header_get (snd (sent_response w)) k = v"
  by (auto simp: pinned_def sent_response_def started_response_def header_get_def split: option.splits)

lemma pinned_set:
  "nw_Sent w = None \<Longrightarrow> canonical_mime_header_key k = k \<Longrightarrow> pinned k v (header_set net_http k v w)"
  by (simp add: pinned_def header_set_def net_http_def gomap_simps)

lemma pinned_set_other [pinned_intros]:
  "pinned k v w \<Longrightarrow> canonical_mime_header_key k' \<noteq> k \<Longrightarrow> pinned k v (header_set net_http k' v' w)"
  by (simp add: pinned_def header_set_def net_http_def gomap_simps)

lemma pinned_del [pinned_intros]:
  "pinned k v w \<Longrightarrow> canonical_mime_header_key k' \<noteq> k \<Longrightarrow> pinned k v (header_del net_http k' w)"
  by (simp add: pinned_def header_del_def net_http_def gomap_simps)

lemma pinned_add [pinned_intros]: "pinned k v w \<Longrightarrow> pinned k v (header_add net_http k' v' w)"
  by (auto simp: pinned_def header_add_def added_def net_http_def gomap_simps Let_def)

lemma pinned_add_values: "pinned k v w \<Longrightarrow> pinned k v (foldl (\<lambda>w v'. header_add net_http k' v' w) w vs)"
  by (induction vs arbitrary: w) (auto intro: pinned_intros)

lemma pinned_add_headers [pinned_intros]: "pinned k v w \<Longrightarrow> pinned k v (add_headers net_http hs w)"
  unfolding add_headers_def by (induction hs arbitrary: w) (auto intro: pinned_add_values)

lemma pinned_write_header:
  "pinned k v w \<Longrightarrow> wr_WriteHeader net_http code w = Some w' \<Longrightarrow> pinned k v w'"
  by (auto simp: pinned_def net_http_def net_write_header_def split: if_splits)

lemma pinned_started: "pinned k v w \<Longrightarrow> pinned k v (started_response w)"
  by (auto simp: pinned_def started_response_def)

lemma pinned_write [pinned_intros]: "pinned k v w \<Longrightarrow> pinned k v (snd (wr_Write net_http s w))"
  by (drule pinned_started) (auto simp: net_http_def net_write_def Let_def pinned_def split: prod.splits)

lemma pinned_flush [pinned_intros]: "pinned k v w \<Longrightarrow> pinned k v (flush_if_can net_http w)"
  by (drule pinned_started) (auto simp: net_http_def flush_if_can_def net_flush_def Let_def pinned_def)

lemma pinned_stream_copy [pinned_intros]:
  "pinned k v w \<Longrightarrow> pinned k v (snd (stream_copy net_http reads er n w))"
proof (induction reads arbitrary: n w)
  case (Cons buf reads)
  have "pinned k v u" if "wr_Write net_http buf w = (res, u)" for res u
    using pinned_write [OF Cons.prems, of buf] that by simp
  with Cons.prems Cons.IH Cons.IH [OF pinned_flush] show ?case by (auto split: prod.split option.split)
qed simp

lemma canonical_keys [simp]:
  "canonical_mime_header_key ''Content-Type'' = ''Content-Type''"
  "canonical_mime_header_key ''Content-Length'' = ''Content-Length''"
  "canonical_mime_header_key ''X-Content-Type-Options'' = ''X-Content-Type-Options''"
  "canonical_mime_header_key ''Cache-Control'' = ''Cache-Control''"
  "canonical_mime_header_key PucoraHeaderName = ''X-Pucora''"
  by code_simp+

text \<open>The headers the renders and \<open>http.Error\<close> set or delete themselves.\<close>

definition entity_header :: "string \<Rightarrow> bool" where
  "entity_header k \<longleftrightarrow> k \<in> {''Content-Type'', ''Content-Length'', ''X-Content-Type-Options''}"

lemma pinned_http_error:
  assumes "pinned k v w" and "\<not> entity_header k" and "http_error net_http msg code w = Some w'"
  shows "pinned k v w'"
proof -
  let ?u = "header_set net_http ''X-Content-Type-Options'' ''nosniff''
    (header_set net_http ''Content-Type'' ''text/plain; charset=utf-8'' (header_del net_http ''Content-Length'' w))"
  from assms(1,2) have "pinned k v ?u"
    by (intro pinned_set_other pinned_del) (auto simp: entity_header_def)
  moreover from assms(3) obtain x where "wr_WriteHeader net_http code ?u = Some x"
    and "w' = snd (wr_Write net_http (msg @ [CHR 0x0A]) x)"
    by (auto simp: http_error_def Let_def)
  ultimately show ?thesis by (blast intro: pinned_write_header pinned_write)
qed

text \<open>The shipped renders keep every other header as it is.\<close>

definition keeps :: "net_writer render \<Rightarrow> bool" where
  "keeps f \<longleftrightarrow> (\<forall>k v w res w'. pinned k v w \<longrightarrow> \<not> entity_header k \<longrightarrow> f w res = Some w' \<longrightarrow> pinned k v w')"

lemma pinned_content_type:
  "pinned k v w \<Longrightarrow> \<not> entity_header k \<Longrightarrow> pinned k v (header_set net_http ''Content-Type'' v' w)"
  by (rule pinned_set_other) (auto simp: entity_header_def)

lemma pinned_write_json:
  "pinned k v w \<Longrightarrow> \<not> entity_header k \<Longrightarrow> write_json net_http env x w = Some w' \<Longrightarrow> pinned k v w'"
  by (auto simp: write_json_def write_bytes_def split: sum.splits intro: pinned_http_error pinned_write)

lemma keeps_json: "keeps (json_render net_http env)"
  unfolding keeps_def json_render_def Let_def write_bytes_def
  by (auto split: option.splits intro: pinned_write_json pinned_write pinned_content_type)

lemma keeps_json_collection: "keeps (json_collection_render net_http env)"
  unfolding keeps_def json_collection_render_def Let_def write_bytes_def
  by (auto split: option.splits intro: pinned_write_json pinned_write pinned_content_type)

lemma keeps_string: "keeps (string_render net_http)"
  unfolding keeps_def string_render_def Let_def write_bytes_def
  by (auto split: option.splits gval.splits intro: pinned_write pinned_content_type)

lemma keeps_noop: "keeps (noop_render net_http env)"
  unfolding keeps_def noop_render_def Let_def
  by (auto split: option.splits if_splits intro: pinned_http_error pinned_add_headers pinned_stream_copy
      dest: pinned_write_header [OF pinned_add_headers] intro!: pinned_stream_copy)

text \<open>All the values of a header. What the headers of a backend's response add to it is \<open>carried\<close>.\<close>

definition header_values :: "string list gomap \<Rightarrow> string \<Rightarrow> string list" where
  "header_values h k = (case map_of h k of None \<Rightarrow> [] | Some vs \<Rightarrow> vs)"

definition carried :: "string list gomap \<Rightarrow> string \<Rightarrow> string list" where
  "carried hs k = concat (map (\<lambda>(k', vs). if canonical_mime_header_key k' = k then vs else []) hs)"

text \<open>The header \<open>k\<close> has exactly the values \<open>vs\<close>, and had when the header was sent.\<close>

definition holds :: "string \<Rightarrow> string list \<Rightarrow> net_writer \<Rightarrow> bool" where
  "holds k vs w \<longleftrightarrow> header_values (nw_Header w) k = vs \<and>
     (case nw_Sent w of None \<Rightarrow> True | Some (status, h) \<Rightarrow> header_values h k = vs)"

lemma holds_sent: "holds k vs w \<Longrightarrow> header_values (snd (sent_response w)) k = vs"
  by (auto simp: holds_def sent_response_def started_response_def split: option.splits)

lemma holds_set_other:
  "holds k vs w \<Longrightarrow> canonical_mime_header_key k' \<noteq> k \<Longrightarrow> holds k vs (header_set net_http k' v' w)"
  by (simp add: holds_def header_values_def header_set_def net_http_def gomap_simps)

lemma holds_set:
  "nw_Sent w = None \<Longrightarrow> canonical_mime_header_key k = k \<Longrightarrow> holds k [v] (header_set net_http k v w)"
  by (simp add: holds_def header_values_def header_set_def net_http_def gomap_simps)

lemma holds_del:
  "holds k vs w \<Longrightarrow> canonical_mime_header_key k' \<noteq> k \<Longrightarrow> holds k vs (header_del net_http k' w)"
  by (simp add: holds_def header_values_def header_del_def net_http_def gomap_simps)

lemma holds_write_header: "holds k vs w \<Longrightarrow> wr_WriteHeader net_http code w = Some w' \<Longrightarrow> holds k vs w'"
  by (auto simp: holds_def net_http_def net_write_header_def split: if_splits)

lemma holds_started: "holds k vs w \<Longrightarrow> holds k vs (started_response w)"
  by (auto simp: holds_def started_response_def)

lemma holds_write: "holds k vs w \<Longrightarrow> holds k vs (snd (wr_Write net_http s w))"
  by (drule holds_started) (auto simp: net_http_def net_write_def Let_def holds_def split: prod.splits)

lemma holds_flush: "holds k vs w \<Longrightarrow> holds k vs (flush_if_can net_http w)"
  by (drule holds_started) (auto simp: net_http_def flush_if_can_def net_flush_def Let_def holds_def)

lemma holds_stream_copy: "holds k vs w \<Longrightarrow> holds k vs (snd (stream_copy net_http reads er n w))"
proof (induction reads arbitrary: n w)
  case (Cons buf reads)
  have "holds k vs u" if "wr_Write net_http buf w = (res, u)" for res u
    using holds_write [OF Cons.prems, of buf] that by simp
  with Cons.prems Cons.IH Cons.IH [OF holds_flush] show ?case by (auto split: prod.split option.split)
qed simp

lemma holds_http_error:
  assumes "holds k vs w" and "\<not> entity_header k" and "http_error net_http msg code w = Some w'"
  shows "holds k vs w'"
proof -
  let ?u = "header_set net_http ''X-Content-Type-Options'' ''nosniff''
    (header_set net_http ''Content-Type'' ''text/plain; charset=utf-8'' (header_del net_http ''Content-Length'' w))"
  from assms(1,2) have "holds k vs ?u"
    by (intro holds_set_other holds_del) (auto simp: entity_header_def)
  moreover from assms(3) obtain x where "wr_WriteHeader net_http code ?u = Some x"
    and "w' = snd (wr_Write net_http (msg @ [CHR 0x0A]) x)"
    by (auto simp: http_error_def Let_def)
  ultimately show ?thesis by (blast intro: holds_write_header holds_write)
qed

lemma unsent_headers [simp]:
  "nw_Sent (header_set net_http k v w) = nw_Sent w" "nw_Sent (header_add net_http k v w) = nw_Sent w"
  by (simp_all add: header_set_def header_add_def net_http_def)

lemma unsent_add_values [simp]: "nw_Sent (foldl (\<lambda>w v'. header_add net_http k' v' w) w vs) = nw_Sent w"
  by (induction vs arbitrary: w) auto

lemma unsent_add_headers [simp]: "nw_Sent (add_headers net_http hs w) = nw_Sent w"
  unfolding add_headers_def by (induction hs arbitrary: w) auto

lemma values_add:
  "header_values (nw_Header (header_add net_http k' v w)) k =
     header_values (nw_Header w) k @ (if canonical_mime_header_key k' = k then [v] else [])"
  by (auto simp: header_values_def header_add_def added_def net_http_def gomap_simps Let_def split: option.split)

lemma values_add_values:
  "header_values (nw_Header (foldl (\<lambda>w v'. header_add net_http k' v' w) w vs)) k =
     header_values (nw_Header w) k @ (if canonical_mime_header_key k' = k then vs else [])"
  by (induction vs arbitrary: w) (simp_all add: values_add)

lemma values_add_headers:
  "header_values (nw_Header (add_headers net_http hs w)) k = header_values (nw_Header w) k @ carried hs k"
  unfolding add_headers_def carried_def
  by (induction hs arbitrary: w) (auto simp: values_add_values)

lemma holds_add_headers:
  "holds k vs w \<Longrightarrow> nw_Sent w = None \<Longrightarrow> holds k (vs @ carried hs k) (add_headers net_http hs w)"
  by (simp add: holds_def values_add_headers)

text \<open>A shipped render leaves the values of any other header as they are, or adds those of the backend's
  headers, as the no-op render does.\<close>

definition only_carries :: "net_writer render \<Rightarrow> bool" where
  "only_carries f \<longleftrightarrow>
     (\<forall>k vs w res w'. holds k vs w \<longrightarrow> nw_Sent w = None \<longrightarrow> \<not> entity_header k \<longrightarrow> f w res = Some w' \<longrightarrow>
       holds k vs w' \<or> (\<exists>r. res = Some r \<and> holds k (vs @ carried (r_Headers r) k) w'))"

lemma holds_content_type:
  "holds k vs w \<Longrightarrow> \<not> entity_header k \<Longrightarrow> holds k vs (header_set net_http ''Content-Type'' v' w)"
  by (rule holds_set_other) (auto simp: entity_header_def)

lemma holds_write_json:
  "holds k vs w \<Longrightarrow> \<not> entity_header k \<Longrightarrow> write_json net_http env x w = Some w' \<Longrightarrow> holds k vs w'"
  by (auto simp: write_json_def write_bytes_def split: sum.splits intro: holds_http_error holds_write)

lemma carries_json: "only_carries (json_render net_http env)"
  unfolding only_carries_def json_render_def Let_def write_bytes_def
  by (auto split: option.splits intro: holds_write_json holds_write holds_content_type)

lemma carries_json_collection: "only_carries (json_collection_render net_http env)"
  unfolding only_carries_def json_collection_render_def Let_def write_bytes_def
  by (auto split: option.splits intro: holds_write_json holds_write holds_content_type)

lemma carries_string: "only_carries (string_render net_http)"
  unfolding only_carries_def string_render_def Let_def write_bytes_def
  by (auto split: option.splits gval.splits intro: holds_write holds_content_type)

lemma carries_noop: "only_carries (noop_render net_http env)"
  unfolding only_carries_def
proof (intro allI impI)
  fix k vs and w :: net_writer and res w'
  assume "holds k vs w" "nw_Sent w = None" "\<not> entity_header k" and run: "noop_render net_http env w res = Some w'"
  show "holds k vs w' \<or> (\<exists>r. res = Some r \<and> holds k (vs @ carried (r_Headers r) k) w')"
  proof (cases res)
    case None
    with run \<open>holds k vs w\<close> \<open>\<not> entity_header k\<close> show ?thesis by (auto simp: noop_render_def intro: holds_http_error)
  next
    case (Some r)
    have "holds k (vs @ carried (r_Headers r) k) (add_headers net_http (r_Headers r) w)"
      by (rule holds_add_headers) fact+
    with run Some show ?thesis
      by (auto simp: noop_render_def Let_def split: option.splits if_splits
          intro: holds_stream_copy dest: holds_write_header)
  qed
qed

lemma get_with_fallback_in: "get_with_fallback reg k f = f \<or> get_with_fallback reg k f \<in> snd ` set reg"
  by (force simp: get_with_fallback_def untyped_get_def split: option.split dest: map_of_SomeD)

lemma get_render_in: "get_render reg f cfg \<in> insert f (snd ` set reg)"
proof -
  define g where "g = (case e_Backend cfg of [b] \<Rightarrow> get_with_fallback reg (b_Encoding b) f | _ \<Rightarrow> f)"
  have "g \<in> insert f (snd ` set reg)"
    using get_with_fallback_in [of reg _ f] by (auto simp: g_def split: list.split)
  with get_with_fallback_in [of reg "e_OutputEncoding cfg" g] show ?thesis
    by (auto simp: get_render_def g_def [symmetric])
qed

lemma carries_render:
  "only_carries (get_render (render_register net_http env) (json_render net_http env) cfg)"
  using get_render_in [of "render_register net_http env" "json_render net_http env" cfg]
  by (auto simp: render_register_def carries_json carries_json_collection carries_string carries_noop)

lemma keeps_render: "keeps (get_render (render_register net_http env) (json_render net_http env) cfg)"
  using get_render_in [of "render_register net_http env" "json_render net_http env" cfg]
  by (auto simp: render_register_def keeps_json keeps_json_collection keeps_string keeps_noop)

text \<open>The text of an error answers in place of the body.\<close>

lemma http_error_sends:
  assumes "http_error net_http msg code w = Some w'" and "nw_Sent w = None"
  shows "fst (sent_response w') = (if code \<le> 199 \<and> code \<noteq> 101 then 200 else code)"
    and "nw_Body w' = nw_Body w @ (if body_allowed (fst (sent_response w')) then msg @ [CHR 0x0A] else [])"
  using assms
  by (auto simp: http_error_def Let_def net_http_def net_write_header_def net_write_def header_set_def
      header_del_def sent_response_def started_response_def declared_body_length_def header_get_def
      gomap_simps body_allowed_def split: if_splits prod.splits)

text \<open>A status \<open>net/http\<close> takes; with any other it panics.\<close>

definition sane_status :: "int \<Rightarrow> bool" where
  "sane_status code \<longleftrightarrow> 100 \<le> code \<and> code \<le> 999"

lemma write_header_panics: "nw_Sent w = None \<Longrightarrow> wr_WriteHeader net_http code w = None \<longleftrightarrow> \<not> sane_status code"
  by (auto simp: net_http_def net_write_header_def sane_status_def)

lemma http_error_panics: "nw_Sent w = None \<Longrightarrow> http_error net_http msg code w = None \<longleftrightarrow> \<not> sane_status code"
  by (auto simp: http_error_def Let_def net_http_def net_write_header_def header_set_def header_del_def
      sane_status_def)

lemma unsent_same_body [simp]:
  "nw_Body (header_set net_http k v w) = nw_Body w" "nw_Body (header_add net_http k v w) = nw_Body w"
  by (simp_all add: header_set_def header_add_def net_http_def)

lemma add_headers_same_body [simp]: "nw_Body (add_headers net_http hs w) = nw_Body w"
proof -
  have "nw_Body (foldl (\<lambda>w v'. header_add net_http k' v' w) w vs) = nw_Body w" for k' vs w
    by (induction vs arbitrary: w) auto
  then show ?thesis unfolding add_headers_def by (induction hs arbitrary: w) auto
qed

definition panics_only_on_status :: "net_writer render \<Rightarrow> bool" where
  "panics_only_on_status f \<longleftrightarrow>
     (\<forall>w res. nw_Sent w = None \<longrightarrow> f w res = None \<longrightarrow>
       (\<exists>r. res = Some r \<and> r_StatusCode r \<noteq> 0 \<and> \<not> sane_status (r_StatusCode r)))"

lemma panics_only_on_statusD:
  "panics_only_on_status f \<Longrightarrow> nw_Sent w = None \<Longrightarrow> f w res = None \<Longrightarrow>
     \<exists>r. res = Some r \<and> \<not> sane_status (r_StatusCode r)"
  unfolding panics_only_on_status_def by blast

lemma write_json_returns: "nw_Sent w = None \<Longrightarrow> write_json net_http env x w \<noteq> None"
  by (simp add: write_json_def http_error_panics sane_status_def del: not_None_eq split: sum.split)

lemma panics_json: "panics_only_on_status (json_render net_http env)"
  by (auto simp: panics_only_on_status_def json_render_def Let_def write_json_returns split: option.splits)

lemma panics_json_collection: "panics_only_on_status (json_collection_render net_http env)"
  by (auto simp: panics_only_on_status_def json_collection_render_def Let_def write_json_returns split: option.splits)

lemma panics_string: "panics_only_on_status (string_render net_http)"
  by (auto simp: panics_only_on_status_def string_render_def Let_def split: option.splits gval.splits)

lemma panics_noop: "panics_only_on_status (noop_render net_http env)"
  by (auto simp: panics_only_on_status_def noop_render_def Let_def http_error_panics write_header_panics
      split: option.splits if_splits) (simp_all add: sane_status_def)

lemma panics_render:
  "panics_only_on_status (get_render (render_register net_http env) (json_render net_http env) cfg)"
  using get_render_in [of "render_register net_http env" "json_render net_http env" cfg]
  by (auto simp: render_register_def panics_json panics_json_collection panics_string panics_noop)

lemma complete_names [simp]:
  "CompleteResponseHeaderName \<noteq> ''X-Pucora''" "CompleteResponseHeaderName \<noteq> ''Cache-Control''"
  "''Cache-Control'' \<noteq> CompleteResponseHeaderName"
  "\<not> entity_header ''X-Pucora''" "\<not> entity_header ''Cache-Control''" "\<not> entity_header CompleteResponseHeaderName"
  by (simp_all add: entity_header_def CompleteResponseHeaderName_def)

lemma pinned_complete:
  assumes "nw_Sent w = None"
  shows "pinned CompleteResponseHeaderName x (header_set net_http CompleteResponseHeaderName x w)"
    and "pinned ''X-Pucora'' v w \<Longrightarrow> pinned ''X-Pucora'' v (header_set net_http CompleteResponseHeaderName x w)"
  using assms by (simp_all add: pinned_set pinned_set_other)

text \<open>The values of \<open>Cache-Control\<close> in the answer, when it is none to an error.\<close>

definition cache_values :: "endpoint_config \<Rightarrow> vresponse option \<Rightarrow> string list" where
  "cache_values cfg response =
     (if has_data response
      then (if r_IsComplete (the response) \<and> is_cache_enabled cfg then [cache_control_header_value cfg] else []) @
           carried (r_Headers (the response)) ''Cache-Control''
      else [])"

lemma answer_endpoint_spec:
  assumes "nw_Sent w = None" and "nw_Body w = []" and "pinned ''X-Pucora'' v w" and "holds ''Cache-Control'' [] w"
    and "keeps rend" and "panics_only_on_status rend" and "only_carries rend"
  shows "case answer_endpoint net_http errF cfg rend (response, err) w of
      None \<Rightarrow>
        (if has_data response \<or> err = None then \<exists>r. response = Some r \<and> \<not> sane_status (r_StatusCode r)
         else \<exists>e. err = Some e \<and> \<not> sane_status (case error_status e of Some c \<Rightarrow> c | None \<Rightarrow> errF e))
    | Some w' \<Rightarrow>
        (let h = snd (sent_response w'); status = fst (sent_response w')
         in header_get h ''X-Pucora'' = v \<and>
            header_get h CompleteResponseHeaderName =
              (if has_data response \<and> r_IsComplete (the response)
               then HeaderCompleteResponseValue else HeaderIncompleteResponseValue) \<and>
            (if has_data response \<or> err = None
             then (header_values h ''Cache-Control'' = cache_values cfg response \<or>
                   (\<exists>r. response = Some r \<and> header_values h ''Cache-Control'' =
                      cache_values cfg response @ carried (r_Headers r) ''Cache-Control'')) \<and>
                  (\<exists>u. nw_Sent u = None \<and> nw_Body u = [] \<and> rend u response = Some w')
             else header_values h ''Cache-Control'' = [] \<and>
                  (let code = (case error_status (the err) of Some c \<Rightarrow> c | None \<Rightarrow> errF (the err))
                   in status = (if code \<le> 199 \<and> code \<noteq> 101 then 200 else code) \<and>
                      nw_Body w' = (if body_allowed status then error_text (the err) @ [CHR 0x0A] else []))))"
proof (cases "has_data response")
  case True
  then obtain r where resp: "response = Some r" by (auto simp: has_data_def split: option.splits)
  define complete where "complete = r_IsComplete r"
  define u where "u = (if complete
     then let w = header_set net_http CompleteResponseHeaderName HeaderCompleteResponseValue w
          in if is_cache_enabled cfg
             then header_set net_http ''Cache-Control'' (cache_control_header_value cfg) w else w
     else header_set net_http CompleteResponseHeaderName HeaderIncompleteResponseValue w)"
  let ?u = "add_headers net_http (r_Headers r) u"
  have answer: "answer_endpoint net_http errF cfg rend (response, err) w = rend ?u response"
    using True by (simp add: answer_endpoint_def u_def complete_def Let_def resp)
  have sent: "nw_Sent ?u = None" "nw_Sent u = None" "nw_Body ?u = []" using assms(1,2) by (simp_all add: u_def Let_def)
  have pins: "pinned ''X-Pucora'' v u"
    "pinned CompleteResponseHeaderName
      (if complete then HeaderCompleteResponseValue else HeaderIncompleteResponseValue) u"
    using assms(1,3) by (auto simp: u_def Let_def pinned_complete pinned_set pinned_set_other)
  have kept: "pinned k x w'" if "pinned k x u" "\<not> entity_header k" "rend ?u response = Some w'" for k x w'
    using assms(5) pinned_add_headers [OF that(1)] that(2,3) unfolding keeps_def by blast
  have "holds ''Cache-Control'' (if complete \<and> is_cache_enabled cfg then [cache_control_header_value cfg] else []) u"
    using assms(1,4) by (simp add: u_def Let_def holds_set holds_set_other)
  from holds_add_headers [OF this sent(2), of "r_Headers r"]
  have cache: "holds ''Cache-Control'' (cache_values cfg response) ?u"
    using True by (simp add: cache_values_def resp complete_def)
  show ?thesis
  proof (cases "rend ?u response")
    case None
    from panics_only_on_statusD [OF assms(6) sent(1) None] have "\<not> sane_status (r_StatusCode r)" by (simp add: resp)
    with None True show ?thesis unfolding answer by (simp add: resp)
  next
    case (Some w')
    note first = pinned_sent [OF kept [OF _ _ Some]]
    have "holds ''Cache-Control'' (cache_values cfg response) w' \<or> (\<exists>r. response = Some r \<and>
        holds ''Cache-Control'' (cache_values cfg response @ carried (r_Headers r) ''Cache-Control'') w')"
      using assms(7) cache sent(1) Some complete_names(5) unfolding only_carries_def by blast
    then have "header_values (snd (sent_response w')) ''Cache-Control'' = cache_values cfg response \<or>
        (\<exists>r. response = Some r \<and> header_values (snd (sent_response w')) ''Cache-Control'' =
           cache_values cfg response @ carried (r_Headers r) ''Cache-Control'')"
      using holds_sent by blast
    moreover have "\<exists>u. nw_Sent u = None \<and> nw_Body u = [] \<and> rend u response = Some w'"
      using sent(1,3) Some by blast
    ultimately show ?thesis
      using True Some first [OF pins(1)] first [OF pins(2)]
      unfolding answer by (simp add: resp complete_def Let_def)
  qed
next
  case False
  define u where "u = header_set net_http CompleteResponseHeaderName HeaderIncompleteResponseValue w"
  have pins: "pinned ''X-Pucora'' v u" "pinned CompleteResponseHeaderName HeaderIncompleteResponseValue u"
    using assms(1,3) by (simp_all add: u_def pinned_complete)
  have cache: "holds ''Cache-Control'' [] u" using assms(4) by (simp add: u_def holds_set_other)
  have sent: "nw_Sent u = None" "nw_Body u = []" using assms(1,2) by (simp_all add: u_def)
  show ?thesis
  proof (cases err)
    case None
    have answer: "answer_endpoint net_http errF cfg rend (response, err) w = rend u response"
      using False None by (simp add: answer_endpoint_def u_def Let_def)
    show ?thesis
    proof (cases "rend u response")
      case N: None
      with N None panics_only_on_statusD [OF assms(6) sent(1) N] show ?thesis
        unfolding answer by simp
    next
      case (Some w')
      have kept: "pinned k x w'" if "pinned k x u" "\<not> entity_header k" for k x
        using assms(5) that Some unfolding keeps_def by blast
      have "holds ''Cache-Control'' [] w' \<or> (\<exists>r. response = Some r \<and>
          holds ''Cache-Control'' ([] @ carried (r_Headers r) ''Cache-Control'') w')"
        using assms(7) cache sent(1) Some complete_names(5) unfolding only_carries_def by blast
      then have "header_values (snd (sent_response w')) ''Cache-Control'' = [] \<or>
          (\<exists>r. response = Some r \<and> header_values (snd (sent_response w')) ''Cache-Control'' =
             carried (r_Headers r) ''Cache-Control'')"
        using holds_sent by fastforce
      with False Some None show ?thesis
        using pinned_sent [OF kept [OF pins(1)]] pinned_sent [OF kept [OF pins(2)]] sent
        unfolding answer by (auto simp: Let_def cache_values_def)
    qed
  next
    case (Some e)
    define code where "code = (case error_status e of Some c \<Rightarrow> c | None \<Rightarrow> errF e)"
    have answer: "answer_endpoint net_http errF cfg rend (response, err) w = http_error net_http (error_text e) code u"
      using False Some by (simp add: answer_endpoint_def u_def Let_def code_def split: option.split)
    show ?thesis
    proof (cases "http_error net_http (error_text e) code u")
      case None
      have "\<not> sane_status code" using None http_error_panics [OF sent(1)] by blast
      with None Some False show ?thesis unfolding answer by (simp flip: code_def)
    next
      case S: (Some w')
      note pin = pinned_sent [OF pinned_http_error [OF _ _ S]]
      have "header_values (snd (sent_response w')) ''Cache-Control'' = []"
        by (rule holds_sent) (rule holds_http_error [OF cache _ S], simp)
      with False show ?thesis
        using pin [OF pins(1)] pin [OF pins(2)] http_error_sends [OF S sent(1)] sent(2)
        unfolding Some answer [unfolded Some] S option.case Let_def option.sel code_def [symmetric] by simp
    qed
  qed
qed

definition started_writer :: net_writer where
  "started_writer = header_set net_http PucoraHeaderName PucoraHeaderValue new_net_writer"

lemma started_writer [simp]:
  "nw_Sent started_writer = None" "nw_Body started_writer = []" "pinned ''X-Pucora'' PucoraHeaderValue started_writer"
  "holds ''Cache-Control'' [] started_writer"
  by (simp_all add: started_writer_def new_net_writer_def pinned_def holds_def header_values_def header_set_def
      net_http_def gomap_simps)

lemma handler_other_method:
  assumes "cr_Method r \<noteq> to_upper (e_Method cfg)"
  shows "\<exists>w. endpoint_handler net_http renders json rb errF ctx_done cfg prxy r (new_net_writer, v) = Some (w, v) \<and>
    fst (sent_response w) = 405 \<and> header_get (snd (sent_response w)) ''X-Pucora'' = PucoraHeaderValue \<and>
    header_get (snd (sent_response w)) CompleteResponseHeaderName = HeaderIncompleteResponseValue"
proof -
  define u where "u = header_set net_http CompleteResponseHeaderName HeaderIncompleteResponseValue started_writer"
  have u: "nw_Sent u = None" by (simp add: u_def)
  with http_error_panics [OF u, of "[]" 405] obtain w where w: "http_error net_http [] 405 u = Some w"
    by (auto simp: sane_status_def)
  have pins: "pinned ''X-Pucora'' PucoraHeaderValue u"
    "pinned CompleteResponseHeaderName HeaderIncompleteResponseValue u"
    by (simp_all add: u_def pinned_complete)
  note pin = pinned_sent [OF pinned_http_error [OF _ _ w]]
  show ?thesis
    using assms w pin [OF pins(1)] pin [OF pins(2)] http_error_sends [OF w u]
    by (simp add: endpoint_handler_def Let_def flip: started_writer_def u_def)
qed

lemma handler_answers:
  assumes "cr_Method r = to_upper (e_Method cfg)"
    and "prxy (endpoint_deadline cfg) v (rb r (e_QueryString cfg) (endpoint_headers cfg)) = Ret res q v'"
  shows "endpoint_handler net_http renders json rb errF ctx_done cfg prxy r (new_net_writer, v) =
    map_option (\<lambda>w. (w, v')) (answer_endpoint net_http errF cfg (get_render renders json cfg)
      (after_proxy (ctx_done (endpoint_deadline cfg) v') res) started_writer)"
  using assms by (simp add: endpoint_handler_def Let_def flip: started_writer_def)

text \<open>Who is told that the response is complete got a complete one.\<close>

lemma told_complete:
  assumes "endpoint_handler net_http (render_register net_http env) (json_render net_http env) rb errF ctx_done
      cfg prxy r (new_net_writer, v) = Some (w, v')"
    and "prxy (endpoint_deadline cfg) v (rb r (e_QueryString cfg) (endpoint_headers cfg)) = Ret res q v''"
    and "header_get (snd (sent_response w)) CompleteResponseHeaderName = HeaderCompleteResponseValue"
  shows "\<exists>x e. res = (Some x, e) \<and> r_IsComplete x"
proof (cases "cr_Method r = to_upper (e_Method cfg)")
  case True
  obtain response err where res: "after_proxy (ctx_done (endpoint_deadline cfg) v'') res = (response, err)"
    by (metis prod.exhaust)
  note run = handler_answers [of r cfg prxy v rb res q v'', OF True assms(2)]
  from assms(1) have "answer_endpoint net_http errF cfg
      (get_render (render_register net_http env) (json_render net_http env) cfg) (response, err) started_writer = Some w"
    unfolding run res by (simp only: option.map_sel map_option_eq_Some) blast
  note told = answer_endpoint_spec [OF started_writer keeps_render [of env cfg] panics_render [of env cfg] carries_render [of env cfg],
      where errF = errF and cfg = cfg and response = response and err = err,
      unfolded this option.case Let_def, THEN conjunct2, THEN conjunct1]
  have "has_data response \<and> r_IsComplete (the response)"
    using told unfolding assms(3)
    by (rule contrapos_pp) (simp add: HeaderCompleteResponseValue_def HeaderIncompleteResponseValue_def)
  with res show ?thesis
    by (cases res) (auto simp: after_proxy_def has_data_def split: option.splits)
next
  case False
  from handler_other_method [where renders = "render_register net_http env" and json = "json_render net_http env",
      OF this] assms(1)
  have "header_get (snd (sent_response w)) CompleteResponseHeaderName = HeaderIncompleteResponseValue"
    by (metis option.inject prod.inject)
  with assms(3) have "HeaderCompleteResponseValue = HeaderIncompleteResponseValue" by simp
  then show ?thesis by (simp add: HeaderCompleteResponseValue_def HeaderIncompleteResponseValue_def)
qed

lemma after_proxy_eq:
  "after_proxy ctx_done (response, err) = (response, if err = None \<and> ctx_done then Some ErrInternalError else err)"
  by (simp add: after_proxy_def split: option.split)

text \<open>C19. The answer of an endpoint. A request with another method gets a 405 and the proxy is not called.
  Otherwise the client is told the response is complete exactly when the proxy returned data marked as
  complete. The handler itself sets \<open>Cache-Control\<close> only then, and only when the endpoint has a cache
  time, with that time; all other values are those the backend's response carries, which only a response
  with data passes on, or a render that adds them (the no-op one). When there is no data and an error (that
  of the proxy, or the internal one when the context is done), the client gets the error's status, or the
  translated one, with the error's text, and no caching; otherwise the error does not matter and the render
  of the endpoint writes the response. The handler panics only when the proxy does or the status is none that
  \<open>net/http\<close> takes.\<close>

theorem mux_endpoint_response:
  "let deadline = endpoint_deadline cfg;
       answer = prxy deadline v (rb r (e_QueryString cfg) (endpoint_headers cfg));
       err_of = (\<lambda>err v'. if err = None \<and> ctx_done deadline v' then Some ErrInternalError else err);
       code_of = (\<lambda>e. case error_status e of Some c \<Rightarrow> c | None \<Rightarrow> errF e)
   in case endpoint_handler net_http (render_register net_http env) (json_render net_http env) rb errF ctx_done
      cfg prxy r (new_net_writer, v) of
     None \<Rightarrow>
       cr_Method r = to_upper (e_Method cfg) \<and>
       (case answer of
          Panic \<Rightarrow> True
        | Ret (response, perr) _ v' \<Rightarrow>
            if has_data response \<or> err_of perr v' = None then \<exists>x. response = Some x \<and> \<not> sane_status (r_StatusCode x)
            else \<not> sane_status (code_of (the (err_of perr v'))))
   | Some (w, v') \<Rightarrow>
       (let h = snd (sent_response w); status = fst (sent_response w); cache = header_values h ''Cache-Control''
        in header_get h ''X-Pucora'' = PucoraHeaderValue \<and>
           (if cr_Method r \<noteq> to_upper (e_Method cfg)
            then v' = v \<and> status = 405 \<and> header_get h CompleteResponseHeaderName = HeaderIncompleteResponseValue
            else
              case answer of
                Panic \<Rightarrow> False
              | Ret (response, perr) _ v'' \<Rightarrow>
                  (let complete = (has_data response \<and> r_IsComplete (the response));
                       own = (if complete \<and> e_CacheTTL cfg \<noteq> 0
                              then [''public, max-age='' @ show_int (whole_seconds (e_CacheTTL cfg))] else []);
                       theirs = (case response of None \<Rightarrow> [] | Some x \<Rightarrow> carried (r_Headers x) ''Cache-Control'')
                   in v' = v'' \<and>
                      header_get h CompleteResponseHeaderName =
                        (if complete then HeaderCompleteResponseValue else HeaderIncompleteResponseValue) \<and>
                      (if has_data response then cache \<in> {own @ theirs, own @ theirs @ theirs}
                       else if err_of perr v' = None then cache \<in> {[], theirs} else cache = []) \<and>
                      (if has_data response \<or> err_of perr v' = None
                       then \<exists>u. nw_Sent u = None \<and> nw_Body u = [] \<and>
                         get_render (render_register net_http env) (json_render net_http env) cfg u response = Some w
                       else status = (let code = code_of (the (err_of perr v'))
                                      in if code \<le> 199 \<and> code \<noteq> 101 then 200 else code) \<and>
                            nw_Body w = (if body_allowed status then error_text (the (err_of perr v')) @ [CHR 0x0A]
                                         else [])))))"
proof (cases "cr_Method r = to_upper (e_Method cfg)")
  case False
  from handler_other_method [OF this, of "render_register net_http env" "json_render net_http env" rb errF ctx_done prxy v]
    False show ?thesis by (auto simp: Let_def)
next
  case True
  show ?thesis
  proof (cases "prxy (endpoint_deadline cfg) v (rb r (e_QueryString cfg) (endpoint_headers cfg))")
    case Panic
    with True show ?thesis by (simp add: endpoint_handler_def Let_def)
  next
    case (Ret res q v')
    obtain response perr where res: "res = (response, perr)" by (metis prod.exhaust)
    define err where "err = (if perr = None \<and> ctx_done (endpoint_deadline cfg) v' then Some ErrInternalError else perr)"
    have after: "after_proxy (ctx_done (endpoint_deadline cfg) v') res = (response, err)"
      by (simp only: res after_proxy_eq err_def)
    note run = handler_answers [of r cfg prxy v rb res q v', OF True Ret]
    let ?answer = "answer_endpoint net_http errF cfg
      (get_render (render_register net_http env) (json_render net_http env) cfg) (response, err) started_writer"
    note spec = answer_endpoint_spec [OF started_writer keeps_render [of env cfg] panics_render [of env cfg]
        carries_render [of env cfg], where errF = errF and cfg = cfg and response = response and err = err]
    show ?thesis
    proof (cases ?answer)
      case None
      from spec [unfolded None option.case] show ?thesis
        unfolding run after None option.map option.case Ret [unfolded res] ret.case prod.case Let_def err_def [symmetric]
        using True by (cases "has_data response"; cases err) (simp_all cong: option.case_cong)
    next
      case (Some w)
      have cache: "cache_values cfg response =
          (if has_data response then
             (if r_IsComplete (the response) \<and> e_CacheTTL cfg \<noteq> 0
              then [''public, max-age='' @ show_int (whole_seconds (e_CacheTTL cfg))] else []) @
             (case response of None \<Rightarrow> [] | Some x \<Rightarrow> carried (r_Headers x) ''Cache-Control'') else [])"
        by (simp add: cache_values_def is_cache_enabled_def cache_control_header_value_def has_data_def
            split: option.split)
      note told = spec [unfolded Some option.case Let_def cache]
      show ?thesis
      proof (cases "has_data response")
        case True': True
        then obtain x where x: "response = Some x" by (auto simp: has_data_def split: option.splits)
        from told True' True show ?thesis
          unfolding run after Some option.map option.case Ret [unfolded res] ret.case prod.case Let_def err_def [symmetric]
          by (simp only: x option.case option.sel simp_thms if_True if_False append_assoc) auto
      next
        case False
        from told False True show ?thesis
          unfolding run after Some option.map option.case Ret [unfolded res] ret.case prod.case Let_def err_def [symmetric]
          by (cases err; cases response) (simp_all only: option.case option.sel simp_thms if_True if_False, auto)
      qed
    qed
  qed
qed

end
