(* ===== verification/MuxEngine.thy ===== *)
theory MuxEngine
  imports MuxRouter
begin

text \<open>
  The engines behind the routers over \<open>net/http\<close> and what is registered with them: \<open>BasicEngine\<close>
  (\<open>src/router/mux/engine.go\<close>), the router (\<open>src/router/mux/router.go\<close>), and the health, debug and echo endpoints. \<open>http.ServeMux\<close> is a
  parameter: \<open>refuses\<close>, the patterns it panics on, \<open>route\<close>, the pattern it picks for a request,
  and \<open>miss\<close>, its answer when there is none.
\<close>

section \<open>The service's own endpoints\<close>

definition health_handler :: "'w writer \<Rightarrow> ('w, 'v) handler" where
  "health_handler W r wv =
     (case wv of (w, v) \<Rightarrow>
        Some (write_bytes W ''{\"status\":\"ok\"}'' (header_set W ''Content-Type'' ''application/json'' w), v))"

definition debug_handler :: "'w writer \<Rightarrow> render_env \<Rightarrow> ('w, 'v) handler" where
  "debug_handler W env r wv =
     (case wv of (w, v) \<Rightarrow>
        (let js = (case re_marshal env (VMap [(''message'', VString ''pong'')]) of Inr js \<Rightarrow> js | Inl _ \<Rightarrow> [])
         in Some (write_bytes W js (header_set W ''Content-Type'' ''application/json'' w), v)))"

definition multi_value :: "string list gomap \<Rightarrow> gval" where
  "multi_value m = VMap (map (\<lambda>(k, vs). (k, VList (map VString vs))) m)"

text \<open>\<open>echoResponse\<close>, with the names and in the order of its JSON encoding. What can be read of the body
  is echoed.\<close>

definition echo_response :: "client_request \<Rightarrow> gval" where
  "echo_response r =
     VMap [(''req_uri'', VString (cr_RequestURI r)),
           (''req_uri_details'', VMap [(''user'', VString (cr_User r)), (''host'', VString (cr_Host r)),
              (''path'', VString (cr_Path r)), (''query'', VString (encode_query (cr_Query r))),
              (''fragment'', VString (cr_Fragment r))]),
           (''req_method'', VString (cr_Method r)),
           (''req_querystring'', multi_value (cr_Query r)),
           (''req_body'', VString (case cr_Body r of None \<Rightarrow> [] | Some b \<Rightarrow> rd_content b)),
           (''req_headers'', multi_value (cr_Header r))]"

definition echo_handler :: "'w writer \<Rightarrow> render_env \<Rightarrow> ('w, 'v) handler" where
  "echo_handler W env r wv =
     (case wv of (w, v) \<Rightarrow>
        (case re_marshal env (echo_response r) of
           Inl err \<Rightarrow> map_option (\<lambda>w. (w, v)) (wr_WriteHeader W 500 w)
         | Inr resp \<Rightarrow> Some (write_bytes W resp (header_set W ''Content-Type'' ''application/json'' w), v)))"

section \<open>The basic engine\<close>

record 'h basic_engine =
  be_handler :: "string list"           \<comment> \<open>the patterns registered with the \<open>ServeMux\<close>\<close>
  be_dict :: "'h gomap gomap"

definition default_engine :: "'h basic_engine" where
  "default_engine = \<lparr>be_handler = [], be_dict = []\<rparr>"

definition engine_handle ::
  "(string list \<Rightarrow> string \<Rightarrow> bool) \<Rightarrow> string \<Rightarrow> string \<Rightarrow> 'h \<Rightarrow> 'h basic_engine \<Rightarrow> 'h basic_engine option" where
  "engine_handle refuses pattern method h e =
     (case map_of (be_dict e) pattern of
        None \<Rightarrow>
          if refuses (be_handler e) pattern then None
          else Some \<lparr>be_handler = be_handler e @ [pattern],
                     be_dict = AList.update pattern [(method, h)] (be_dict e)\<rparr>
      | Some hs \<Rightarrow> Some (e\<lparr>be_dict := AList.update pattern (AList.update method h hs) (be_dict e)\<rparr>))"

definition engine_lookup :: "'h basic_engine \<Rightarrow> string \<times> string \<Rightarrow> 'h option" where
  "engine_lookup e k = Option.bind (map_of (be_dict e) (fst k)) (\<lambda>hs. map_of hs (snd k))"

definition registrable_handler ::
  "'w writer \<Rightarrow> ('w, 'v) handler basic_engine \<Rightarrow> string \<Rightarrow> ('w, 'v) handler" where
  "registrable_handler W e pattern r wv =
     (case engine_lookup e (pattern, cr_Method r) of
        Some h \<Rightarrow> h r wv
      | None \<Rightarrow>
          (case wv of (w, v) \<Rightarrow>
             map_option (\<lambda>w. (w, v)) (http_error W [] 405
               (header_set W CompleteResponseHeaderName HeaderIncompleteResponseValue w))))"

text \<open>\<open>ServeHTTP\<close>: the handlers get the interceptor for their writer.\<close>

definition engine_serve ::
  "(string list \<Rightarrow> client_request \<Rightarrow> string option) \<Rightarrow> ('w \<times> bool, 'v) handler \<Rightarrow> 'w writer \<Rightarrow>
   ('w \<times> bool, 'v) handler basic_engine \<Rightarrow> ('w, 'v) handler" where
  "engine_serve route miss W e r wv =
     (case wv of (w, v) \<Rightarrow>
        map_option (\<lambda>(i, v'). (fst i, v'))
          ((case route (be_handler e) r of
              Some pattern \<Rightarrow> registrable_handler (error_interceptor W) e pattern
            | None \<Rightarrow> miss) r (new_http_error_interceptor w, v)))"

section \<open>Registering endpoints\<close>

definition is_valid_sequential_endpoint :: "endpoint_config \<Rightarrow> bool" where
  "is_valid_sequential_endpoint e = True"

text \<open>\<open>handle\<close> is the engine's method; the engines of the other routers are third-party.\<close>

definition register_pucora_endpoint ::
  "(string \<Rightarrow> string \<Rightarrow> 'h \<Rightarrow> 'e \<Rightarrow> 'e option) \<Rightarrow> string \<Rightarrow> endpoint_config \<Rightarrow> 'h \<Rightarrow> nat \<Rightarrow> 'e \<Rightarrow> 'e option" where
  "register_pucora_endpoint handle method endpoint h totBackends e =
     (let method = to_upper method; path = e_Endpoint endpoint
      in if method \<noteq> ''GET'' \<and> totBackends > 1 \<and> \<not> is_valid_sequential_endpoint endpoint then Some e
         else if method \<in> {''GET'', ''POST'', ''PUT'', ''PATCH'', ''DELETE''} then handle path method h e
         else Some e)"

fun register_pucora_endpoints ::
  "(string \<Rightarrow> string \<Rightarrow> 'h \<Rightarrow> 'e \<Rightarrow> 'e option) \<Rightarrow> (endpoint_config \<Rightarrow> goerror + 'p) \<Rightarrow>
   (endpoint_config \<Rightarrow> 'p \<Rightarrow> 'h) \<Rightarrow> endpoint_config list \<Rightarrow> 'e \<Rightarrow> 'e option" where
  "register_pucora_endpoints handle pf hf [] e = Some e"
| "register_pucora_endpoints handle pf hf (c # cs) e =
     (case pf c of
        Inl err \<Rightarrow> register_pucora_endpoints handle pf hf cs e
      | Inr proxyStack \<Rightarrow>
          (case register_pucora_endpoint handle (e_Method c) c (hf c proxyStack) (length (e_Backend c)) e of
             None \<Rightarrow> None
           | Some e' \<Rightarrow> register_pucora_endpoints handle pf hf cs e'))"

section \<open>Running the router\<close>

definition http_methods :: "string list" where
  "http_methods = [''GET'', ''POST'', ''PUT'', ''PATCH'', ''DELETE'', ''HEAD'', ''OPTIONS'', ''CONNECT'', ''TRACE'']"

fun handle_methods ::
  "(string \<Rightarrow> string \<Rightarrow> 'h \<Rightarrow> 'e \<Rightarrow> 'e option) \<Rightarrow> string \<Rightarrow> string list \<Rightarrow> 'h \<Rightarrow> 'e \<Rightarrow> 'e option" where
  "handle_methods handle pattern [] h e = Some e"
| "handle_methods handle pattern (m # ms) h e =
     (case handle pattern m h e of None \<Rightarrow> None | Some e' \<Rightarrow> handle_methods handle pattern ms h e')"

record ('e, 'h, 'p) router_config =
  rc_handle :: "string \<Rightarrow> string \<Rightarrow> 'h \<Rightarrow> 'e \<Rightarrow> 'e option"
  rc_HandlerFactory :: "endpoint_config \<Rightarrow> 'p \<Rightarrow> 'h"
  rc_ProxyFactory :: "endpoint_config \<Rightarrow> goerror + 'p"
  rc_DebugPattern :: string
  rc_EchoPattern :: string

definition DefaultDebugPattern :: string where "DefaultDebugPattern = ''/__debug/''"
definition DefaultEchoPattern :: string where "DefaultEchoPattern = ''/__echo/''"

definition new_factory :: "('e, 'h, 'p) router_config \<Rightarrow> ('e, 'h, 'p) router_config" where
  "new_factory cfg = (if rc_DebugPattern cfg = [] then cfg\<lparr>rc_DebugPattern := DefaultDebugPattern\<rparr> else cfg)"

text \<open>\<open>httpRouter.Run\<close> up to the call of \<open>RunServer\<close>: what the engine is told, in order.\<close>

definition run_registrations ::
  "('e, 'h, 'p) router_config \<Rightarrow> 'h \<Rightarrow> 'h \<Rightarrow> 'h \<Rightarrow> service_config \<Rightarrow> 'e \<Rightarrow> 'e option" where
  "run_registrations rc debugH echoH healthH cfg e =
     Option.bind (if s_Debug cfg then handle_methods (rc_handle rc) (rc_DebugPattern rc) http_methods debugH e
                  else Some e) (\<lambda>e.
     Option.bind (if s_Echo cfg then handle_methods (rc_handle rc) (rc_EchoPattern rc) http_methods echoH e
                  else Some e) (\<lambda>e.
     Option.bind (rc_handle rc ''/__health'' ''GET'' healthH e) (\<lambda>e.
       register_pucora_endpoints (rc_handle rc) (rc_ProxyFactory rc) (rc_HandlerFactory rc) (s_Endpoints cfg) e)))"

text \<open>\<open>httpRouter.handler\<close>: the first middleware is the innermost.\<close>

definition router_handler :: "('h \<Rightarrow> 'h) list \<Rightarrow> 'h \<Rightarrow> 'h" where
  "router_handler middlewares engine = foldl (\<lambda>h m. m h) engine middlewares"

section \<open>What is served where\<close>

definition routable_methods :: "string list" where
  "routable_methods = [''GET'', ''POST'', ''PUT'', ''PATCH'', ''DELETE'']"

definition serves :: "(endpoint_config \<Rightarrow> goerror + 'p) \<Rightarrow> string \<times> string \<Rightarrow> endpoint_config \<Rightarrow> bool" where
  "serves pf k c \<longleftrightarrow>
     k = (e_Endpoint c, to_upper (e_Method c)) \<and> to_upper (e_Method c) \<in> set routable_methods \<and>
     (case pf c of Inl _ \<Rightarrow> False | Inr _ \<Rightarrow> True)"

text \<open>The handler of the last endpoint with that path and method whose proxy could be built.\<close>

fun endpoint_serving ::
  "(endpoint_config \<Rightarrow> goerror + 'p) \<Rightarrow> (endpoint_config \<Rightarrow> 'p \<Rightarrow> 'h) \<Rightarrow> string \<times> string \<Rightarrow> endpoint_config list \<Rightarrow> 'h option" where
  "endpoint_serving pf hf k [] = None"
| "endpoint_serving pf hf k (c # cs) =
     (case endpoint_serving pf hf k cs of
        Some h \<Rightarrow> Some h
      | None \<Rightarrow> if serves pf k c then (case pf c of Inl _ \<Rightarrow> None | Inr p \<Rightarrow> Some (hf c p)) else None)"

text \<open>An engine that keeps one handler for each pattern and method.\<close>

locale dispatching_engine =
  fixes handle :: "string \<Rightarrow> string \<Rightarrow> 'h \<Rightarrow> 'e \<Rightarrow> 'e option" and look :: "'e \<Rightarrow> string \<times> string \<Rightarrow> 'h option"
  assumes look_handle: "handle p m h e = Some e' \<Longrightarrow> look e' k = (if k = (p, m) then Some h else look e k)"
begin

lemma look_handle_methods:
  "handle_methods handle p ms h e = Some e' \<Longrightarrow>
     look e' k = (if fst k = p \<and> snd k \<in> set ms then Some h else look e k)"
  by (induction ms arbitrary: e) (auto simp: look_handle split: option.splits)

lemma look_register_endpoint:
  assumes "register_pucora_endpoint handle (e_Method c) c h n e = Some e'"
  shows "look e' k =
    (if k = (e_Endpoint c, to_upper (e_Method c)) \<and> to_upper (e_Method c) \<in> set routable_methods
     then Some h else look e k)"
proof (cases "to_upper (e_Method c) \<in> set routable_methods")
  case True
  with assms have "handle (e_Endpoint c) (to_upper (e_Method c)) h e = Some e'"
    unfolding register_pucora_endpoint_def routable_methods_def is_valid_sequential_endpoint_def Let_def by simp
  from look_handle [OF this] True show ?thesis by simp
next
  case False
  with assms have "e' = e"
    unfolding register_pucora_endpoint_def routable_methods_def is_valid_sequential_endpoint_def Let_def by simp
  with False show ?thesis by simp
qed

lemma look_register_endpoints:
  "register_pucora_endpoints handle pf hf cs e = Some e' \<Longrightarrow>
     look e' k = (case endpoint_serving pf hf k cs of Some h \<Rightarrow> Some h | None \<Rightarrow> look e k)"
proof (induction cs arbitrary: e)
  case (Cons c cs)
  show ?case
  proof (cases "pf c")
    case (Inl err)
    with Cons show ?thesis by (simp add: serves_def split: option.split)
  next
    case (Inr p)
    with Cons.prems obtain u where one: "register_pucora_endpoint handle (e_Method c) c (hf c p) (length (e_Backend c)) e = Some u"
      and rest: "register_pucora_endpoints handle pf hf cs u = Some e'"
      by (auto split: option.splits)
    from Cons.IH [OF rest] look_register_endpoint [OF one, of k] Inr show ?thesis
      by (auto simp: serves_def split: option.splits if_splits)
  qed
qed simp

lemma look_run:
  assumes "run_registrations rc dh eh hh cfg e = Some e'" and "rc_handle rc = handle"
  shows "look e' k =
    (case endpoint_serving (rc_ProxyFactory rc) (rc_HandlerFactory rc) k (s_Endpoints cfg) of
       Some h \<Rightarrow> Some h
     | None \<Rightarrow>
         if k = (''/__health'', ''GET'') then Some hh
         else if s_Echo cfg \<and> fst k = rc_EchoPattern rc \<and> snd k \<in> set http_methods then Some eh
         else if s_Debug cfg \<and> fst k = rc_DebugPattern rc \<and> snd k \<in> set http_methods then Some dh
         else look e k)"
proof -
  from assms obtain e1 e2 e3 where
    one: "(if s_Debug cfg then handle_methods handle (rc_DebugPattern rc) http_methods dh e else Some e) = Some e1"
    and two: "(if s_Echo cfg then handle_methods handle (rc_EchoPattern rc) http_methods eh e1 else Some e1) = Some e2"
    and three: "handle ''/__health'' ''GET'' hh e2 = Some e3"
    and four: "register_pucora_endpoints handle (rc_ProxyFactory rc) (rc_HandlerFactory rc) (s_Endpoints cfg) e3 = Some e'"
    unfolding run_registrations_def assms(2) bind_eq_Some_conv by blast
  have "look e1 k = (if s_Debug cfg \<and> fst k = rc_DebugPattern rc \<and> snd k \<in> set http_methods then Some dh else look e k)"
    using one look_handle_methods [of "rc_DebugPattern rc" http_methods dh e e1 k] by (simp split: if_splits)
  moreover have "look e2 k = (if s_Echo cfg \<and> fst k = rc_EchoPattern rc \<and> snd k \<in> set http_methods then Some eh else look e1 k)"
    using two look_handle_methods [of "rc_EchoPattern rc" http_methods eh e1 e2 k] by (simp split: if_splits)
  ultimately show ?thesis
    using look_handle [OF three, of k] look_register_endpoints [OF four, of k] by (simp only:)
qed

end

interpretation basic: dispatching_engine "engine_handle refuses" engine_lookup for refuses
  by unfold_locales
    (auto simp: engine_handle_def engine_lookup_def gomap_simps split: option.splits if_splits)

text \<open>The dictionary and the \<open>ServeMux\<close> agree, and no pattern is given to the \<open>ServeMux\<close> twice, on which
  it would panic.\<close>

definition engine_ok :: "'h basic_engine \<Rightarrow> bool" where
  "engine_ok e \<longleftrightarrow> be_handler e = map fst (be_dict e) \<and> gomap_ok (be_dict e)"

lemma engine_handle_ok:
  assumes "engine_handle refuses p m h e = Some e'" and "engine_ok e"
  shows "engine_ok e'"
proof (cases "map_of (be_dict e) p")
  case None
  with assms show ?thesis
    by (auto simp: engine_handle_def engine_ok_def update_keys map_of_eq_None_iff split: if_splits)
next
  case (Some hs)
  then have "p \<in> fst ` set (be_dict e)" by (auto dest: map_of_SomeD intro: rev_image_eqI)
  then have "map fst (AList.update p hs' (be_dict e)) = map fst (be_dict e)" for hs'
    by (simp add: update_keys)
  with assms Some show ?thesis by (auto simp: engine_handle_def engine_ok_def)
qed

lemma handle_methods_ok:
  "handle_methods (engine_handle refuses) p ms h e = Some e' \<Longrightarrow> engine_ok e \<Longrightarrow> engine_ok e'"
  by (induction ms arbitrary: e) (auto split: option.splits dest: engine_handle_ok)

lemma register_endpoint_ok:
  "register_pucora_endpoint (engine_handle refuses) m c h n e = Some e' \<Longrightarrow> engine_ok e \<Longrightarrow> engine_ok e'"
  unfolding register_pucora_endpoint_def Let_def by (auto split: if_splits dest: engine_handle_ok)

lemma register_endpoints_ok:
  "register_pucora_endpoints (engine_handle refuses) pf hf cs e = Some e' \<Longrightarrow> engine_ok e \<Longrightarrow> engine_ok e'"
  by (induction cs arbitrary: e) (auto split: option.splits sum.splits dest: register_endpoint_ok)

lemma run_registrations_ok:
  assumes "run_registrations rc dh eh hh cfg e = Some e'" and "rc_handle rc = engine_handle refuses" and "engine_ok e"
  shows "engine_ok e'"
  using assms unfolding run_registrations_def bind_eq_Some_conv
  by (auto split: if_splits dest!: handle_methods_ok engine_handle_ok register_endpoints_ok)

lemma default_engine_empty [simp]: "engine_ok default_engine" "engine_lookup default_engine k = None"
  by (simp_all add: engine_ok_def default_engine_def engine_lookup_def)

text \<open>The \<open>ServeMux\<close> refuses a pattern, or every registration returns.\<close>

lemma run_registrations_returns:
  assumes "\<not> (\<exists>ps p. refuses ps p)" and "rc_handle rc = engine_handle refuses"
  shows "run_registrations rc dh eh hh cfg e \<noteq> None"
proof -
  have handle: "engine_handle refuses p m h e \<noteq> None" for p m and h :: 'a and e
    using assms(1) by (auto simp: engine_handle_def split: option.split)
  have methods: "handle_methods (engine_handle refuses) p ms h e \<noteq> None" for p ms and h :: 'a and e
    by (induction ms arbitrary: e) (use handle in \<open>fastforce split: option.split\<close>)+
  have endpoint: "register_pucora_endpoint (engine_handle refuses) m c h n e \<noteq> None" for m c n and h :: 'a and e
    unfolding register_pucora_endpoint_def Let_def using handle by auto
  have endpoints: "register_pucora_endpoints (engine_handle refuses) pf hf cs e \<noteq> None"
    for pf :: "endpoint_config \<Rightarrow> goerror + 'c" and hf cs and e :: "'a basic_engine"
  proof (induction cs arbitrary: e)
    case (Cons c cs)
    then show ?case
      using endpoint [of "e_Method c" c] by (simp del: not_None_eq split: option.split sum.split)
  qed simp
  show ?thesis
    unfolding run_registrations_def assms(2)
    by (simp add: bind_eq_None_conv handle methods endpoints del: not_None_eq)
qed

text \<open>C21. What the router over the basic engine serves. For a path and method it is the last endpoint
  configured with them whose proxy could be built, and only for the five methods; failing that the
  health endpoint, and the echo and debug endpoints when they are switched on. The engine never gives a
  pattern to the \<open>ServeMux\<close> twice, and the registrations can only panic when the \<open>ServeMux\<close> refuses
  a pattern.\<close>

theorem basic_engine_dispatch:
  "case run_registrations (rc\<lparr>rc_handle := engine_handle refuses\<rparr>) dh eh hh cfg default_engine of
     None \<Rightarrow> \<exists>ps p. refuses ps p
   | Some e \<Rightarrow>
       distinct (be_handler e) \<and>
       engine_lookup e k =
         (case endpoint_serving (rc_ProxyFactory rc) (rc_HandlerFactory rc) k (s_Endpoints cfg) of
            Some h \<Rightarrow> Some h
          | None \<Rightarrow>
              if k = (''/__health'', ''GET'') then Some hh
              else if s_Echo cfg \<and> fst k = rc_EchoPattern rc \<and> snd k \<in> set http_methods then Some eh
              else if s_Debug cfg \<and> fst k = rc_DebugPattern rc \<and> snd k \<in> set http_methods then Some dh
              else None)"
proof (cases "run_registrations (rc\<lparr>rc_handle := engine_handle refuses\<rparr>) dh eh hh cfg default_engine")
  case None
  have "\<exists>ps p. refuses ps p"
  proof (rule ccontr)
    assume "\<not> (\<exists>ps p. refuses ps p)"
    then have "run_registrations (rc\<lparr>rc_handle := engine_handle refuses\<rparr>) dh eh hh cfg default_engine \<noteq> None"
      by (rule run_registrations_returns) simp
    with None show False by simp
  qed
  with None show ?thesis by simp
next
  case (Some e)
  then have "engine_ok e" by (rule run_registrations_ok) simp_all
  with Some show ?thesis
    by (simp add: engine_ok_def basic.look_run [OF Some, of refuses k] cong: option.case_cong if_cong
        split del: if_split)
qed

text \<open>A request whose pattern has no handler for its method gets a 405.\<close>

lemma interceptor_405:
  "(case http_error (error_interceptor net_http) [] 405
      (header_set (error_interceptor net_http) CompleteResponseHeaderName HeaderIncompleteResponseValue
        (new_http_error_interceptor new_net_writer)) of
      None \<Rightarrow> False
    | Some (w, once) \<Rightarrow>
        fst (sent_response w) = 405 \<and>
        header_get (snd (sent_response w)) CompleteResponseHeaderName = HeaderIncompleteResponseValue)"
  by code_simp

lemma engine_serve_unhandled:
  assumes "route (be_handler e) r = Some p" and "engine_lookup e (p, cr_Method r) = None"
  shows "\<exists>w. engine_serve route miss net_http e r (new_net_writer, v) = Some (w, v) \<and>
    fst (sent_response w) = 405 \<and>
    header_get (snd (sent_response w)) CompleteResponseHeaderName = HeaderIncompleteResponseValue"
  using assms interceptor_405
  by (auto simp: engine_serve_def registrable_handler_def new_http_error_interceptor_def split: option.splits)

end
