(* ===== verification/GinRouter.thy ===== *)
theory GinRouter
  imports MuxEngine
begin

text \<open>
  The router over gin: renders (\<open>src/router/gin/render.go\<close>) and the endpoint handler
  (\<open>src/router/gin/endpoint.go\<close>). gin is third-party: what a handler does is the list of the calls it makes on its context, in order, and
  what gin answers to a question about the context (the status so far, the negotiated format, how
  much a write takes) is a function of the calls before it.
\<close>

section \<open>Calls on a context\<close>

datatype gin_call =
    GHeader string string         \<comment> \<open>\<open>c.Header\<close>\<close>
  | GAdd string string            \<comment> \<open>\<open>c.Writer.Header().Add\<close>\<close>
  | GSetHeaders "string list gomap"
  | GError goerror                \<comment> \<open>\<open>c.Error\<close>\<close>
  | GStatus int                   \<comment> \<open>\<open>c.Status\<close>\<close>
  | GWrite string                 \<comment> \<open>\<open>c.Writer.Write\<close> and \<open>WriteString\<close>\<close>
  | GFlush
  | GString int string
  | GJSON int gval
  | GXML int gval
  | GYAML int gval
  | GAbort
  | GAbortWithStatus int

datatype negotiated = NJSON | NPlain | NXML | NYAML | NNone

record gin_env =
  gi_status :: "gin_call list \<Rightarrow> int"                    \<comment> \<open>\<open>c.Writer.Status()\<close>\<close>
  gi_header :: "gin_call list \<Rightarrow> string list gomap"      \<comment> \<open>\<open>c.Writer.Header()\<close>\<close>
  gi_write :: "gin_call list \<Rightarrow> string \<Rightarrow> nat \<times> goerror option"
  gi_negotiate :: "gin_call list \<Rightarrow> negotiated"          \<comment> \<open>\<open>c.NegotiateFormat\<close>\<close>
  gi_reads :: "reader \<Rightarrow> string list"

definition gin_writer :: "gin_env \<Rightarrow> gin_call list writer" where
  "gin_writer env =
     \<lparr>wr_Header = gi_header env, wr_SetHeader = (\<lambda>h t. t @ [GSetHeaders h]),
      wr_WriteHeader = (\<lambda>code t. Some (t @ [GStatus code])),
      wr_Write = (\<lambda>s t. (gi_write env t s, t @ [GWrite s])), wr_Flush = Some (\<lambda>t. t @ [GFlush])\<rparr>"

definition add_calls :: "string list gomap \<Rightarrow> gin_call list" where
  "add_calls hs = concat (map (\<lambda>(k, vs). map (GAdd k) vs) hs)"

section \<open>Renders\<close>

type_synonym gin_render = "gin_call list \<Rightarrow> vresponse option \<Rightarrow> gin_call list"

definition gin_string_render :: "gin_env \<Rightarrow> gin_render" where
  "gin_string_render env t response =
     (let status = gi_status env t
      in case response of
           None \<Rightarrow> t @ [GString status []]
         | Some r \<Rightarrow>
             (case data_field (r_Data r) ''content'' of
                None \<Rightarrow> t @ [GString status []]
              | Some d \<Rightarrow> (case d of VString msg \<Rightarrow> t @ [GString status msg] | _ \<Rightarrow> t @ [GString status []])))"

definition gin_json_render :: "gin_env \<Rightarrow> gin_render" where
  "gin_json_render env t response =
     (let status = gi_status env t
      in case response of None \<Rightarrow> t @ [GJSON status (VMap [])] | Some r \<Rightarrow> t @ [GJSON status (data_value (r_Data r))])"

definition gin_json_collection_render :: "gin_env \<Rightarrow> gin_render" where
  "gin_json_collection_render env t response =
     (let status = gi_status env t
      in case response of
           None \<Rightarrow> t @ [GJSON status (VList [])]
         | Some r \<Rightarrow>
             (case data_field (r_Data r) ''collection'' of
                None \<Rightarrow> t @ [GJSON status (VList [])]
              | Some col \<Rightarrow> t @ [GJSON status col]))"

definition gin_xml_render :: "gin_env \<Rightarrow> gin_render" where
  "gin_xml_render env t response =
     (let status = gi_status env t
      in case response of
           None \<Rightarrow> t @ [GXML status VNil]
         | Some r \<Rightarrow>
             (case data_field (r_Data r) ''content'' of
                None \<Rightarrow> t @ [GXML status VNil]
              | Some d \<Rightarrow> t @ [GXML status d]))"

definition gin_yaml_render :: "gin_env \<Rightarrow> gin_render" where
  "gin_yaml_render env t response =
     (let status = gi_status env t
      in case response of None \<Rightarrow> t @ [GYAML status (VMap [])] | Some r \<Rightarrow> t @ [GYAML status (data_value (r_Data r))])"

definition gin_noop_render :: "gin_env \<Rightarrow> gin_render" where
  "gin_noop_render env t response =
     (case response of
        None \<Rightarrow> t @ [GStatus 500]
      | Some r \<Rightarrow>
          (let t = t @ add_calls (r_Headers r) @ [GStatus (r_StatusCode r)]
           in case r_Io r of
                None \<Rightarrow> t
              | Some b \<Rightarrow> snd (stream_copy (gin_writer env) (gi_reads env b) (rd_err b) 0 t)))"

definition XML :: string where "XML = ''xml''"
definition YAML :: string where "YAML = ''yaml''"
definition NEGOTIATE :: string where "NEGOTIATE = ''negotiate''"

text \<open>\<open>getWithFallback\<close>, \<open>getRender\<close> and \<open>RegisterRender\<close> over the package's own map of renders.\<close>

definition gin_get_with_fallback :: "gin_render untyped \<Rightarrow> string \<Rightarrow> gin_render \<Rightarrow> gin_render" where
  "gin_get_with_fallback renderRegister key fallback =
     (case untyped_get renderRegister key of None \<Rightarrow> fallback | Some r \<Rightarrow> r)"

definition gin_get_render :: "gin_render untyped \<Rightarrow> gin_render \<Rightarrow> endpoint_config \<Rightarrow> gin_render" where
  "gin_get_render renderRegister jsonRender cfg =
     (let fallback = jsonRender;
          fallback = (if length (e_Backend cfg) = 1
                      then gin_get_with_fallback renderRegister (b_Encoding (e_Backend cfg ! 0)) fallback else fallback)
      in if e_OutputEncoding cfg = [] then fallback
         else gin_get_with_fallback renderRegister (e_OutputEncoding cfg) fallback)"

definition gin_register_render :: "string \<Rightarrow> gin_render \<Rightarrow> gin_render untyped \<Rightarrow> gin_render untyped" where
  "gin_register_render name r renderRegister = untyped_register name r renderRegister"

definition negotiated_render :: "gin_env \<Rightarrow> gin_render untyped \<Rightarrow> gin_render" where
  "negotiated_render env reg t response =
     (case gi_negotiate env t of
        NXML \<Rightarrow> gin_get_with_fallback reg XML (gin_json_render env) t response
      | NPlain \<Rightarrow> gin_get_with_fallback reg YAML (gin_json_render env) t response
      | NYAML \<Rightarrow> gin_get_with_fallback reg YAML (gin_json_render env) t response
      | _ \<Rightarrow> gin_get_with_fallback reg JSON (gin_json_render env) t response)"

definition gin_render_base :: "gin_env \<Rightarrow> gin_render untyped" where
  "gin_render_base env =
     [(STRING, gin_string_render env), (JSON, gin_json_render env), (NOOP, gin_noop_render env),
      (''json-collection'', gin_json_collection_render env), (XML, gin_xml_render env), (YAML, gin_yaml_render env)]"

text \<open>The register once the package is initialised.\<close>

definition gin_render_register :: "gin_env \<Rightarrow> gin_render untyped" where
  "gin_render_register env =
     register_render NEGOTIATE (negotiated_render env (gin_render_base env)) (gin_render_base env)"

section \<open>The endpoint handler\<close>

fun error_encoding :: "goerror \<Rightarrow> string" where
  "error_encoding (HTTPResponseError c m e) = e"
| "error_encoding (NamedHTTPResponseError c m e n) = e"
| "error_encoding _ = []"

definition error_response_writer :: "goerror \<Rightarrow> gin_call list" where
  "error_response_writer err =
     (if error_encoding err \<noteq> [] then [GHeader ''Content-Type'' (error_encoding err)] else []) @
     [GWrite (error_text err)]"

text \<open>The errors an error stands for, each of which is handed to gin: \<open>multiError\<close>.\<close>

definition single_errors :: "goerror \<Rightarrow> goerror list" where
  "single_errors err = (case err of MergeError es \<Rightarrow> es | e \<Rightarrow> [e])"

text \<open>\<open>error_headers\<close> gives the headers of the errors that have some (\<open>headerResponseError\<close>), as those
  of plugins may; \<open>returnErrorMsg\<close> is the package variable.\<close>

definition gin_answer ::
  "(goerror \<Rightarrow> string list gomap option) \<Rightarrow> bool \<Rightarrow> (goerror \<Rightarrow> int) \<Rightarrow> endpoint_config \<Rightarrow> gin_render \<Rightarrow>
   vresponse presult \<Rightarrow> gin_call list \<Rightarrow> gin_call list" where
  "gin_answer error_headers returnErrorMsg errF cfg rend res t =
     (case res of (response, err) \<Rightarrow>
        (let data = (if has_data response then response else None);
             complete = (case data of
                           Some r \<Rightarrow> if r_IsComplete r then HeaderCompleteResponseValue else HeaderIncompleteResponseValue
                         | None \<Rightarrow> HeaderIncompleteResponseValue);
             t = (case data of
                    Some r \<Rightarrow>
                      t @ (if r_IsComplete r \<and> is_cache_enabled cfg
                           then [GHeader ''Cache-Control'' (cache_control_header_value cfg)] else []) @
                      add_calls (r_Headers r)
                  | None \<Rightarrow> t);
             t = t @ [GHeader CompleteResponseHeaderName complete]
         in case err of
              None \<Rightarrow> rend t response
            | Some e \<Rightarrow>
                (let t = t @ map GError (single_errors e)
                 in if response = None
                    then t @ (case error_headers e of None \<Rightarrow> [] | Some hs \<Rightarrow> add_calls hs) @
                         [GStatus (case error_status e of Some code \<Rightarrow> code | None \<Rightarrow> errF e)] @
                         (if returnErrorMsg then error_response_writer e else [])
                    else rend t response)))"

type_synonym 'v gin_handler = "client_request \<Rightarrow> gin_call list \<times> 'v \<Rightarrow> (gin_call list \<times> 'v) option"

definition gin_endpoint_handler ::
  "gin_render untyped \<Rightarrow> gin_render \<Rightarrow> string \<Rightarrow> (goerror \<Rightarrow> string list gomap option) \<Rightarrow> bool \<Rightarrow>
   (goerror \<Rightarrow> int) \<Rightarrow> (duration option \<Rightarrow> 'v \<Rightarrow> bool) \<Rightarrow> endpoint_config \<Rightarrow> (duration option \<Rightarrow> 'v pipe) \<Rightarrow>
   'v gin_handler" where
  "gin_endpoint_handler renders json headerValue error_headers returnErrorMsg errF ctx_done cfg prxy c tv =
     (case tv of (t, v) \<Rightarrow>
        (let deadline = endpoint_deadline cfg;
             t = t @ [GHeader PucoraHeaderName headerValue]
         in case prxy deadline v (gin_new_request (e_HeadersToPass cfg) c (e_QueryString cfg)) of
              Panic \<Rightarrow> None
            | Ret res _ v' \<Rightarrow>
                Some (gin_answer error_headers returnErrorMsg errF cfg (gin_get_render renders json cfg)
                        (after_proxy (ctx_done deadline v') res) t, v')))"

section \<open>What the handler does\<close>

text \<open>The two packages look a render up in the same way.\<close>

lemma gin_get_render_eq:
  "gin_get_with_fallback = get_with_fallback" "gin_get_render = get_render"
  by (auto simp: fun_eq_iff gin_get_with_fallback_def get_with_fallback_def gin_get_render_def get_render_def
      Let_def length_Suc_conv split: list.split option.split)

fun set_headers :: "string \<Rightarrow> gin_call list \<Rightarrow> string list" where
  "set_headers k [] = []"
| "set_headers k (GHeader k' v # t) = (if k' = k then v # set_headers k t else set_headers k t)"
| "set_headers k (_ # t) = set_headers k t"

fun recorded_errors :: "gin_call list \<Rightarrow> goerror list" where
  "recorded_errors [] = []"
| "recorded_errors (GError e # t) = e # recorded_errors t"
| "recorded_errors (_ # t) = recorded_errors t"

text \<open>The calls that give the response a status or a body.\<close>

fun answers :: "gin_call list \<Rightarrow> gin_call list" where
  "answers [] = []"
| "answers (c # t) =
     (case c of GHeader k v \<Rightarrow> answers t | GAdd k v \<Rightarrow> answers t | GError e \<Rightarrow> answers t
      | GSetHeaders h \<Rightarrow> answers t | _ \<Rightarrow> c # answers t)"

named_theorems trace_simps \<open>what is read off a list of calls\<close>

lemma set_headers_append [trace_simps]: "set_headers k (t @ u) = set_headers k t @ set_headers k u"
  by (induction t rule: set_headers.induct) auto

lemma recorded_errors_append [trace_simps]: "recorded_errors (t @ u) = recorded_errors t @ recorded_errors u"
  by (induction t rule: recorded_errors.induct) auto

lemma answers_append [trace_simps]: "answers (t @ u) = answers t @ answers u"
  by (induction t) (auto split: gin_call.split)

lemma add_calls_reads [trace_simps]:
  "set_headers k (add_calls hs) = []" "recorded_errors (add_calls hs) = []" "answers (add_calls hs) = []"
proof -
  have "set_headers k (map (GAdd k') vs) = [] \<and> recorded_errors (map (GAdd k') vs) = [] \<and>
      answers (map (GAdd k') vs) = []" for k' vs
    by (induction vs) auto
  then show "set_headers k (add_calls hs) = []" "recorded_errors (add_calls hs) = []" "answers (add_calls hs) = []"
    unfolding add_calls_def by (induction hs; auto simp: trace_simps)+
qed

lemma error_calls_reads [trace_simps]:
  "set_headers k (map GError es) = []" "recorded_errors (map GError es) = es" "answers (map GError es) = []"
  by (induction es) auto

text \<open>A render only adds calls, and none that names a header or records an error.\<close>

definition quiet :: "gin_call list \<Rightarrow> bool" where
  "quiet t \<longleftrightarrow> (\<forall>k. set_headers k t = []) \<and> recorded_errors t = []"

definition quiet_render :: "gin_render \<Rightarrow> bool" where
  "quiet_render f \<longleftrightarrow> (\<forall>t res. \<exists>u. f t res = t @ u \<and> quiet u)"

lemma quiet_append: "quiet t \<Longrightarrow> quiet u \<Longrightarrow> quiet (t @ u)"
  by (simp add: quiet_def trace_simps)

lemma stream_copy_quiet: "\<exists>u. snd (stream_copy (gin_writer env) reads er n t) = t @ u \<and> quiet u"
proof (induction reads arbitrary: n t)
  case (Cons buf reads)
  have one: "quiet [GWrite buf]" "quiet [GWrite buf, GFlush]" by (simp_all add: quiet_def)
  obtain m f where wr: "gi_write env t buf = (m, f)" by (cases "gi_write env t buf")
  obtain u where u: "snd (stream_copy (gin_writer env) reads er (n + length buf) (t @ [GWrite buf, GFlush])) =
      (t @ [GWrite buf, GFlush]) @ u" "quiet u"
    using Cons.IH [of "n + length buf" "t @ [GWrite buf, GFlush]"] by blast
  show ?case
  proof (cases "buf = []")
    case True
    with Cons.IH show ?thesis by simp
  next
    case False
    show ?thesis
    proof (cases "f = None \<and> m = length buf")
      case True
      then have "snd (stream_copy (gin_writer env) (buf # reads) er n t) = t @ [GWrite buf, GFlush] @ u"
        using False wr u(1) by (simp add: gin_writer_def flush_if_can_def)
      with quiet_append [OF one(2) u(2)] show ?thesis by blast
    next
      case no: False
      then have "snd (stream_copy (gin_writer env) (buf # reads) er n t) = t @ [GWrite buf]"
        using False wr by (cases f) (auto simp: gin_writer_def)
      with one(1) show ?thesis by blast
    qed
  qed
qed (simp add: quiet_def)

lemma quiet_json: "quiet_render (gin_json_render env)"
  by (auto simp: quiet_render_def gin_json_render_def quiet_def Let_def split: option.split)

lemma quiet_json_collection: "quiet_render (gin_json_collection_render env)"
  by (auto simp: quiet_render_def gin_json_collection_render_def quiet_def Let_def split: option.split)

lemma quiet_string: "quiet_render (gin_string_render env)"
  by (auto simp: quiet_render_def gin_string_render_def quiet_def Let_def split: option.split gval.split)

lemma quiet_xml: "quiet_render (gin_xml_render env)"
  by (auto simp: quiet_render_def gin_xml_render_def quiet_def Let_def split: option.split)

lemma quiet_yaml: "quiet_render (gin_yaml_render env)"
  by (auto simp: quiet_render_def gin_yaml_render_def quiet_def Let_def split: option.split)

lemma quiet_noop: "quiet_render (gin_noop_render env)"
  unfolding quiet_render_def
proof (intro allI)
  fix t res
  show "\<exists>u. gin_noop_render env t res = t @ u \<and> quiet u"
  proof (cases res)
    case None
    then show ?thesis by (simp add: gin_noop_render_def quiet_def)
  next
    case (Some r)
    let ?s = "add_calls (r_Headers r) @ [GStatus (r_StatusCode r)]"
    have s: "quiet ?s" by (simp add: quiet_def trace_simps)
    show ?thesis
    proof (cases "r_Io r")
      case None
      with Some s show ?thesis by (auto simp: gin_noop_render_def Let_def)
    next
      case io: (Some b)
      obtain u where "snd (stream_copy (gin_writer env) (gi_reads env b) (rd_err b) 0 (t @ ?s)) = (t @ ?s) @ u" "quiet u"
        using stream_copy_quiet by blast
      with Some io quiet_append [OF s] show ?thesis by (auto simp: gin_noop_render_def Let_def)
    qed
  qed
qed

lemma quiet_base: "f \<in> insert (gin_json_render env) (snd ` set (gin_render_base env)) \<Longrightarrow> quiet_render f"
  by (auto simp: gin_render_base_def quiet_json quiet_json_collection quiet_string quiet_xml quiet_yaml quiet_noop)

lemma quiet_negotiated: "quiet_render (negotiated_render env (gin_render_base env))"
  unfolding quiet_render_def
proof (intro allI)
  fix t res
  have "\<exists>k. negotiated_render env (gin_render_base env) t res =
      get_with_fallback (gin_render_base env) k (gin_json_render env) t res"
    by (auto simp: negotiated_render_def gin_get_render_eq split: negotiated.split)
  then obtain k where k: "negotiated_render env (gin_render_base env) t res =
      get_with_fallback (gin_render_base env) k (gin_json_render env) t res" by blast
  have "quiet_render (get_with_fallback (gin_render_base env) k (gin_json_render env))"
    using get_with_fallback_in [of "gin_render_base env" k "gin_json_render env"] by (intro quiet_base) auto
  then show "\<exists>u. negotiated_render env (gin_render_base env) t res = t @ u \<and> quiet u"
    unfolding k quiet_render_def by blast
qed

lemma quiet_gin_render:
  "quiet_render (gin_get_render (gin_render_register env) (gin_json_render env) cfg)"
proof -
  have "snd ` set (gin_render_register env) \<subseteq>
      insert (negotiated_render env (gin_render_base env)) (snd ` set (gin_render_base env))"
    using set_update_subset [of NEGOTIATE "negotiated_render env (gin_render_base env)" "gin_render_base env"]
    unfolding gin_render_register_def register_render_def untyped_register_def by auto
  with get_render_in [of "gin_render_register env" "gin_json_render env" cfg]
  have "get_render (gin_render_register env) (gin_json_render env) cfg \<in>
      insert (negotiated_render env (gin_render_base env)) (insert (gin_json_render env) (snd ` set (gin_render_base env)))"
    by blast
  then show ?thesis
  proof
    assume "get_render (gin_render_register env) (gin_json_render env) cfg = negotiated_render env (gin_render_base env)"
    then show ?thesis by (simp only: gin_get_render_eq quiet_negotiated)
  qed (simp only: gin_get_render_eq quiet_base)
qed

lemma gin_header_names [simp]:
  "PucoraHeaderName \<noteq> CompleteResponseHeaderName" "PucoraHeaderName \<noteq> ''Cache-Control''"
  "PucoraHeaderName \<noteq> ''Content-Type''" "CompleteResponseHeaderName \<noteq> ''Content-Type''"
  "CompleteResponseHeaderName \<noteq> PucoraHeaderName" "''Cache-Control'' \<noteq> PucoraHeaderName"
  "''Content-Type'' \<noteq> PucoraHeaderName" "''Content-Type'' \<noteq> CompleteResponseHeaderName"
  by (simp_all add: PucoraHeaderName_def CompleteResponseHeaderName_def)

lemma error_response_writer_reads [trace_simps]:
  "k \<noteq> ''Content-Type'' \<Longrightarrow> set_headers k (error_response_writer e) = []"
  "recorded_errors (error_response_writer e) = []"
  "answers (error_response_writer e) = [GWrite (error_text e)]"
  by (simp_all add: error_response_writer_def)

lemma gin_answer_reads:
  assumes "quiet_render rend"
  shows "let t = gin_answer error_headers returnErrorMsg errF cfg rend (response, err) [GHeader PucoraHeaderName hv];
             complete = (has_data response \<and> r_IsComplete (the response))
         in set_headers PucoraHeaderName t = [hv] \<and>
            set_headers CompleteResponseHeaderName t =
              [if complete then HeaderCompleteResponseValue else HeaderIncompleteResponseValue] \<and>
            set_headers ''Cache-Control'' t =
              (if complete \<and> is_cache_enabled cfg then [cache_control_header_value cfg] else []) \<and>
            recorded_errors t = (case err of None \<Rightarrow> [] | Some e \<Rightarrow> single_errors e) \<and>
            (case err of
               None \<Rightarrow> True
             | Some e \<Rightarrow>
                 if response = None
                 then answers t = GStatus (case error_status e of Some code \<Rightarrow> code | None \<Rightarrow> errF e) #
                   (if returnErrorMsg then [GWrite (error_text e)] else [])
                 else True)"
proof -
  define head where "head = [GHeader PucoraHeaderName hv] @
    (if has_data response
     then (if r_IsComplete (the response) \<and> is_cache_enabled cfg
           then [GHeader ''Cache-Control'' (cache_control_header_value cfg)] else []) @
          add_calls (r_Headers (the response))
     else []) @
    [GHeader CompleteResponseHeaderName
      (if has_data response \<and> r_IsComplete (the response)
       then HeaderCompleteResponseValue else HeaderIncompleteResponseValue)]"
  have reads:
    "set_headers PucoraHeaderName head = [hv]"
    "set_headers CompleteResponseHeaderName head =
       [if has_data response \<and> r_IsComplete (the response) then HeaderCompleteResponseValue else HeaderIncompleteResponseValue]"
    "set_headers ''Cache-Control'' head =
       (if has_data response \<and> r_IsComplete (the response) \<and> is_cache_enabled cfg then [cache_control_header_value cfg] else [])"
    "recorded_errors head = []" "answers head = []"
    by (simp_all add: head_def trace_simps)
  have data: "has_data response \<Longrightarrow> \<exists>r. response = Some r" by (cases response) (simp_all add: has_data_def)
  have eq: "gin_answer error_headers returnErrorMsg errF cfg rend (response, err) [GHeader PucoraHeaderName hv] =
    (case err of
       None \<Rightarrow> rend head response
     | Some e \<Rightarrow>
         if response = None
         then (head @ map GError (single_errors e)) @ (case error_headers e of None \<Rightarrow> [] | Some hs \<Rightarrow> add_calls hs) @
              [GStatus (case error_status e of Some code \<Rightarrow> code | None \<Rightarrow> errF e)] @
              (if returnErrorMsg then error_response_writer e else [])
         else rend (head @ map GError (single_errors e)) response)"
    using data by (cases "has_data response") (auto simp: gin_answer_def head_def Let_def split: option.split)
  have rend: "\<exists>u. rend t response = t @ u \<and> quiet u" for t
    using assms unfolding quiet_render_def by blast
  show ?thesis
  proof (cases err)
    case None
    obtain u where "rend head response = head @ u" "quiet u" using rend by blast
    with None show ?thesis unfolding eq Let_def by (simp add: reads trace_simps quiet_def)
  next
    case (Some e)
    obtain u where u: "rend (head @ map GError (single_errors e)) response = (head @ map GError (single_errors e)) @ u"
      "quiet u" using rend by blast
    have hs: "set_headers k (case error_headers e of None \<Rightarrow> [] | Some hs \<Rightarrow> add_calls hs) = []"
      "recorded_errors (case error_headers e of None \<Rightarrow> [] | Some hs \<Rightarrow> add_calls hs) = []"
      "answers (case error_headers e of None \<Rightarrow> [] | Some hs \<Rightarrow> add_calls hs) = []" for k
      by (simp_all add: trace_simps split: option.split)
    from Some u show ?thesis
      unfolding eq Let_def by (cases "response = None") (simp_all add: reads hs trace_simps quiet_def)
  qed
qed


end
