(* ===== verification/GinEngine.thy ===== *)
theory GinEngine
  imports GinRouter
begin

text \<open>
  The engine behind the gin router: its options and the parameter checker
  (\<open>src/router/gin/engine.go\<close>), and the registration of endpoints with the catalogue behind the
  \<open>OPTIONS\<close> endpoints (\<open>src/router/gin/router.go\<close>). The settings of gin's engine are a record, its
  routes the list of registrations; \<open>refuses\<close> are the registrations gin panics on.
\<close>

section \<open>Parameters with escapes\<close>

definition hex_value :: "char \<Rightarrow> nat option" where
  "hex_value c =
     (let n = of_char c :: nat
      in if 48 \<le> n \<and> n \<le> 57 then Some (n - 48)
         else if 97 \<le> n \<and> n \<le> 102 then Some (n - 87)
         else if 65 \<le> n \<and> n \<le> 70 then Some (n - 55)
         else None)"

text \<open>\<open>url.PathUnescape\<close>; an error carries what follows the percent sign, up to three bytes with it.\<close>

fun path_unescape :: "string \<Rightarrow> string + string" where
  "path_unescape [] = Inr []"
| "path_unescape (c # s) =
     (if c = CHR ''%'' then
        (case s of
           a # b # s' \<Rightarrow>
             (case (hex_value a, hex_value b) of
                (Some i, Some j) \<Rightarrow>
                  (case path_unescape s' of Inl e \<Rightarrow> Inl e | Inr u \<Rightarrow> Inr (char_of (16 * i + j) # u))
              | _ \<Rightarrow> Inl (take 3 (c # s)))
         | _ \<Rightarrow> Inl (take 3 (c # s)))
      else (case path_unescape s of Inl e \<Rightarrow> Inl e | Inr u \<Rightarrow> Inr (c # u)))"

text \<open>\<open>paramChecker\<close>; \<open>quote\<close> is \<open>strconv.Quote\<close>, which the text of an escape error uses.\<close>

fun param_checker :: "(string \<Rightarrow> string) \<Rightarrow> (string \<times> string) list \<Rightarrow> gin_call list" where
  "param_checker quote [] = []"
| "param_checker quote ((key, param) # ps) =
     (case path_unescape param of
        Inl e \<Rightarrow>
          [GStatus 400] @ error_response_writer (ErrMsg (''error: invalid URL escape '' @ quote e)) @ [GAbort]
      | Inr s \<Rightarrow>
          if s \<noteq> param \<or> contains_sub s ''?'' \<or> contains_sub s ''#''
          then [GStatus 400] @ error_response_writer (ErrMsg ''error: encoded url params'') @ [GAbort]
          else param_checker quote ps)"

lemma path_unescape_shrinks:
  "path_unescape s = Inr u \<Longrightarrow> length u \<le> length s \<and> (CHR ''%'' \<in> set s \<longrightarrow> length u < length s)"
proof (induction s arbitrary: u rule: measure_induct_rule [of length])
  case (less s)
  show ?case
  proof (cases s)
    case (Cons c t)
    show ?thesis
    proof (cases "c = CHR ''%''")
      case True
      with less.prems Cons obtain a b t' i j u' where "t = a # b # t'" "path_unescape t' = Inr u'"
        "u = char_of (16 * i + j :: nat) # u'"
        by (auto split: list.splits option.splits sum.splits)
      with less.IH [of t' u'] Cons show ?thesis by auto
    next
      case False
      with less.prems Cons obtain u' where "path_unescape t = Inr u'" "u = c # u'" by (auto split: sum.splits)
      with less.IH [of t u'] Cons False show ?thesis by auto
    qed
  qed (use less.prems in simp)
qed

lemma path_unescape_plain: "CHR ''%'' \<notin> set s \<Longrightarrow> path_unescape s = Inr s"
  by (induction s rule: path_unescape.induct) auto

definition clean_param :: "string \<Rightarrow> bool" where
  "clean_param v \<longleftrightarrow> list_all (\<lambda>c. c \<noteq> CHR ''%'' \<and> c \<noteq> CHR ''?'' \<and> c \<noteq> CHR ''#'') v"

lemma clean_param_iff:
  "clean_param v \<longleftrightarrow> (\<exists>s. path_unescape v = Inr s \<and> s = v \<and> \<not> contains_sub s ''?'' \<and> \<not> contains_sub s ''#'')"
proof -
  have one: "contains_sub s [c] \<longleftrightarrow> c \<in> set s" for s c
    by (induction s) (auto simp: prefix_def)
  have "CHR ''%'' \<notin> set v \<longleftrightarrow> path_unescape v = Inr v"
    using path_unescape_plain path_unescape_shrinks by blast
  then show ?thesis by (auto simp: clean_param_def one list_all_iff)
qed

text \<open>The parameter checker lets a request pass exactly when no path parameter has a percent sign, a
  question mark or a hash; otherwise it answers with a 400 and a message, and aborts, so that no
  endpoint sees a parameter that a backend would decode again.\<close>

theorem param_checker_correct:
  "if list_all (\<lambda>p. clean_param (snd p)) ps then param_checker quote ps = []
   else \<exists>msg. param_checker quote ps = [GStatus 400, GWrite msg, GAbort]"
proof (induction ps)
  case (Cons p ps)
  obtain k v where [simp]: "p = (k, v)" by (cases p)
  show ?case
  proof (cases "path_unescape v")
    case (Inl e)
    then have "\<not> clean_param v" by (simp add: clean_param_iff)
    with Inl show ?thesis by (simp add: error_response_writer_def)
  next
    case (Inr s)
    show ?thesis
    proof (cases "clean_param v")
      case True
      with Inr have "s = v" "\<not> contains_sub v ''?''" "\<not> contains_sub v ''#''" by (auto simp: clean_param_iff)
      with Inr True Cons show ?thesis by simp
    next
      case False
      with Inr have "s \<noteq> v \<or> contains_sub s ''?'' \<or> contains_sub s ''#''" by (auto simp: clean_param_iff)
      with Inr False show ?thesis by (simp add: error_response_writer_def)
    qed
  qed
qed simp

section \<open>The engine's options\<close>

record engine_configuration =
  gc_DisableRedirectTrailingSlash :: "bool option"
  gc_DisableRedirectFixedPath :: "bool option"
  gc_DisableHandleMethodNotAllowed :: "bool option"
  gc_ForwardedByClientIP :: "bool option"
  gc_RemoteIPHeaders :: "string list"
  gc_TrustedProxies :: "string list"
  gc_AppEngine :: bool
  gc_MaxMultipartMemory :: int
  gc_RemoveExtraSlash :: bool
  gc_LoggerSkipPaths :: "string list"
  gc_AutoOptions :: bool
  gc_ReturnErrorMsg :: bool
  gc_DisableHealthEndpoint :: bool
  gc_HealthPath :: string
  gc_DisableAccessLog :: bool
  gc_DisablePathDecoding :: bool
  gc_ObfuscateVersionHeader :: bool
  gc_UseH2C :: bool

definition engine_configuration_zero :: engine_configuration where
  "engine_configuration_zero =
     \<lparr>gc_DisableRedirectTrailingSlash = None, gc_DisableRedirectFixedPath = None,
      gc_DisableHandleMethodNotAllowed = None, gc_ForwardedByClientIP = None, gc_RemoteIPHeaders = [],
      gc_TrustedProxies = [], gc_AppEngine = False, gc_MaxMultipartMemory = 0, gc_RemoveExtraSlash = False,
      gc_LoggerSkipPaths = [], gc_AutoOptions = False, gc_ReturnErrorMsg = False,
      gc_DisableHealthEndpoint = False, gc_HealthPath = [], gc_DisableAccessLog = False,
      gc_DisablePathDecoding = False, gc_ObfuscateVersionHeader = False, gc_UseH2C = False\<rparr>"

datatype gin_middleware = AccessLog "string list" | Recovery | ParamChecker

record gin_engine =
  ge_RedirectTrailingSlash :: bool
  ge_RedirectFixedPath :: bool
  ge_HandleMethodNotAllowed :: bool
  ge_ContextWithFallback :: bool
  ge_ForwardedByClientIP :: bool
  ge_RemoteIPHeaders :: "string list"
  ge_TrustedProxies :: "string list"
  ge_AppEngine :: bool
  ge_MaxMultipartMemory :: int
  ge_RemoveExtraSlash :: bool
  ge_UseH2C :: bool
  ge_NoRoute :: "gin_call list"            \<comment> \<open>what the handler of unmatched requests does\<close>
  ge_middlewares :: "gin_middleware list"
  ge_health :: "string option"             \<comment> \<open>the path of the health endpoint\<close>

text \<open>The package variables the options set: whether error messages are returned, and the value of the
  version header.\<close>

record gin_globals =
  gg_returnErrorMsg :: bool
  gg_PucoraHeaderValue :: string

definition gin_Namespace :: string where
  "gin_Namespace = ''github_com/pucora/lura/v2/router/gin''"

definition default_to :: "bool option \<Rightarrow> bool \<Rightarrow> bool" where
  "default_to b d = (case b of None \<Rightarrow> d | Some x \<Rightarrow> x)"

text \<open>The options that take effect when the configuration could be decoded.\<close>

definition apply_options :: "engine_configuration \<Rightarrow> gin_engine \<Rightarrow> gin_engine" where
  "apply_options opts e =
     e\<lparr>ge_RedirectTrailingSlash :=
          (case gc_DisableRedirectTrailingSlash opts of None \<Rightarrow> ge_RedirectTrailingSlash e | Some b \<Rightarrow> \<not> b),
       ge_RedirectFixedPath :=
          (case gc_DisableRedirectFixedPath opts of None \<Rightarrow> ge_RedirectFixedPath e | Some b \<Rightarrow> \<not> b),
       ge_HandleMethodNotAllowed :=
          (case gc_DisableHandleMethodNotAllowed opts of None \<Rightarrow> ge_HandleMethodNotAllowed e | Some b \<Rightarrow> \<not> b),
       ge_ForwardedByClientIP := default_to (gc_ForwardedByClientIP opts) (ge_ForwardedByClientIP e),
       ge_RemoteIPHeaders :=
          (if gc_RemoteIPHeaders opts \<noteq> [] then map canonical_mime_header_key (gc_RemoteIPHeaders opts)
           else ge_RemoteIPHeaders e),
       ge_TrustedProxies := (if gc_TrustedProxies opts \<noteq> [] then gc_TrustedProxies opts else ge_TrustedProxies e),
       ge_AppEngine := gc_AppEngine opts,
       ge_MaxMultipartMemory := gc_MaxMultipartMemory opts,
       ge_RemoveExtraSlash := gc_RemoveExtraSlash opts,
       ge_UseH2C := gc_UseH2C opts\<rparr>"

text \<open>\<open>NewEngine\<close>. \<open>new_gin\<close> is the engine \<open>gin.New\<close> returns; \<open>decode\<close> encodes the options as JSON and
  decodes them again, which fills what it can even when it fails.\<close>

definition new_engine ::
  "gin_engine \<Rightarrow> (gval \<Rightarrow> engine_configuration \<times> bool) \<Rightarrow> service_config \<Rightarrow> gin_globals \<Rightarrow> gin_engine \<times> gin_globals" where
  "new_engine new_gin decode cfg g =
     (let e = new_gin\<lparr>ge_RedirectTrailingSlash := True, ge_RedirectFixedPath := True,
                ge_HandleMethodNotAllowed := True, ge_ContextWithFallback := True\<rparr>;
          (opts, ok) = (case map_of (s_ExtraConfig cfg) gin_Namespace of
                       None \<Rightarrow> (engine_configuration_zero, False)
                     | Some v \<Rightarrow> decode v);
          (e, paths, g) =
            (if ok
             then (apply_options opts e, gc_LoggerSkipPaths opts,
                   let g = g\<lparr>gg_returnErrorMsg := gc_ReturnErrorMsg opts\<rparr>
                   in if gc_ObfuscateVersionHeader opts then g\<lparr>gg_PucoraHeaderValue := ''Version undefined''\<rparr> else g)
             else (e, [], g));
          e = e\<lparr>ge_NoRoute := [GHeader CompleteResponseHeaderName HeaderIncompleteResponseValue]\<rparr>;
          e = (if gc_DisableAccessLog opts then e else e\<lparr>ge_middlewares := ge_middlewares e @ [AccessLog paths]\<rparr>);
          e = e\<lparr>ge_middlewares := ge_middlewares e @ [Recovery]\<rparr>;
          e = (if gc_DisablePathDecoding opts then e else e\<lparr>ge_middlewares := ge_middlewares e @ [ParamChecker]\<rparr>);
          e = (if gc_DisableHealthEndpoint opts then e
               else e\<lparr>ge_health := Some (if gc_HealthPath opts \<noteq> [] then gc_HealthPath opts else ''/__health'')\<rparr>)
      in (e, g))"

section \<open>Registering endpoints\<close>

text \<open>What the router asks of gin: \<open>Any\<close>, the method of the group named after the HTTP method, and
  \<open>OPTIONS\<close> with the handler that answers with the methods allowed.\<close>

datatype 'h route_call =
    RAny string 'h
  | RHandle string string 'h
  | ROptions string string

record 'h gin_router =
  gr_routes :: "'h route_call list"
  gr_catalog :: "string list gomap"      \<comment> \<open>\<open>urlCatalog\<close>\<close>

definition is_websocket_endpoint :: "endpoint_config \<Rightarrow> bool" where
  "is_websocket_endpoint e \<longleftrightarrow> map_of (e_ExtraConfig e) ''websocket'' \<noteq> None"

definition gin_route ::
  "('h route_call list \<Rightarrow> 'h route_call \<Rightarrow> bool) \<Rightarrow> 'h route_call \<Rightarrow> 'h gin_router \<Rightarrow> 'h gin_router option" where
  "gin_route refuses c st =
     (if refuses (gr_routes st) c then None else Some (st\<lparr>gr_routes := gr_routes st @ [c]\<rparr>))"

definition gin_register_endpoint ::
  "('h route_call list \<Rightarrow> 'h route_call \<Rightarrow> bool) \<Rightarrow> string \<Rightarrow> endpoint_config \<Rightarrow> 'h \<Rightarrow> nat \<Rightarrow> 'h gin_router \<Rightarrow>
   'h gin_router option" where
  "gin_register_endpoint refuses method e h totBackends st =
     (let method = to_upper method; path = e_Endpoint e
      in if method \<noteq> ''GET'' \<and> totBackends > 1 \<and> \<not> is_valid_sequential_endpoint e then Some st
         else if method \<in> set routable_methods
         then (case gin_route refuses (RHandle method path h) st of
                 None \<Rightarrow> None
               | Some st \<Rightarrow>
                   Some (case map_of (gr_catalog st) path of
                           None \<Rightarrow> st\<lparr>gr_catalog := AList.update path [method] (gr_catalog st)\<rparr>
                         | Some methods \<Rightarrow> st\<lparr>gr_catalog := AList.update path (methods @ [method]) (gr_catalog st)\<rparr>))
         else Some st)"

text \<open>\<open>failed\<close> is the handler that answers with a 500, \<open>noop\<close> the proxy of a websocket endpoint.\<close>

fun gin_register_endpoints ::
  "('h route_call list \<Rightarrow> 'h route_call \<Rightarrow> bool) \<Rightarrow> 'h \<Rightarrow> 'p \<Rightarrow> (endpoint_config \<Rightarrow> goerror + 'p) \<Rightarrow>
   (endpoint_config \<Rightarrow> 'p \<Rightarrow> 'h) \<Rightarrow> endpoint_config list \<Rightarrow> 'h gin_router \<Rightarrow> 'h gin_router option" where
  "gin_register_endpoints refuses failed noop pf hf [] st = Some st"
| "gin_register_endpoints refuses failed noop pf hf (c # cs) st =
     Option.bind
       (if is_websocket_endpoint c
        then gin_register_endpoint refuses ''GET'' c (hf c noop) (length (e_Backend c)) st
        else case pf c of
               Inl err \<Rightarrow> gin_register_endpoint refuses (e_Method c) c failed 1 st
             | Inr p \<Rightarrow> gin_register_endpoint refuses (e_Method c) c (hf c p) (length (e_Backend c)) st)
       (gin_register_endpoints refuses failed noop pf hf cs)"

definition proxy_build_failed_handler :: "'v gin_handler" where
  "proxy_build_failed_handler c tv = (case tv of (t, v) \<Rightarrow> Some (t @ [GAbortWithStatus 500], v))"

text \<open>\<open>registerOptionEndpoints\<close> sorts the methods in place, in the order the catalogue is visited in.\<close>

fun register_option_endpoints ::
  "('h route_call list \<Rightarrow> 'h route_call \<Rightarrow> bool) \<Rightarrow> string list gomap \<Rightarrow> 'h gin_router \<Rightarrow> 'h gin_router option" where
  "register_option_endpoints refuses [] st = Some st"
| "register_option_endpoints refuses ((path, methods) # cat) st =
     (let methodList = join_with '', '' (sort methods);
          st = st\<lparr>gr_catalog := AList.update path (sort methods) (gr_catalog st)\<rparr>
      in Option.bind (gin_route refuses (ROptions path methodList) st) (register_option_endpoints refuses cat))"

definition options_handler :: "string \<Rightarrow> string \<Rightarrow> 'v gin_handler" where
  "options_handler hv methodList c tv =
     (case tv of (t, v) \<Rightarrow> Some (t @ [GHeader ''Allow'' methodList, GHeader PucoraHeaderName hv], v))"

definition auto_options :: "service_config \<Rightarrow> bool" where
  "auto_options cfg \<longleftrightarrow>
     (case ec_map (s_ExtraConfig cfg) gin_Namespace of
        None \<Rightarrow> False
      | Some opts \<Rightarrow> ec_bool opts ''auto_options'' = Some True)"

definition new_gin_router :: "'h gin_router" where
  "new_gin_router = \<lparr>gr_routes = [], gr_catalog = []\<rparr>"

definition register_endpoints_and_middlewares ::
  "('h route_call list \<Rightarrow> 'h route_call \<Rightarrow> bool) \<Rightarrow> 'h \<Rightarrow> 'h \<Rightarrow> 'h \<Rightarrow> 'p \<Rightarrow> (endpoint_config \<Rightarrow> goerror + 'p) \<Rightarrow>
   (endpoint_config \<Rightarrow> 'p \<Rightarrow> 'h) \<Rightarrow> service_config \<Rightarrow> 'h gin_router \<Rightarrow> 'h gin_router option" where
  "register_endpoints_and_middlewares refuses debugH echoH failed noop pf hf cfg st =
     Option.bind (if s_Debug cfg then gin_route refuses (RAny ''/__debug/*param'' debugH) st else Some st) (\<lambda>st.
     Option.bind (if s_Echo cfg then gin_route refuses (RAny ''/__echo/*param'' echoH) st else Some st) (\<lambda>st.
     Option.bind (gin_register_endpoints refuses failed noop pf hf (s_Endpoints cfg) st) (\<lambda>st.
       if auto_options cfg then register_option_endpoints refuses (gr_catalog st) st else Some st)))"

section \<open>The service's own endpoints\<close>

text \<open>The goroutine behind the health endpoint notes when an agent last reported; \<open>now\<close> is
  \<open>time.Now().String()\<close>.\<close>

definition note_report :: "string \<Rightarrow> string \<Rightarrow> string gomap \<Rightarrow> string gomap" where
  "note_report now name reports = AList.update name now reports"

definition health_endpoint :: "string gomap \<Rightarrow> string \<Rightarrow> 'v gin_handler" where
  "health_endpoint reports now c tv =
     (case tv of (t, v) \<Rightarrow>
        Some (t @ [GJSON 200 (VMap [(''status'', VString ''ok''),
            (''agents'', VMap (map (\<lambda>(k, s). (k, VString s)) reports)), (''now'', VString now)])], v))"

definition gin_debug_handler :: "'v gin_handler" where
  "gin_debug_handler c tv =
     (case tv of (t, v) \<Rightarrow> Some (t @ [GJSON 200 (VMap [(''message'', VString ''pong'')])], v))"

definition gin_echo_handler :: "'v gin_handler" where
  "gin_echo_handler c tv = (case tv of (t, v) \<Rightarrow> Some (t @ [GJSON 200 (echo_response c)], v))"

text \<open>An agent keeps one report, its last.\<close>

lemma reports_last:
  "map_of (foldl (\<lambda>m (now, name). note_report now name m) reports (evs @ [(now, name)])) k =
     (if k = name then Some now else map_of (foldl (\<lambda>m (now, name). note_report now name m) reports evs) k)"
  by (simp add: note_report_def gomap_simps)

section \<open>The routes and the catalogue\<close>

definition methods_at :: "'h route_call list \<Rightarrow> string \<Rightarrow> string list" where
  "methods_at rs path = concat (map (\<lambda>c. case c of RHandle m p h \<Rightarrow> if p = path then [m] else [] | _ \<Rightarrow> []) rs)"

definition allows_at :: "'h route_call list \<Rightarrow> string \<Rightarrow> string list" where
  "allows_at rs path = concat (map (\<lambda>c. case c of ROptions p a \<Rightarrow> if p = path then [a] else [] | _ \<Rightarrow> []) rs)"

definition endpoint_method :: "endpoint_config \<Rightarrow> string" where
  "endpoint_method c = (if is_websocket_endpoint c then ''GET'' else to_upper (e_Method c))"

definition configured_methods :: "endpoint_config list \<Rightarrow> string \<Rightarrow> string list" where
  "configured_methods cs path =
     map endpoint_method (filter (\<lambda>c. e_Endpoint c = path \<and> endpoint_method c \<in> set routable_methods) cs)"

lemma methods_at_simps [simp]:
  "methods_at [] p = []" "methods_at (rs @ ss) p = methods_at rs p @ methods_at ss p"
  "methods_at [RHandle m q h] p = (if q = p then [m] else [])" "methods_at [RAny q h] p = []"
  "methods_at [ROptions q a] p = []"
  by (simp_all add: methods_at_def)

lemma allows_at_simps [simp]:
  "allows_at [] p = []" "allows_at (rs @ ss) p = allows_at rs p @ allows_at ss p"
  "allows_at [RHandle m q h] p = []" "allows_at [RAny q h] p = []"
  "allows_at [ROptions q a] p = (if q = p then [a] else [])"
  by (simp_all add: allows_at_def)

text \<open>The catalogue holds the methods registered at each path that has some.\<close>

definition methods_map :: "'h route_call list \<Rightarrow> string \<Rightarrow> string list option" where
  "methods_map rs path = (if methods_at rs path = [] then None else Some (methods_at rs path))"

definition catalog_ok :: "'h gin_router \<Rightarrow> bool" where
  "catalog_ok st \<longleftrightarrow> gomap_ok (gr_catalog st) \<and> map_of (gr_catalog st) = methods_map (gr_routes st)"

lemma gin_route_adds: "gin_route refuses c st = Some st' \<longleftrightarrow>
    \<not> refuses (gr_routes st) c \<and> st' = st\<lparr>gr_routes := gr_routes st @ [c]\<rparr>"
  by (auto simp: gin_route_def)

lemma gin_register_endpoint_adds:
  assumes "gin_register_endpoint refuses method c h n st = Some st'" and "catalog_ok st"
  shows "catalog_ok st' \<and> allows_at (gr_routes st') p = allows_at (gr_routes st) p \<and>
    methods_at (gr_routes st') p = methods_at (gr_routes st) p @
      (if e_Endpoint c = p \<and> to_upper method \<in> set routable_methods then [to_upper method] else [])"
proof (cases "to_upper method \<in> set routable_methods")
  case True
  define ms where "ms = methods_at (gr_routes st) (e_Endpoint c)"
  let ?m = "to_upper method"
  have "map_of (gr_catalog st) (e_Endpoint c) = (if ms = [] then None else Some ms)"
    using assms(2) by (simp add: catalog_ok_def ms_def methods_map_def)
  with assms(1) True have st': "st' = st\<lparr>gr_routes := gr_routes st @ [RHandle ?m (e_Endpoint c) h],
      gr_catalog := AList.update (e_Endpoint c) (ms @ [?m]) (gr_catalog st)\<rparr>"
    by (auto simp: gin_register_endpoint_def is_valid_sequential_endpoint_def Let_def gin_route_adds
        split: if_splits option.splits)
  have "map_of (gr_catalog st') = methods_map (gr_routes st')"
    using assms(2) by (auto simp: catalog_ok_def st' gomap_simps ms_def methods_map_def fun_eq_iff)
  moreover have "gomap_ok (gr_catalog st')" using assms(2) by (simp add: st' catalog_ok_def)
  ultimately show ?thesis using True by (simp add: catalog_ok_def st')
next
  case False
  with assms show ?thesis
    by (auto simp: gin_register_endpoint_def is_valid_sequential_endpoint_def Let_def split: if_splits)
qed

lemma gin_register_endpoints_adds:
  "gin_register_endpoints refuses failed noop pf hf cs st = Some st' \<Longrightarrow> catalog_ok st \<Longrightarrow>
     catalog_ok st' \<and> allows_at (gr_routes st') p = allows_at (gr_routes st) p \<and>
     methods_at (gr_routes st') p = methods_at (gr_routes st) p @ configured_methods cs p"
proof (induction cs arbitrary: st)
  case (Cons c cs)
  define meth where "meth = (if is_websocket_endpoint c then ''GET'' else e_Method c)"
  have m: "to_upper meth = endpoint_method c"
    by (simp add: meth_def endpoint_method_def to_upper_def upper_char_def)
  from Cons.prems(1) obtain h n u where one: "gin_register_endpoint refuses meth c h n st = Some u"
    and rest: "gin_register_endpoints refuses failed noop pf hf cs u = Some st'"
    by (auto simp: bind_eq_Some_conv meth_def split: if_splits sum.splits)
  note step = gin_register_endpoint_adds [OF one Cons.prems(2)]
  with Cons.IH [OF rest] show ?case by (simp add: m configured_methods_def)
qed (simp add: configured_methods_def)

lemma register_options_adds:
  "register_option_endpoints refuses cat st = Some st' \<Longrightarrow> gomap_ok cat \<Longrightarrow>
     methods_at (gr_routes st') p = methods_at (gr_routes st) p \<and>
     allows_at (gr_routes st') p = allows_at (gr_routes st) p @
       (case map_of cat p of None \<Rightarrow> [] | Some ms \<Rightarrow> [join_with '', '' (sort ms)])"
proof (induction cat arbitrary: st)
  case (Cons e cat)
  obtain path ms where e: "e = (path, ms)" by (cases e)
  define u where "u = st\<lparr>gr_catalog := AList.update path (sort ms) (gr_catalog st),
    gr_routes := gr_routes st @ [ROptions path (join_with '', '' (sort ms))]\<rparr>"
  then have u: "gr_routes u = gr_routes st @ [ROptions path (join_with '', '' (sort ms))]" by simp
  have rest: "register_option_endpoints refuses cat u = Some st'"
    using Cons.prems(1) by (auto simp: e u_def Let_def bind_eq_Some_conv gin_route_adds)
  have none: "map_of cat path = None" using Cons.prems(2) e by (simp add: map_of_eq_None_iff)
  from Cons.IH [OF rest] Cons.prems(2) u none show ?case by (auto simp: e)
qed simp

lemma routes_without_debug:
  assumes "(if b then gin_route refuses (RAny q h) st else Some st) = Some st'"
  shows "catalog_ok st \<Longrightarrow> catalog_ok st'" and "methods_at (gr_routes st') p = methods_at (gr_routes st) p"
    and "allows_at (gr_routes st') p = allows_at (gr_routes st) p"
  using assms by (cases b; simp add: gin_route_adds catalog_ok_def methods_map_def fun_eq_iff)+

lemma new_gin_router_ok [simp]:
  "catalog_ok new_gin_router" "methods_at (gr_routes new_gin_router) p = []" "allows_at (gr_routes new_gin_router) p = []"
  by (simp_all add: catalog_ok_def new_gin_router_def methods_map_def fun_eq_iff)

text \<open>Registration fails only where gin panics.\<close>

definition never :: "'h route_call list \<Rightarrow> 'h route_call \<Rightarrow> bool" where
  "never rs c = False"

lemma gin_route_never [simp]: "gin_route never c st = Some (st\<lparr>gr_routes := gr_routes st @ [c]\<rparr>)"
  by (simp add: gin_route_def never_def)

lemma gin_register_endpoint_returns: "gin_register_endpoint never method c h n st \<noteq> None"
  by (auto simp: gin_register_endpoint_def Let_def)

lemma gin_register_endpoints_returns: "gin_register_endpoints never failed noop pf hf cs st \<noteq> None"
  by (induction cs arbitrary: st)
     (simp_all add: bind_eq_None_conv gin_register_endpoint_returns del: not_None_eq split: sum.split)

lemma register_options_returns: "register_option_endpoints never cat st \<noteq> None"
  by (induction cat arbitrary: st) (auto simp: Let_def)

lemma registrations_return:
  "register_endpoints_and_middlewares never debugH echoH failed noop pf hf cfg st \<noteq> None"
  by (simp add: register_endpoints_and_middlewares_def bind_eq_None_conv gin_register_endpoints_returns
      register_options_returns del: not_None_eq)

text \<open>C24. What the gin router registers at a path, whether proxies could be built or not: the methods of
  the endpoints configured there, in the order of the configuration, a websocket endpoint as GET, and
  no methods but the five. With the automatic options a path with endpoints gets one \<open>OPTIONS\<close>
  endpoint, which lists those methods in alphabetical order. The registration can only panic when gin
  refuses a route.\<close>

theorem gin_routes_correct:
  "case register_endpoints_and_middlewares refuses debugH echoH failed noop pf hf cfg new_gin_router of
     None \<Rightarrow> \<exists>rs c. refuses rs c
   | Some st \<Rightarrow>
       methods_at (gr_routes st) path = configured_methods (s_Endpoints cfg) path \<and>
       allows_at (gr_routes st) path =
         (if auto_options cfg \<and> configured_methods (s_Endpoints cfg) path \<noteq> []
          then [join_with '', '' (sort (configured_methods (s_Endpoints cfg) path))] else [])"
proof (cases "register_endpoints_and_middlewares refuses debugH echoH failed noop pf hf cfg new_gin_router")
  case None
  have "\<exists>rs c. refuses rs c"
  proof (rule ccontr)
    assume "\<not> (\<exists>rs c. refuses rs c)"
    then have "refuses = never" by (simp add: fun_eq_iff never_def)
    have "register_endpoints_and_middlewares refuses debugH echoH failed noop pf hf cfg new_gin_router \<noteq> None"
      unfolding \<open>refuses = never\<close> by (rule registrations_return)
    with None show False by simp
  qed
  with None show ?thesis by simp
next
  case (Some st)
  then obtain s1 s2 s3 where
    one: "(if s_Debug cfg then gin_route refuses (RAny ''/__debug/*param'' debugH) new_gin_router else Some new_gin_router) = Some s1"
    and two: "(if s_Echo cfg then gin_route refuses (RAny ''/__echo/*param'' echoH) s1 else Some s1) = Some s2"
    and three: "gin_register_endpoints refuses failed noop pf hf (s_Endpoints cfg) s2 = Some s3"
    and four: "(if auto_options cfg then register_option_endpoints refuses (gr_catalog s3) s3 else Some s3) = Some st"
    unfolding register_endpoints_and_middlewares_def bind_eq_Some_conv by blast
  have "catalog_ok s2" by (rule routes_without_debug(1) [OF two routes_without_debug(1) [OF one]]) simp
  note all = gin_register_endpoints_adds [OF three this]
  have s3: "methods_at (gr_routes s3) path = configured_methods (s_Endpoints cfg) path"
    "allows_at (gr_routes s3) path = []" "catalog_ok s3"
    using all [of path] by (simp_all add: routes_without_debug(2,3) [OF two] routes_without_debug(2,3) [OF one])
  then have cat: "gomap_ok (gr_catalog s3)" "map_of (gr_catalog s3) path =
      (if configured_methods (s_Endpoints cfg) path = [] then None else Some (configured_methods (s_Endpoints cfg) path))"
    by (simp_all add: catalog_ok_def methods_map_def)
  show ?thesis
  proof (cases "auto_options cfg")
    case True
    with four register_options_adds [of refuses "gr_catalog s3" s3 st path] cat Some s3(1,2) show ?thesis by simp
  next
    case False
    with four Some s3(1,2) show ?thesis by simp
  qed
qed

end
