(* ===== verification/Server.thy ===== *)
theory Server
  imports ConfigTypes
begin

text \<open>
  The HTTP server and transport (\<open>src/transport/http/server/server.go\<close>): TLS settings, certificate
  pools, the default transport and \<open>RunServer\<close>. Reading files, the system's certificate pool and
  \<open>tls.LoadX509KeyPair\<close> are parameters; a pool is what has been put into it. The run of a server is a
  step relation between the function and the goroutine that serves.
\<close>

section \<open>TLS settings\<close>

definition VersionSSL30 :: "16 word" where "VersionSSL30 = 0x0300"
definition VersionTLS10 :: "16 word" where "VersionTLS10 = 0x0301"
definition VersionTLS11 :: "16 word" where "VersionTLS11 = 0x0302"
definition VersionTLS12 :: "16 word" where "VersionTLS12 = 0x0303"
definition VersionTLS13 :: "16 word" where "VersionTLS13 = 0x0304"

definition tls_versions :: "16 word gomap" where
  "tls_versions =
     [(''SSL3.0'', VersionSSL30), (''TLS10'', VersionTLS10), (''TLS11'', VersionTLS11),
      (''TLS12'', VersionTLS12), (''TLS13'', VersionTLS13)]"

definition parse_tls_version :: "string \<Rightarrow> 16 word" where
  "parse_tls_version key = (case map_of tls_versions key of Some v \<Rightarrow> v | None \<Rightarrow> VersionTLS13)"

text \<open>\<open>tls.CurveP521\<close>, \<open>CurveP384\<close> and \<open>CurveP256\<close>.\<close>

definition default_curves :: "16 word list" where
  "default_curves = [25, 24, 23]"

text \<open>ECDHE with AES-GCM (128 and 256 bits) and ChaCha20-Poly1305, for RSA and ECDSA.\<close>

definition default_cipher_suites :: "16 word list" where
  "default_cipher_suites = [0xc02f, 0xc02b, 0xc030, 0xc02c, 0xcca8, 0xcca9]"

definition parse_curve_ids :: "16 word list \<Rightarrow> 16 word list" where
  "parse_curve_ids curvePreferences = (if length curvePreferences = 0 then default_curves else curvePreferences)"

definition parse_cipher_suites :: "16 word list \<Rightarrow> 16 word list" where
  "parse_cipher_suites cipherSuites = (if length cipherSuites = 0 then default_cipher_suites else cipherSuites)"

section \<open>Certificates\<close>

record cert_pool =
  cp_System :: bool          \<comment> \<open>the pool started as a copy of the system's\<close>
  cp_PEMs :: "string list"   \<comment> \<open>what was given to \<open>AppendCertsFromPEM\<close>\<close>

record 'c server_env =
  sv_read_file :: "string \<Rightarrow> goerror + string"
  sv_system_pool :: "goerror option"       \<comment> \<open>the error of \<open>x509.SystemCertPool\<close>\<close>
  sv_load_key_pair :: "string \<Rightarrow> string \<Rightarrow> goerror + 'c"

definition append_pem :: "string \<Rightarrow> cert_pool \<Rightarrow> cert_pool" where
  "append_pem ca pool = pool\<lparr>cp_PEMs := cp_PEMs pool @ [ca]\<rparr>"

text \<open>The loop over files, which logs what cannot be read (only that it does is kept here).\<close>

fun append_files :: "'c server_env \<Rightarrow> string list \<Rightarrow> cert_pool \<Rightarrow> cert_pool" where
  "append_files env [] pool = pool"
| "append_files env (path # paths) pool =
     (case sv_read_file env path of
        Inl err \<Rightarrow> append_files env paths pool
      | Inr ca \<Rightarrow> append_files env paths (append_pem ca pool))"

definition load_cert_pool :: "'c server_env \<Rightarrow> bool \<Rightarrow> string list \<Rightarrow> cert_pool" where
  "load_cert_pool env disableSystemCaPool caCerts =
     (let certPool = \<lparr>cp_System = False, cp_PEMs = []\<rparr>;
          certPool = (if \<not> disableSystemCaPool \<and> sv_system_pool env = None
                      then certPool\<lparr>cp_System := True\<rparr> else certPool)
      in append_files env caCerts certPool)"

fun load_client_certs :: "'c server_env \<Rightarrow> client_tls_cert list \<Rightarrow> 'c list" where
  "load_client_certs env [] = []"
| "load_client_certs env (c # cs) =
     (case sv_load_key_pair env (cc_Certificate c) (cc_PrivateKey c) of
        Inl err \<Rightarrow> load_client_certs env cs
      | Inr cert \<Rightarrow> cert # load_client_certs env cs)"

record 'c tls_config =
  tc_MinVersion :: "16 word"
  tc_MaxVersion :: "16 word"
  tc_CurvePreferences :: "16 word list"
  tc_CipherSuites :: "16 word list"
  tc_ClientCAs :: "cert_pool option"
  tc_RequireClientCert :: bool         \<comment> \<open>\<open>ClientAuth\<close> is \<open>RequireAndVerifyClientCert\<close>\<close>
  tc_InsecureSkipVerify :: bool
  tc_RootCAs :: "cert_pool option"
  tc_Certificates :: "'c list"

definition parse_tls_config :: "'c server_env \<Rightarrow> tls option \<Rightarrow> 'c tls_config option" where
  "parse_tls_config env cfg =
     (case cfg of
        None \<Rightarrow> None
      | Some c \<Rightarrow>
          if t_IsDisabled c then None
          else
            (let tc = \<lparr>tc_MinVersion = parse_tls_version (t_MinVersion c),
                       tc_MaxVersion = parse_tls_version (t_MaxVersion c),
                       tc_CurvePreferences = parse_curve_ids (t_CurvePreferences c),
                       tc_CipherSuites = parse_cipher_suites (t_CipherSuites c),
                       tc_ClientCAs = None, tc_RequireClientCert = False, tc_InsecureSkipVerify = False,
                       tc_RootCAs = None, tc_Certificates = []\<rparr>
             in if \<not> t_EnableMTLS c then Some tc
                else
                  (let certPool = load_cert_pool env (t_DisableSystemCaPool c) (t_CaCerts c);
                       certPool = append_files env (map k_PublicKey (t_Keys c)) certPool
                   in Some (tc\<lparr>tc_ClientCAs := Some certPool, tc_RequireClientCert := True\<rparr>))))"

definition parse_client_tls_config :: "'c server_env \<Rightarrow> client_tls option \<Rightarrow> 'c tls_config option" where
  "parse_client_tls_config env cfg =
     map_option (\<lambda>c.
       \<lparr>tc_MinVersion = parse_tls_version (ct_MinVersion c),
        tc_MaxVersion = parse_tls_version (ct_MaxVersion c),
        tc_CurvePreferences = parse_curve_ids (ct_CurvePreferences c),
        tc_CipherSuites = parse_cipher_suites (ct_CipherSuites c),
        tc_ClientCAs = None, tc_RequireClientCert = False,
        tc_InsecureSkipVerify = ct_AllowInsecureConnections c,
        tc_RootCAs = Some (load_cert_pool env (ct_DisableSystemCaPool c) (ct_CaCerts c)),
        tc_Certificates = load_client_certs env (ct_ClientCerts c)\<rparr>) cfg"

section \<open>The default transport\<close>

record 'c http_transport =
  tr_DialerTimeout :: duration
  tr_DialerKeepAlive :: duration
  tr_DialerFallbackDelay :: duration
  tr_DisableCompression :: bool
  tr_DisableKeepAlives :: bool
  tr_MaxIdleConns :: int
  tr_MaxIdleConnsPerHost :: int
  tr_IdleConnTimeout :: duration
  tr_ResponseHeaderTimeout :: duration
  tr_ExpectContinueTimeout :: duration
  tr_TLSHandshakeTimeout :: duration
  tr_TLSClientConfig :: "'c tls_config option"

definition new_transport :: "'c server_env \<Rightarrow> service_config \<Rightarrow> 'c http_transport" where
  "new_transport env cfg =
     \<lparr>tr_DialerTimeout = s_DialerTimeout cfg, tr_DialerKeepAlive = s_DialerKeepAlive cfg,
      tr_DialerFallbackDelay = s_DialerFallbackDelay cfg, tr_DisableCompression = s_DisableCompression cfg,
      tr_DisableKeepAlives = s_DisableKeepAlives cfg, tr_MaxIdleConns = s_MaxIdleConns cfg,
      tr_MaxIdleConnsPerHost = s_MaxIdleConnsPerHost cfg, tr_IdleConnTimeout = s_IdleConnTimeout cfg,
      tr_ResponseHeaderTimeout = s_ResponseHeaderTimeout cfg,
      tr_ExpectContinueTimeout = s_ExpectContinueTimeout cfg, tr_TLSHandshakeTimeout = 10 * second,
      tr_TLSClientConfig = parse_client_tls_config env (s_ClientTLS cfg)\<rparr>"

definition client_tls_zero :: client_tls where
  "client_tls_zero = \<lparr>ct_AllowInsecureConnections = False, ct_CaCerts = [], ct_DisableSystemCaPool = False,
     ct_MinVersion = [], ct_MaxVersion = [], ct_CurvePreferences = [], ct_CipherSuites = [], ct_ClientCerts = []\<rparr>"

definition allow_insecure :: "service_config \<Rightarrow> service_config" where
  "allow_insecure cfg =
     (if s_AllowInsecureConnections cfg
      then cfg\<lparr>s_ClientTLS := Some ((case s_ClientTLS cfg of None \<Rightarrow> client_tls_zero | Some c \<Rightarrow> c)
                 \<lparr>ct_AllowInsecureConnections := True\<rparr>)\<rparr>
      else cfg)"

text \<open>\<open>InitHTTPDefaultTransport\<close>: the state is the transport the \<open>sync.Once\<close> has set, if it has.\<close>

definition init_http_default_transport ::
  "'c server_env \<Rightarrow> service_config \<Rightarrow> 'c http_transport option \<Rightarrow> 'c http_transport option" where
  "init_http_default_transport env cfg once =
     (let cfg = allow_insecure cfg
      in case once of Some t \<Rightarrow> Some t | None \<Rightarrow> Some (new_transport env cfg))"

section \<open>The server\<close>

record 'c http_server =
  hs_Addr :: string
  hs_H2C :: bool                         \<comment> \<open>the handler is wrapped for HTTP/2 without TLS\<close>
  hs_ReadTimeout :: duration
  hs_WriteTimeout :: duration
  hs_ReadHeaderTimeout :: duration
  hs_IdleTimeout :: duration
  hs_TLSConfig :: "'c tls_config option"
  hs_MaxHeaderBytes :: int

text \<open>\<open>net.JoinHostPort\<close> puts brackets around an address with a colon.\<close>

definition server_addr :: "string \<Rightarrow> int \<Rightarrow> string" where
  "server_addr host port =
     (if CHR '':'' \<in> set host then ''['' @ host @ '']:'' @ show_int port else host @ '':'' @ show_int port)"

definition new_server :: "'c server_env \<Rightarrow> service_config \<Rightarrow> 'c http_server" where
  "new_server env cfg =
     \<lparr>hs_Addr = server_addr (s_Address cfg) (s_Port cfg), hs_H2C = s_UseH2C cfg,
      hs_ReadTimeout = s_ReadTimeout cfg, hs_WriteTimeout = s_WriteTimeout cfg,
      hs_ReadHeaderTimeout = s_ReadHeaderTimeout cfg, hs_IdleTimeout = s_IdleTimeout cfg,
      hs_TLSConfig = parse_tls_config env (s_TLS cfg), hs_MaxHeaderBytes = s_MaxHeaderBytes cfg\<rparr>"

definition ErrPublicKey :: goerror where "ErrPublicKey = ErrMsg ''public key not defined''"
definition ErrPrivateKey :: goerror where "ErrPrivateKey = ErrMsg ''private key not defined''"

fun load_keys :: "'c server_env \<Rightarrow> tls_key_pair list \<Rightarrow> 'c list \<Rightarrow> goerror + 'c list" where
  "load_keys env [] certs = Inr certs"
| "load_keys env (k # ks) certs =
     (if k_PublicKey k = [] then Inl ErrPublicKey
      else if k_PrivateKey k = [] then Inl ErrPrivateKey
      else case sv_load_key_pair env (k_PublicKey k) (k_PrivateKey k) of
             Inl err \<Rightarrow> Inl err
           | Inr cert \<Rightarrow> load_keys env ks (certs @ [cert]))"

text \<open>The keys \<open>RunServer\<close> uses. The append is to the configuration itself, which a pointer shares.\<close>

definition with_legacy_key :: "tls \<Rightarrow> tls" where
  "with_legacy_key t =
     (if t_PublicKey t \<noteq> [] \<or> t_PrivateKey t \<noteq> []
      then t\<lparr>t_Keys := t_Keys t @ [\<lparr>k_PublicKey = t_PublicKey t, k_PrivateKey = t_PrivateKey t\<rparr>]\<rparr> else t)"

text \<open>\<open>RunServer\<close> up to the start of the goroutine: the server, or the error, and the configuration
  afterwards.\<close>

definition prepare_server ::
  "'c server_env \<Rightarrow> service_config \<Rightarrow> (goerror + 'c http_server) \<times> service_config" where
  "prepare_server env cfg =
     (let s = new_server env cfg
      in case (hs_TLSConfig s, s_TLS cfg) of
           (Some tc, Some t) \<Rightarrow>
             (let t = with_legacy_key t; cfg = cfg\<lparr>s_TLS := Some t\<rparr>
              in if t_Keys t = [] then (Inl ErrPublicKey, cfg)
                 else case load_keys env (t_Keys t) (tc_Certificates tc) of
                        Inl err \<Rightarrow> (Inl err, cfg)
                      | Inr certs \<Rightarrow> (Inr (s\<lparr>hs_TLSConfig := Some (tc\<lparr>tc_Certificates := certs\<rparr>)\<rparr>), cfg))
         | _ \<Rightarrow> (Inr s, cfg))"

section \<open>The run of the server\<close>

datatype server_main =
    Selecting                        \<comment> \<open>in the \<open>select\<close>\<close>
  | ShuttingDown "duration option"   \<comment> \<open>in \<open>Shutdown\<close>, with the time it is given\<close>
  | Returned "goerror option"

datatype server_goroutine =
    Serving
  | Sending "goerror option"         \<comment> \<open>at \<open>done <-\<close>, which nothing buffers\<close>
  | Finished

record server_run =
  sr_main :: server_main
  sr_goroutine :: server_goroutine
  sr_ctx_done :: bool

definition server_started :: server_run where
  "server_started = \<lparr>sr_main = Selecting, sr_goroutine = Serving, sr_ctx_done = False\<rparr>"

definition shutdown_time :: "duration \<Rightarrow> duration option" where
  "shutdown_time d = (if sint d \<le> 0 then None else Some d)"

text \<open>The two calls of \<open>net/http\<close>: \<open>serve e\<close> says that \<open>ListenAndServe\<close> (or its TLS variant) may end with \<open>e\<close>,
  \<open>shutdown limit e\<close> that \<open>Shutdown\<close> may with a context that has that limit.\<close>

inductive server_step ::
  "(goerror option \<Rightarrow> bool) \<Rightarrow> (duration option \<Rightarrow> goerror option \<Rightarrow> bool) \<Rightarrow> service_config \<Rightarrow>
   server_run \<Rightarrow> server_run \<Rightarrow> bool" for serve shutdown cfg where
  ctx_ends: "server_step serve shutdown cfg r (r\<lparr>sr_ctx_done := True\<rparr>)"
| serve_ends: "sr_goroutine r = Serving \<Longrightarrow> serve e \<Longrightarrow>
    server_step serve shutdown cfg r (r\<lparr>sr_goroutine := Sending e\<rparr>)"
| receive: "sr_main r = Selecting \<Longrightarrow> sr_goroutine r = Sending e \<Longrightarrow>
    server_step serve shutdown cfg r (r\<lparr>sr_main := Returned e, sr_goroutine := Finished\<rparr>)"
| select_ctx: "sr_main r = Selecting \<Longrightarrow> sr_ctx_done r \<Longrightarrow>
    server_step serve shutdown cfg r (r\<lparr>sr_main := ShuttingDown (shutdown_time (s_MaxShutdownDuration cfg))\<rparr>)"
| shutdown_ends: "sr_main r = ShuttingDown d \<Longrightarrow> shutdown d e \<Longrightarrow>
    server_step serve shutdown cfg r (r\<lparr>sr_main := Returned e\<rparr>)"

section \<open>What the settings become\<close>

definition readable_files :: "'c server_env \<Rightarrow> string list \<Rightarrow> string list" where
  "readable_files env paths = concat (map (\<lambda>p. case sv_read_file env p of Inl _ \<Rightarrow> [] | Inr ca \<Rightarrow> [ca]) paths)"

lemma append_files_eq:
  "append_files env paths pool = pool\<lparr>cp_PEMs := cp_PEMs pool @ readable_files env paths\<rparr>"
  by (induction paths arbitrary: pool) (auto simp: readable_files_def append_pem_def split: sum.split)

lemma readable_files_append: "readable_files env (ps @ qs) = readable_files env ps @ readable_files env qs"
  by (simp add: readable_files_def)

lemma load_cert_pool_eq:
  "load_cert_pool env off paths =
     \<lparr>cp_System = (\<not> off \<and> sv_system_pool env = None), cp_PEMs = readable_files env paths\<rparr>"
  by (simp add: load_cert_pool_def append_files_eq Let_def)

text \<open>C29. The server speaks TLS exactly when there is a TLS section that is not disabled. It asks for
  client certificates exactly with mTLS, and then trusts the system's authorities unless they are
  switched off, those of the readable files listed, and the readable public keys of the listed key
  pairs (not that of the legacy pair). A version that is not one of the five names, the empty one
  included, is TLS 1.3, for the minimum and for the maximum; an empty list of curves or ciphers is the
  default one.\<close>

theorem tls_config_correct:
  "case parse_tls_config env cfg of
     None \<Rightarrow> (case cfg of None \<Rightarrow> True | Some c \<Rightarrow> t_IsDisabled c)
   | Some tc \<Rightarrow>
       (case cfg of
          None \<Rightarrow> False
        | Some c \<Rightarrow>
            \<not> t_IsDisabled c \<and> tc_RequireClientCert tc = t_EnableMTLS c \<and>
            tc_ClientCAs tc =
              (if t_EnableMTLS c
               then Some \<lparr>cp_System = (\<not> t_DisableSystemCaPool c \<and> sv_system_pool env = None),
                          cp_PEMs = readable_files env (t_CaCerts c @ map k_PublicKey (t_Keys c))\<rparr>
               else None) \<and>
            (if t_MinVersion c \<notin> fst ` set tls_versions then tc_MinVersion tc = VersionTLS13
             else (t_MinVersion c, tc_MinVersion tc) \<in> set tls_versions) \<and>
            (if t_MaxVersion c \<notin> fst ` set tls_versions then tc_MaxVersion tc = VersionTLS13
             else (t_MaxVersion c, tc_MaxVersion tc) \<in> set tls_versions) \<and>
            tc_CurvePreferences tc \<noteq> [] \<and> tc_CipherSuites tc \<noteq> [] \<and> tc_InsecureSkipVerify tc = False)"
proof (cases "parse_tls_config env cfg")
  case None
  then show ?thesis by (auto simp: parse_tls_config_def Let_def split: option.splits if_splits)
next
  case (Some tc)
  have version: "if v \<notin> fst ` set tls_versions then parse_tls_version v = VersionTLS13
      else (v, parse_tls_version v) \<in> set tls_versions" for v
  proof (cases "map_of tls_versions v")
    case None
    then have "v \<notin> fst ` set tls_versions" by (simp add: map_of_eq_None_iff)
    with None show ?thesis by (simp add: parse_tls_version_def)
  next
    case (Some x)
    then have "(v, x) \<in> set tls_versions" by (rule map_of_SomeD)
    with Some show ?thesis by (auto simp: parse_tls_version_def intro: rev_image_eqI)
  qed
  have lists: "parse_curve_ids cs \<noteq> []" "parse_cipher_suites cs \<noteq> []" for cs
    by (simp_all add: parse_curve_ids_def parse_cipher_suites_def default_curves_def default_cipher_suites_def)
  from Some obtain c where [simp]: "cfg = Some c" and "\<not> t_IsDisabled c"
    by (auto simp: parse_tls_config_def split: option.splits if_splits)
  with Some version [of "t_MinVersion c"] version [of "t_MaxVersion c"] lists show ?thesis
    by (auto simp: parse_tls_config_def Let_def load_cert_pool_eq append_files_eq readable_files_append
        split: if_splits)
qed

text \<open>A maximum below TLS 1.3 without a minimum leaves no version at all.\<close>

lemma max_version_alone:
  "t_IsDisabled c = False \<Longrightarrow> t_MinVersion c = [] \<Longrightarrow> t_MaxVersion c = ''TLS12'' \<Longrightarrow>
     \<exists>tc. parse_tls_config env (Some c) = Some tc \<and> tc_MaxVersion tc < tc_MinVersion tc"
  by (simp add: parse_tls_config_def Let_def parse_tls_version_def tls_versions_def VersionTLS12_def
      VersionTLS13_def)

text \<open>The first configuration decides the transport for the rest of the execution.\<close>

lemma default_transport_once:
  "init_http_default_transport env cfg' (init_http_default_transport env cfg once) =
     init_http_default_transport env cfg once"
  by (simp add: init_http_default_transport_def Let_def split: option.split)

section \<open>The certificates of the server\<close>

text \<open>What is wrong with a key pair.\<close>

definition key_problem :: "'c server_env \<Rightarrow> tls_key_pair \<Rightarrow> goerror option" where
  "key_problem env k =
     (if k_PublicKey k = [] then Some ErrPublicKey
      else if k_PrivateKey k = [] then Some ErrPrivateKey
      else case sv_load_key_pair env (k_PublicKey k) (k_PrivateKey k) of Inl err \<Rightarrow> Some err | Inr _ \<Rightarrow> None)"

definition key_certificate :: "'c server_env \<Rightarrow> tls_key_pair \<Rightarrow> 'c" where
  "key_certificate env k = projr (sv_load_key_pair env (k_PublicKey k) (k_PrivateKey k))"

lemma load_keys_step:
  "load_keys env (k # ks) certs =
     (case key_problem env k of Some e \<Rightarrow> Inl e | None \<Rightarrow> load_keys env ks (certs @ [key_certificate env k]))"
  by (simp add: key_problem_def key_certificate_def split: sum.split)

lemma load_keys_eq:
  "load_keys env ks certs =
     (case find (\<lambda>k. key_problem env k \<noteq> None) ks of
        Some k \<Rightarrow> Inl (the (key_problem env k))
      | None \<Rightarrow> Inr (certs @ map (key_certificate env) ks))"
proof (induction ks arbitrary: certs)
  case (Cons k ks)
  then show ?case by (cases "key_problem env k") (simp_all add: load_keys_step del: load_keys.simps split: option.split)
qed simp

text \<open>C28. Before it listens with TLS, \<open>RunServer\<close> loads the configured key pairs in order, the legacy pair
  last: it needs at least one and refuses to start at the first that is incomplete or cannot be loaded,
  with that error. The server then has the certificates in that order. Without TLS nothing is loaded.\<close>

theorem server_certificates:
  "case parse_tls_config env (s_TLS cfg) of
     None \<Rightarrow> fst (prepare_server env cfg) = Inr (new_server env cfg)
   | Some tc \<Rightarrow>
       (let t = the (s_TLS cfg);
            ks = t_Keys t @ (if t_PublicKey t = [] \<and> t_PrivateKey t = [] then []
                             else [\<lparr>k_PublicKey = t_PublicKey t, k_PrivateKey = t_PrivateKey t\<rparr>])
        in fst (prepare_server env cfg) =
             (if ks = [] then Inl ErrPublicKey
              else case find (\<lambda>k. key_problem env k \<noteq> None) ks of
                     Some k \<Rightarrow> Inl (the (key_problem env k))
                   | None \<Rightarrow> Inr ((new_server env cfg)
                       \<lparr>hs_TLSConfig := Some (tc\<lparr>tc_Certificates := map (key_certificate env) ks\<rparr>)\<rparr>)))"
proof (cases "parse_tls_config env (s_TLS cfg)")
  case None
  then show ?thesis by (simp add: prepare_server_def new_server_def Let_def)
next
  case (Some tc)
  then obtain t where t: "s_TLS cfg = Some t" and "tc_Certificates tc = []"
    by (auto simp: parse_tls_config_def Let_def split: option.splits if_splits)
  moreover have "t_Keys (with_legacy_key t) = t_Keys t @ (if t_PublicKey t = [] \<and> t_PrivateKey t = [] then []
      else [\<lparr>k_PublicKey = t_PublicKey t, k_PrivateKey = t_PrivateKey t\<rparr>])" for t
    by (simp add: with_legacy_key_def)
  ultimately show ?thesis
    using Some by (auto simp: prepare_server_def new_server_def Let_def load_keys_eq split: option.split)
qed

text \<open>Running the server again with the configuration it left loads the legacy pair once more.\<close>

lemma legacy_key_grows:
  "t_PublicKey t \<noteq> [] \<Longrightarrow> length (t_Keys (with_legacy_key (with_legacy_key t))) = length (t_Keys t) + 2"
  by (simp add: with_legacy_key_def)

section \<open>How a run ends\<close>

definition server_inv ::
  "(goerror option \<Rightarrow> bool) \<Rightarrow> (duration option \<Rightarrow> goerror option \<Rightarrow> bool) \<Rightarrow> service_config \<Rightarrow> server_run \<Rightarrow> bool" where
  "server_inv serve shutdown cfg r \<longleftrightarrow>
     (\<forall>e. sr_goroutine r = Sending e \<longrightarrow> serve e) \<and>
     (case sr_main r of
        Selecting \<Rightarrow> sr_goroutine r \<noteq> Finished
      | ShuttingDown d \<Rightarrow>
          sr_ctx_done r \<and> sr_goroutine r \<noteq> Finished \<and> d = shutdown_time (s_MaxShutdownDuration cfg)
      | Returned e \<Rightarrow>
          if sr_goroutine r = Finished then serve e
          else sr_ctx_done r \<and> shutdown (shutdown_time (s_MaxShutdownDuration cfg)) e)"

lemma server_step_inv:
  "server_step serve shutdown cfg r r' \<Longrightarrow> server_inv serve shutdown cfg r \<Longrightarrow> server_inv serve shutdown cfg r'"
  by (induction rule: server_step.induct) (auto simp: server_inv_def split: server_main.splits if_splits)

lemma server_reaches_inv:
  "(server_step serve shutdown cfg)\<^sup>*\<^sup>* server_started r \<Longrightarrow> server_inv serve shutdown cfg r"
proof (induction rule: rtranclp_induct)
  case base
  show ?case by (simp add: server_inv_def server_started_def)
qed (rule server_step_inv)

text \<open>Once the function has left the \<open>select\<close>, nobody receives from the channel.\<close>

lemma abandoned_step:
  "server_step serve shutdown cfg r r' \<Longrightarrow> sr_main r \<noteq> Selecting \<Longrightarrow> sr_goroutine r \<noteq> Finished \<Longrightarrow>
     sr_main r' \<noteq> Selecting \<and> sr_goroutine r' \<noteq> Finished"
  by (induction rule: server_step.induct) auto

lemma abandoned:
  "(server_step serve shutdown cfg)\<^sup>*\<^sup>* r r' \<Longrightarrow> sr_main r \<noteq> Selecting \<Longrightarrow> sr_goroutine r \<noteq> Finished \<Longrightarrow>
     sr_goroutine r' \<noteq> Finished"
proof -
  assume "(server_step serve shutdown cfg)\<^sup>*\<^sup>* r r'" "sr_main r \<noteq> Selecting" "sr_goroutine r \<noteq> Finished"
  then have "sr_main r' \<noteq> Selecting \<and> sr_goroutine r' \<noteq> Finished"
    by (induction rule: rtranclp_induct) (auto dest: abandoned_step)
  then show ?thesis by blast
qed

text \<open>What the function in the \<open>select\<close> can do.\<close>

lemma selecting_returns:
  assumes "sr_main r = Selecting"
  shows "(\<exists>r'. server_step serve shutdown cfg r r' \<and> sr_main r' = Returned e) \<longleftrightarrow> sr_goroutine r = Sending e"
proof
  assume "\<exists>r'. server_step serve shutdown cfg r r' \<and> sr_main r' = Returned e"
  then obtain r' where "server_step serve shutdown cfg r r'" "sr_main r' = Returned e" by blast
  then show "sr_goroutine r = Sending e" using assms by (cases rule: server_step.cases) auto
next
  assume "sr_goroutine r = Sending e"
  from receive [OF assms this, of serve shutdown cfg]
  show "\<exists>r'. server_step serve shutdown cfg r r' \<and> sr_main r' = Returned e" by force
qed

lemma selecting_shuts_down:
  assumes "sr_main r = Selecting"
  shows "(\<exists>r'. server_step serve shutdown cfg r r' \<and> sr_main r' = ShuttingDown d) \<longleftrightarrow>
    sr_ctx_done r \<and> d = shutdown_time (s_MaxShutdownDuration cfg)"
proof
  assume "\<exists>r'. server_step serve shutdown cfg r r' \<and> sr_main r' = ShuttingDown d"
  then obtain r' where "server_step serve shutdown cfg r r'" "sr_main r' = ShuttingDown d" by blast
  then show "sr_ctx_done r \<and> d = shutdown_time (s_MaxShutdownDuration cfg)"
    using assms by (cases rule: server_step.cases) auto
next
  assume "sr_ctx_done r \<and> d = shutdown_time (s_MaxShutdownDuration cfg)"
  with select_ctx [OF assms, of serve shutdown cfg]
  show "\<exists>r'. server_step serve shutdown cfg r r' \<and> sr_main r' = ShuttingDown d" by force
qed

text \<open>C27. How \<open>RunServer\<close> ends. From the \<open>select\<close> it can return the error the server has just ended with, and
  no other, and it can start to shut down exactly when the context is done, with
  \<open>MaxShutdownDuration\<close> as the limit, or none when that is not positive. It returns either what the
  server ended with, the serving goroutine being finished, or, the context being done, what \<open>Shutdown\<close>
  returned under that limit; in that case the goroutine never finishes, since nobody receives its
  error.\<close>

theorem server_run_ends:
  assumes "(server_step serve shutdown cfg)\<^sup>*\<^sup>* server_started r"
  shows "let limit = (if sint (s_MaxShutdownDuration cfg) \<le> 0 then None else Some (s_MaxShutdownDuration cfg))
     in case sr_main r of
       Selecting \<Rightarrow>
         (\<forall>e. (\<exists>r'. server_step serve shutdown cfg r r' \<and> sr_main r' = Returned e) \<longleftrightarrow> sr_goroutine r = Sending e) \<and>
         (\<forall>d. (\<exists>r'. server_step serve shutdown cfg r r' \<and> sr_main r' = ShuttingDown d) \<longleftrightarrow> sr_ctx_done r \<and> d = limit)
     | ShuttingDown d \<Rightarrow>
         sr_ctx_done r \<and> d = limit \<and>
         (\<forall>e. (\<exists>r'. server_step serve shutdown cfg r r' \<and> sr_main r' = Returned e) \<longleftrightarrow> shutdown limit e)
     | Returned e \<Rightarrow>
         if sr_goroutine r = Finished then serve e
         else sr_ctx_done r \<and> shutdown limit e \<and>
           \<not> (\<exists>r'. (server_step serve shutdown cfg)\<^sup>*\<^sup>* r r' \<and> sr_goroutine r' = Finished)"
proof -
  have limit: "(if sint (s_MaxShutdownDuration cfg) \<le> 0 then None else Some (s_MaxShutdownDuration cfg)) =
      shutdown_time (s_MaxShutdownDuration cfg)" by (simp add: shutdown_time_def)
  note inv = server_reaches_inv [OF assms]
  show ?thesis
    unfolding Let_def limit
  proof (cases "sr_main r", goal_cases)
    case 1
    then show ?case by (simp add: selecting_returns selecting_shuts_down)
  next
    case (2 d)
    have "(\<exists>r'. server_step serve shutdown cfg r r' \<and> sr_main r' = Returned e) \<longleftrightarrow> shutdown d e" for e
      using 2 shutdown_ends [OF 2, of shutdown e serve cfg] by (auto elim!: server_step.cases)
    with 2 inv show ?case by (simp add: server_inv_def)
  next
    case (3 e)
    with inv abandoned [of serve shutdown cfg r] show ?case by (auto simp: server_inv_def)
  qed
qed

text \<open>A run that a cancelled context ends.\<close>

definition stopped_run :: server_run where
  "stopped_run = \<lparr>sr_main = Returned None, sr_goroutine = Sending (Some (ErrMsg ''http: Server closed'')),
     sr_ctx_done = True\<rparr>"

definition sample_serve :: "goerror option \<Rightarrow> bool" where
  "sample_serve e = (e = Some (ErrMsg ''http: Server closed''))"

definition sample_shutdown :: "duration option \<Rightarrow> goerror option \<Rightarrow> bool" where
  "sample_shutdown limit e = (limit = None \<and> e = None)"

abbreviation sample_step where
  "sample_step \<equiv> server_step sample_serve sample_shutdown service_zero"

lemma stopped_run_reached: "sample_step\<^sup>*\<^sup>* server_started stopped_run"
proof -
  let ?a = "server_started\<lparr>sr_ctx_done := True\<rparr>"
  let ?b = "?a\<lparr>sr_main := ShuttingDown (shutdown_time (s_MaxShutdownDuration service_zero))\<rparr>"
  let ?c = "?b\<lparr>sr_goroutine := Sending (Some (ErrMsg ''http: Server closed''))\<rparr>"
  have none: "shutdown_time (s_MaxShutdownDuration service_zero) = None"
    by (simp add: shutdown_time_def service_zero_def)
  have "sample_step\<^sup>*\<^sup>* server_started ?a" by (rule r_into_rtranclp) (rule ctx_ends)
  also have "sample_step ?a ?b" by (rule select_ctx) (simp_all add: server_started_def)
  also (rtranclp.rtrancl_into_rtrancl) have "sample_step ?b ?c"
    by (rule serve_ends) (simp_all add: server_started_def sample_serve_def)
  also (rtranclp.rtrancl_into_rtrancl) have "sample_step ?c (?c\<lparr>sr_main := Returned None\<rparr>)"
    by (rule shutdown_ends [where d = None]) (simp_all add: none sample_shutdown_def)
  finally (rtranclp.rtrancl_into_rtrancl) show ?thesis by (simp add: server_started_def stopped_run_def)
qed

theorem server_run_ends_witness:
  "sample_shutdown None None \<and> \<not> (\<exists>r'. sample_step\<^sup>*\<^sup>* stopped_run r' \<and> sr_goroutine r' = Finished)"
  using server_run_ends [OF stopped_run_reached] by (simp add: stopped_run_def service_zero_def Let_def)

end
