(* ===== verification/Plugins.thy ===== *)
theory Plugins
  imports HttpProxy Registers
begin

text \<open>
  Plugins: finding the files (\<open>src/plugin/plugin.go\<close>), loading them and what they register
  (\<open>src/proxy/plugin/modifier.go\<close>, \<open>src/transport/http/server/plugin/plugin.go\<close>,
  \<open>src/transport/http/client/plugin/plugin.go\<close>), and the server and client plugins at work
  (\<open>src/transport/http/server/plugin/server.go\<close>, \<open>src/transport/http/client/plugin/executor.go\<close>). A
  plugin is foreign code: a file is what opening it shows. The three loaders are one function, which
  takes the text of the wrong-type error and what a registration does to a register.
\<close>

section \<open>Finding plugin files\<close>

text \<open>\<open>Scan\<close>: a directory entry is its name and whether it is a directory; \<open>join\<close> is
  \<open>filepath.Join\<close>.\<close>

definition scan ::
  "(string \<Rightarrow> goerror + (string \<times> bool) list) \<Rightarrow> (string \<Rightarrow> string \<Rightarrow> string) \<Rightarrow> string \<Rightarrow> string \<Rightarrow> goerror + string list" where
  "scan read_dir join folder pattern =
     (case read_dir folder of
        Inl err \<Rightarrow> Inl err
      | Inr files \<Rightarrow>
          Inr (map (\<lambda>(name, dir). join folder name)
            (filter (\<lambda>(name, dir). \<not> dir \<and> contains_sub name pattern) files)))"

section \<open>Registers of plugins\<close>

text \<open>Factories are stored untyped: \<open>None\<close> is a value of another type than the one asserted.\<close>

definition requestNamespace :: string where
  "requestNamespace = ''github.com/pucora/pucora/proxy/plugin/request''"

definition responseNamespace :: string where
  "responseNamespace = ''github.com/pucora/pucora/proxy/plugin/response''"

type_synonym 'f plugin_register = "'f option namespaced"

definition get_modifier :: "string \<Rightarrow> string \<Rightarrow> 'f plugin_register \<Rightarrow> 'f option" where
  "get_modifier namespace name reg =
     (case namespaced_get reg namespace of
        None \<Rightarrow> None
      | Some r \<Rightarrow> (case untyped_get r name of None \<Rightarrow> None | Some m \<Rightarrow> m))"

definition get_request_modifier :: "string \<Rightarrow> 'f plugin_register \<Rightarrow> 'f option" where
  "get_request_modifier name reg = get_modifier requestNamespace name reg"

definition get_response_modifier :: "string \<Rightarrow> 'f plugin_register \<Rightarrow> 'f option" where
  "get_response_modifier name reg = get_modifier responseNamespace name reg"

record 'f modifier_registration =
  mr_name :: string
  mr_factory :: 'f
  mr_request :: bool
  mr_response :: bool

definition register_modifier :: "'f modifier_registration \<Rightarrow> 'f plugin_register \<Rightarrow> 'f plugin_register" where
  "register_modifier m reg =
     (let reg = (if mr_request m then namespaced_register requestNamespace (mr_name m) (Some (mr_factory m)) reg else reg)
      in if mr_response m then namespaced_register responseNamespace (mr_name m) (Some (mr_factory m)) reg else reg)"

definition server_Namespace :: string where
  "server_Namespace = ''github_com/pucora/pucora/transport/http/server/handler''"

definition client_Namespace :: string where
  "client_Namespace = ''github.com/pucora/pucora/transport/http/client/executor''"

definition register_handler :: "string \<times> 'f \<Rightarrow> 'f plugin_register \<Rightarrow> 'f plugin_register" where
  "register_handler h reg = namespaced_register server_Namespace (fst h) (Some (snd h)) reg"

definition register_client :: "string \<times> 'f \<Rightarrow> 'f plugin_register \<Rightarrow> 'f plugin_register" where
  "register_client h reg = namespaced_register client_Namespace (fst h) (Some (snd h)) reg"

section \<open>Loading\<close>

text \<open>What opening a file shows: no plugin, no symbol of the name, a symbol of another type, or a
  registerer, which makes some registrations and may then panic (as its other hooks may before).\<close>

datatype 'm plugin_file =
    CannotOpen goerror
  | NoSymbol goerror
  | NotRegisterer
  | Registerer "'m list" "goerror option"

text \<open>\<open>open\<close>, with the panic recovered as an error. What was registered before stays.\<close>

definition open_plugin ::
  "string \<Rightarrow> ('m \<Rightarrow> 'r \<Rightarrow> 'r) \<Rightarrow> (string \<Rightarrow> 'm plugin_file) \<Rightarrow> string \<Rightarrow> 'r \<Rightarrow> goerror option \<times> 'r" where
  "open_plugin unknown put opener name reg =
     (case opener name of
        CannotOpen e \<Rightarrow> (Some e, reg)
      | NoSymbol e \<Rightarrow> (Some e, reg)
      | NotRegisterer \<Rightarrow> (Some (ErrMsg unknown), reg)
      | Registerer ms panic \<Rightarrow> (panic, fold put ms reg))"

definition plugin_error :: "nat \<Rightarrow> string \<Rightarrow> goerror \<Rightarrow> goerror" where
  "plugin_error k name e = ErrMsg (''plugin #'' @ show_nat k @ '' ('' @ name @ ''): '' @ error_text e)"

fun load_loop ::
  "string \<Rightarrow> ('m \<Rightarrow> 'r \<Rightarrow> 'r) \<Rightarrow> (string \<Rightarrow> 'm plugin_file) \<Rightarrow> nat \<Rightarrow> string list \<Rightarrow> nat \<Rightarrow> goerror list \<Rightarrow> 'r \<Rightarrow>
   (nat \<times> goerror list) \<times> 'r" where
  "load_loop unknown put opener k [] loaded errs reg = ((loaded, errs), reg)"
| "load_loop unknown put opener k (p # ps) loaded errs reg =
     (case open_plugin unknown put opener p reg of
        (Some e, reg') \<Rightarrow> load_loop unknown put opener (Suc k) ps loaded (errs @ [plugin_error k p e]) reg'
      | (None, reg') \<Rightarrow> load_loop unknown put opener (Suc k) ps (loaded + 1) errs reg')"

text \<open>The error of a load is the list of the errors, which its text counts and joins.\<close>

definition loader_error_text :: "goerror list \<Rightarrow> string" where
  "loader_error_text errs =
     ''plugin loader found '' @ show_nat (length errs) @ '' error(s): '' @ [CHR 0x0A] @
     join_with [CHR 0x0A] (map error_text errs)"

definition load_plugins ::
  "string \<Rightarrow> ('m \<Rightarrow> 'r \<Rightarrow> 'r) \<Rightarrow> (string \<Rightarrow> 'm plugin_file) \<Rightarrow> string list \<Rightarrow> 'r \<Rightarrow>
   (nat \<times> goerror list option) \<times> 'r" where
  "load_plugins unknown put opener plugins reg =
     (case load_loop unknown put opener 0 plugins 0 [] reg of
        ((loaded, errs), reg') \<Rightarrow> ((loaded, if length errs > 0 then Some errs else None), reg'))"

text \<open>The three loaders; a folder that cannot be read loads nothing.\<close>

definition load_from ::
  "string \<Rightarrow> ('m \<Rightarrow> 'r \<Rightarrow> 'r) \<Rightarrow> (string \<Rightarrow> goerror + (string \<times> bool) list) \<Rightarrow> (string \<Rightarrow> string \<Rightarrow> string) \<Rightarrow>
   (string \<Rightarrow> 'm plugin_file) \<Rightarrow> string \<Rightarrow> string \<Rightarrow> 'r \<Rightarrow> (nat \<times> goerror list option) \<times> 'r" where
  "load_from unknown put read_dir join opener path pattern reg =
     (case scan read_dir join path pattern of
        Inl err \<Rightarrow> ((0, Some [err]), reg)
      | Inr plugins \<Rightarrow> load_plugins unknown put opener plugins reg)"

definition load_modifiers ::
  "(string \<Rightarrow> goerror + (string \<times> bool) list) \<Rightarrow> (string \<Rightarrow> string \<Rightarrow> string) \<Rightarrow>
   (string \<Rightarrow> 'f modifier_registration plugin_file) \<Rightarrow> string \<Rightarrow> string \<Rightarrow> 'f plugin_register \<Rightarrow>
   (nat \<times> goerror list option) \<times> 'f plugin_register" where
  "load_modifiers = load_from ''modifier plugin loader: unknown type'' register_modifier"

text \<open>Server and client plugins have the same three functions, with their own registrations.\<close>

definition open_handlers ::
  "(string \<Rightarrow> (string \<times> 'f) plugin_file) \<Rightarrow> string \<Rightarrow> 'f plugin_register \<Rightarrow> goerror option \<times> 'f plugin_register" where
  "open_handlers = open_plugin ''http-server-handler plugin loader: unknown type'' register_handler"

definition load_handler_files ::
  "(string \<Rightarrow> (string \<times> 'f) plugin_file) \<Rightarrow> string list \<Rightarrow> 'f plugin_register \<Rightarrow>
   (nat \<times> goerror list option) \<times> 'f plugin_register" where
  "load_handler_files = load_plugins ''http-server-handler plugin loader: unknown type'' register_handler"

definition load_handlers ::
  "(string \<Rightarrow> goerror + (string \<times> bool) list) \<Rightarrow> (string \<Rightarrow> string \<Rightarrow> string) \<Rightarrow>
   (string \<Rightarrow> (string \<times> 'f) plugin_file) \<Rightarrow> string \<Rightarrow> string \<Rightarrow> 'f plugin_register \<Rightarrow>
   (nat \<times> goerror list option) \<times> 'f plugin_register" where
  "load_handlers read_dir join opener path pattern reg =
     (case scan read_dir join path pattern of
        Inl err \<Rightarrow> ((0, Some [err]), reg)
      | Inr plugins \<Rightarrow> load_handler_files opener plugins reg)"

definition open_clients ::
  "(string \<Rightarrow> (string \<times> 'f) plugin_file) \<Rightarrow> string \<Rightarrow> 'f plugin_register \<Rightarrow> goerror option \<times> 'f plugin_register" where
  "open_clients = open_plugin ''http-request-executor plugin loader: unknown type'' register_client"

definition load_client_files ::
  "(string \<Rightarrow> (string \<times> 'f) plugin_file) \<Rightarrow> string list \<Rightarrow> 'f plugin_register \<Rightarrow>
   (nat \<times> goerror list option) \<times> 'f plugin_register" where
  "load_client_files = load_plugins ''http-request-executor plugin loader: unknown type'' register_client"

definition load_clients ::
  "(string \<Rightarrow> goerror + (string \<times> bool) list) \<Rightarrow> (string \<Rightarrow> string \<Rightarrow> string) \<Rightarrow>
   (string \<Rightarrow> (string \<times> 'f) plugin_file) \<Rightarrow> string \<Rightarrow> string \<Rightarrow> 'f plugin_register \<Rightarrow>
   (nat \<times> goerror list option) \<times> 'f plugin_register" where
  "load_clients read_dir join opener path pattern reg =
     (case scan read_dir join path pattern of
        Inl err \<Rightarrow> ((0, Some [err]), reg)
      | Inr plugins \<Rightarrow> load_client_files opener plugins reg)"

section \<open>Plugins at work\<close>

definition string_names :: "gval list \<Rightarrow> string list" where
  "string_names vs = concat (map (\<lambda>v. case v of VString s \<Rightarrow> [s] | _ \<Rightarrow> []) vs)"

text \<open>\<open>New\<close> of the server plugins: the handler the server is run with. A factory gets the configuration
  and the handler so far.\<close>

fun inject_handlers ::
  "(gobj \<Rightarrow> 'h \<Rightarrow> goerror + 'h) option untyped \<Rightarrow> gobj \<Rightarrow> string list \<Rightarrow> 'h \<Rightarrow> 'h" where
  "inject_handlers r extra [] handler = handler"
| "inject_handlers r extra (name # fifo) handler =
     (case untyped_get r name of
        Some (Some hf) \<Rightarrow>
          (case hf extra handler of
             Inl err \<Rightarrow> inject_handlers r extra fifo handler
           | Inr wrapper \<Rightarrow> inject_handlers r extra fifo wrapper)
      | _ \<Rightarrow> inject_handlers r extra fifo handler)"

definition server_plugin_handler ::
  "(gobj \<Rightarrow> 'h \<Rightarrow> goerror + 'h) plugin_register \<Rightarrow> extra_config \<Rightarrow> 'h \<Rightarrow> 'h" where
  "server_plugin_handler reg cfg handler =
     (case ec_map cfg server_Namespace of
        None \<Rightarrow> handler
      | Some extra \<Rightarrow>
          (case namespaced_get reg server_Namespace of
             None \<Rightarrow> handler
           | Some r \<Rightarrow>
               (case map_of extra ''name'' of
                  Some (VString name) \<Rightarrow> inject_handlers r extra [name] handler
                | Some (VList fifoRaw) \<Rightarrow> inject_handlers r extra (string_names fifoRaw) handler
                | _ \<Rightarrow> handler)))"

text \<open>\<open>HTTPRequestExecutorWithContext\<close>: a plugin's handler, recorded, in place of the next executor. A
  handler is here what the recorder shows of its answer.\<close>

definition http_request_executor ::
  "(gobj \<Rightarrow> goerror + ('w \<Rightarrow> http_request \<Rightarrow> http_response \<times> 'w)) plugin_register \<Rightarrow>
   (backend \<Rightarrow> 'w executor) \<Rightarrow> backend \<Rightarrow> 'w executor" where
  "http_request_executor reg next_executor cfg =
     (case ec_map (b_ExtraConfig cfg) client_Namespace of
        None \<Rightarrow> next_executor cfg
      | Some extra \<Rightarrow>
          (case namespaced_get reg client_Namespace of
             None \<Rightarrow> next_executor cfg
           | Some r \<Rightarrow>
               (case ec_string extra ''name'' of
                  None \<Rightarrow> next_executor cfg
                | Some name \<Rightarrow>
                    (case untyped_get r name of
                       Some (Some hf) \<Rightarrow>
                         (case hf extra of
                            Inl err \<Rightarrow> next_executor cfg
                          | Inr serve \<Rightarrow> (\<lambda>w req. case serve w req of (resp, w') \<Rightarrow> (Inr resp, w')))
                     | _ \<Rightarrow> next_executor cfg))))"

section \<open>What a load leaves\<close>

fun file_error :: "string \<Rightarrow> 'm plugin_file \<Rightarrow> goerror option" where
  "file_error unknown (CannotOpen e) = Some e"
| "file_error unknown (NoSymbol e) = Some e"
| "file_error unknown NotRegisterer = Some (ErrMsg unknown)"
| "file_error unknown (Registerer ms panic) = panic"

fun file_registrations :: "'m plugin_file \<Rightarrow> 'm list" where
  "file_registrations (Registerer ms panic) = ms"
| "file_registrations _ = []"

lemma open_plugin_eq:
  "open_plugin unknown put opener name reg =
     (file_error unknown (opener name), fold put (file_registrations (opener name)) reg)"
  by (simp add: open_plugin_def split: plugin_file.split)

text \<open>The errors of the files, each with its place and name.\<close>

definition load_errors :: "string \<Rightarrow> (string \<Rightarrow> 'm plugin_file) \<Rightarrow> nat \<Rightarrow> string list \<Rightarrow> goerror list" where
  "load_errors unknown opener k ps =
     concat (map (\<lambda>(i, p). case file_error unknown (opener p) of None \<Rightarrow> [] | Some e \<Rightarrow> [plugin_error i p e])
       (zip [k..<k + length ps] ps))"

lemma load_errors_Cons:
  "load_errors unknown opener k (p # ps) =
     (case file_error unknown (opener p) of None \<Rightarrow> [] | Some e \<Rightarrow> [plugin_error k p e]) @
     load_errors unknown opener (Suc k) ps"
  by (simp add: load_errors_def upt_conv_Cons del: upt_Suc)

lemma load_loop_eq:
  "load_loop unknown put opener k ps loaded errs reg =
     ((loaded + length (filter (\<lambda>p. file_error unknown (opener p) = None) ps),
       errs @ load_errors unknown opener k ps),
      fold put (concat (map (file_registrations \<circ> opener) ps)) reg)"
proof (induction ps arbitrary: k loaded errs reg)
  case Nil
  show ?case by (simp add: load_errors_def)
next
  case (Cons p ps)
  then show ?case by (simp add: open_plugin_eq load_errors_Cons split: option.split)
qed

lemma load_errors_Nil_iff:
  "load_errors unknown opener k ps = [] \<longleftrightarrow> list_all (\<lambda>p. file_error unknown (opener p) = None) ps"
  by (induction ps arbitrary: k) (auto simp: load_errors_Cons load_errors_def [of _ _ _ "[]"] split: option.split)

lemma get_modifier_find:
  "get_modifier ns name reg = (case namespaced_find reg (ns, name) of None \<Rightarrow> None | Some m \<Rightarrow> m)"
  by (simp add: get_modifier_def namespaced_find_def split: option.split)

lemma modifier_namespaces_differ: "requestNamespace \<noteq> responseNamespace"
  by (simp add: requestNamespace_def responseNamespace_def)

lemma find_register_modifier:
  "namespaced_find (register_modifier m reg) k =
     (if mr_request m \<and> k = (requestNamespace, mr_name m) \<or> mr_response m \<and> k = (responseNamespace, mr_name m)
      then Some (Some (mr_factory m)) else namespaced_find reg k)"
  using namespaced.look_put [of "(requestNamespace, mr_name m)" "Some (mr_factory m)"]
    namespaced.look_put [of "(responseNamespace, mr_name m)" "Some (mr_factory m)"]
  by (auto simp: register_modifier_def Let_def)

lemma get_register_modifier:
  "get_request_modifier name (register_modifier m reg) =
     (if mr_request m \<and> mr_name m = name then Some (mr_factory m) else get_request_modifier name reg)"
  "get_response_modifier name (register_modifier m reg) =
     (if mr_response m \<and> mr_name m = name then Some (mr_factory m) else get_response_modifier name reg)"
  using modifier_namespaces_differ
  by (auto simp: get_request_modifier_def get_response_modifier_def get_modifier_find find_register_modifier)

text \<open>Which registration a later lookup sees: the last one for the name, else what was there before.\<close>

definition last_factory :: "('f modifier_registration \<Rightarrow> bool) \<Rightarrow> string \<Rightarrow> 'f modifier_registration list \<Rightarrow> 'f option" where
  "last_factory applies name ms =
     map_option mr_factory (find (\<lambda>m. applies m \<and> mr_name m = name) (rev ms))"

lemma find_append: "find P (xs @ ys) = (case find P xs of None \<Rightarrow> find P ys | Some x \<Rightarrow> Some x)"
  by (induction xs) auto

lemma last_factory_Cons:
  "last_factory applies name (m # ms) =
     (case last_factory applies name ms of
        Some f \<Rightarrow> Some f
      | None \<Rightarrow> if applies m \<and> mr_name m = name then Some (mr_factory m) else None)"
  by (simp add: last_factory_def find_append split: option.split)

lemma registered_modifiers:
  "get_request_modifier name (fold register_modifier ms reg) =
     (case last_factory mr_request name ms of Some f \<Rightarrow> Some f | None \<Rightarrow> get_request_modifier name reg)"
  "get_response_modifier name (fold register_modifier ms reg) =
     (case last_factory mr_response name ms of Some f \<Rightarrow> Some f | None \<Rightarrow> get_response_modifier name reg)"
proof (induction ms arbitrary: reg)
  case Nil
  { case 1 show ?case by (simp add: last_factory_def) }
  { case 2 show ?case by (simp add: last_factory_def) }
next
  case (Cons m ms)
  { case 1 show ?case by (simp add: Cons.IH(1) last_factory_Cons get_register_modifier split: option.split) }
  { case 2 show ?case by (simp add: Cons.IH(2) last_factory_Cons get_register_modifier split: option.split) }
qed

text \<open>C30. Loading a folder of modifier plugins. The number is that of the files that load; the errors are those
  of the files that do not, in order and each with its place and name, and there is none exactly when
  all load. Every registration made on the way counts, also those of a file that panicked later: a name
  then stands for the last factory registered under it for requests (for responses), and any other
  name for what it stood for before.\<close>

theorem plugin_load_correct:
  "case load_modifiers read_dir join opener path pattern reg of
     ((loaded, errs), reg') \<Rightarrow>
       (case scan read_dir join path pattern of
          Inl err \<Rightarrow> loaded = 0 \<and> errs = Some [err] \<and> reg' = reg
        | Inr files \<Rightarrow>
            (let problem = (\<lambda>p. file_error ''modifier plugin loader: unknown type'' (opener p));
                 ms = concat (map (file_registrations \<circ> opener) files)
             in loaded = length (filter (\<lambda>p. problem p = None) files) \<and>
                errs = (if list_all (\<lambda>p. problem p = None) files then None
                        else Some (load_errors ''modifier plugin loader: unknown type'' opener 0 files)) \<and>
                get_request_modifier name reg' =
                  (case last_factory mr_request name ms of
                     Some f \<Rightarrow> Some f | None \<Rightarrow> get_request_modifier name reg) \<and>
                get_response_modifier name reg' =
                  (case last_factory mr_response name ms of
                     Some f \<Rightarrow> Some f | None \<Rightarrow> get_response_modifier name reg)))"
  by (simp add: load_modifiers_def load_from_def load_plugins_def load_loop_eq registered_modifiers
      load_errors_Nil_iff Let_def split: sum.split)

text \<open>Server plugins: the factories of the list are applied in order, each to the handler of those before
  it, and a name that is not registered, or a factory that fails, leaves the handler as it is.\<close>

lemma inject_handlers_append:
  "inject_handlers r extra (ns @ ms) h = inject_handlers r extra ms (inject_handlers r extra ns h)"
  by (induction ns arbitrary: h) (auto split: option.split sum.split)

text \<open>A modifier registered for requests and responses modifies requests only: the middleware looks a name
  up among the response modifiers when there is no request modifier of the name.\<close>

lemma both_sides_only_request:
  "reqs name = Some mf \<Longrightarrow> select_modifiers reqs resps cfg (VString name # ps) =
     (case select_modifiers reqs resps cfg ps of
        (as, bs) \<Rightarrow> (case mf cfg of None \<Rightarrow> as | Some fn \<Rightarrow> fn # as, bs))"
  by (simp split: prod.split option.split)

end
