(* ===== verification/UrlQuery.thy ===== *)
theory UrlQuery
  imports Middleware GinEngine
begin

text \<open>
  Query strings on the way to a backend: what the load balancer writes into the URL
  (\<open>src/proxy/balancing.go\<close>) is what a server reads from it. Reading is \<open>url.ParseQuery\<close>, as
  \<open>net/http\<close> does it for every server, the routers of this gateway among them.
\<close>

section \<open>Reading a query string\<close>

fun query_unescape :: "string \<Rightarrow> string option" where
  "query_unescape [] = Some []"
| "query_unescape (c # s) =
     (if c = CHR ''%'' then
        (case s of
           a # b # s' \<Rightarrow>
             (case (hex_value a, hex_value b) of
                (Some i, Some j) \<Rightarrow> map_option ((#) (char_of (16 * i + j))) (query_unescape s')
              | _ \<Rightarrow> None)
         | _ \<Rightarrow> None)
      else map_option ((#) (if c = CHR ''+'' then CHR '' '' else c)) (query_unescape s))"

text \<open>\<open>Values[key]\<close>: the values of a key, none when it is absent.\<close>

definition query_get :: "string list gomap \<Rightarrow> string \<Rightarrow> string list" where
  "query_get m k = (case map_of m k of None \<Rightarrow> [] | Some vs \<Rightarrow> vs)"

text \<open>A piece between ampersands; pieces with a semicolon or a broken escape are skipped.\<close>

definition parse_piece :: "string \<Rightarrow> (string \<times> string) option" where
  "parse_piece p =
     (if p = [] \<or> CHR '';'' \<in> set p then None
      else case (query_unescape (takeWhile ((\<noteq>) (CHR ''='')) p),
                 query_unescape (drop 1 (dropWhile ((\<noteq>) (CHR ''='')) p))) of
             (Some k, Some v) \<Rightarrow> Some (k, v)
           | _ \<Rightarrow> None)"

definition add_piece :: "string list gomap \<Rightarrow> string \<Rightarrow> string list gomap" where
  "add_piece m p =
     (case parse_piece p of
        None \<Rightarrow> m
      | Some (k, v) \<Rightarrow> AList.update k (query_get m k @ [v]) m)"

definition parse_query :: "string \<Rightarrow> string list gomap" where
  "parse_query s = foldl add_piece [] (split_on CHR ''&'' s)"

section \<open>Pieces\<close>

definition piece_values :: "string \<Rightarrow> string \<Rightarrow> string list" where
  "piece_values k p = (case parse_piece p of None \<Rightarrow> [] | Some (a, v) \<Rightarrow> if a = k then [v] else [])"

lemma query_get_foldl:
  "query_get (foldl add_piece m ps) k = query_get m k @ concat (map (piece_values k) ps)"
proof (induction ps arbitrary: m)
  case (Cons p ps)
  have "query_get (add_piece m p) k = query_get m k @ piece_values k p"
    by (auto simp: add_piece_def piece_values_def query_get_def gomap_simps split: option.split)
  with Cons show ?case by simp
qed simp

lemma query_get_parse: "query_get (parse_query s) k = concat (map (piece_values k) (split_on CHR ''&'' s))"
  by (simp add: parse_query_def query_get_foldl) (simp add: query_get_def)

lemma split_on_append: "split_on c (s @ c # t) = split_on c s @ split_on c t"
  by (induction s) (auto split: list.split)

lemma split_on_join:
  "list_all (\<lambda>p. c \<notin> set p) ps \<Longrightarrow> split_on c (join_with [c] ps) = (if ps = [] then [[]] else ps)"
  by (induction "[c]" ps rule: join_with.induct) (simp_all add: split_on_append gostr_simps)

lemma piece_values_empty [simp]: "piece_values k [] = []"
  by (simp add: piece_values_def parse_piece_def)

section \<open>Escaping and back\<close>

lemma hex_digit_value: "n < 16 \<Longrightarrow> hex_value (hex_digit n) = Some n"
proof -
  have "\<forall>n \<in> set [0..<16]. hex_value (hex_digit n) = Some n" by code_simp
  then show "n < 16 \<Longrightarrow> hex_value (hex_digit n) = Some n" by simp
qed

lemma special_not_unreserved:
  "\<not> unreserved_char (CHR ''%'')" "\<not> unreserved_char (CHR ''+'')" "\<not> unreserved_char (CHR ''&'')"
  "\<not> unreserved_char (CHR ''='')" "\<not> unreserved_char (CHR '';'')"
  by (simp_all add: unreserved_char_def)

lemma byte_digits:
  "(of_char c :: nat) div 16 < 16" "(of_char c :: nat) mod 16 < 16"
proof -
  have "(of_char c :: nat) < 256" by simp
  then show "(of_char c :: nat) div 16 < 16" by (simp add: less_mult_imp_div_less)
qed simp

lemma query_unescape_char: "query_unescape (escape_char c @ s) = map_option ((#) c) (query_unescape s)"
proof -
  have whole: "char_of (16 * (of_char c div 16) + of_char c mod 16 :: nat) = c"
    unfolding mult_div_mod_eq by simp
  show ?thesis
  proof (cases "unreserved_char c")
    case True
    then have "c \<noteq> CHR ''%''" "c \<noteq> CHR ''+''" using special_not_unreserved by metis+
    with True show ?thesis by (simp add: escape_char_def)
  next
    case False
    then show ?thesis
      using byte_digits [of c] by (simp add: escape_char_def hex_digit_value whole del: mult_div_mod_eq)
  qed
qed

lemma query_unescape_escape: "query_unescape (query_escape s) = Some s"
  by (induction s) (simp_all add: query_escape_def query_unescape_char)

lemma hex_digit_plain: "n < 16 \<Longrightarrow> hex_digit n \<notin> set ''&=;''"
proof -
  have "\<forall>n \<in> set [0..<16]. hex_digit n \<notin> set ''&=;''" by code_simp
  then show "n < 16 \<Longrightarrow> hex_digit n \<notin> set ''&=;''" by (metis atLeastLessThan_iff le0 set_upt)
qed

lemma query_escape_plain:
  assumes "x \<in> set ''&=;''"
  shows "x \<notin> set (query_escape s)"
proof -
  have "\<not> unreserved_char x" using assms special_not_unreserved by auto
  moreover have "x \<noteq> hex_digit (of_char c div 16)" "x \<noteq> hex_digit (of_char c mod 16)" for c
    using assms hex_digit_plain byte_digits [of c] by metis+
  ultimately have "x \<notin> set (escape_char c)" for c
    using assms by (auto simp: escape_char_def)
  then show ?thesis by (simp add: query_escape_def)
qed

lemma piece_values_encoded:
  "piece_values k (query_escape a @ ''='' @ query_escape v) = (if a = k then [v] else [])"
proof -
  have "takeWhile ((\<noteq>) (CHR ''='')) (query_escape a @ ''='' @ query_escape v) = query_escape a"
    and "dropWhile ((\<noteq>) (CHR ''='')) (query_escape a @ ''='' @ query_escape v) = ''='' @ query_escape v"
    using query_escape_plain [of "CHR ''=''" a] by (auto simp: takeWhile_append dropWhile_append)
  then show ?thesis
    by (simp add: piece_values_def parse_piece_def query_unescape_escape query_escape_plain)
qed

section \<open>The round trip\<close>

definition encoded_pieces :: "string list gomap \<Rightarrow> string list" where
  "encoded_pieces q = concat (map (\<lambda>(k, vs). map (\<lambda>v. query_escape k @ ''='' @ query_escape v) vs) (sort_key fst q))"

lemma concat_piece_values:
  "concat (map (piece_values k) (concat (map (\<lambda>(a, vs). map (\<lambda>v. query_escape a @ ''='' @ query_escape v) vs) xs))) =
     concat (map (\<lambda>(a, vs). if a = k then vs else []) xs)"
proof (induction xs)
  case (Cons x xs)
  obtain a vs where [simp]: "x = (a, vs)" by (cases x)
  have "concat (map (piece_values k) (map (\<lambda>v. query_escape a @ ''='' @ query_escape v) vs)) = (if a = k then vs else [])"
    by (induction vs) (simp_all only: list.map concat.simps piece_values_encoded, simp_all)
  with Cons show ?case by simp
qed simp

lemma concat_of_key: "gomap_ok xs \<Longrightarrow> concat (map (\<lambda>(a, vs). if a = k then vs else []) xs) = query_get xs k"
proof (induction xs)
  case (Cons x xs)
  obtain a vs where [simp]: "x = (a, vs)" by (cases x)
  have "query_get xs a = []" if "a \<notin> fst ` set xs"
    using that by (simp add: query_get_def map_of_eq_None_iff [THEN iffD2])
  with Cons show ?case by (auto simp: query_get_def query_get_def)
qed (simp add: query_get_def)

lemma gomap_ok_sorted: "gomap_ok q \<Longrightarrow> gomap_ok (sort_key fst q)"
  by (simp add: distinct_map)

lemma query_get_encode:
  assumes "gomap_ok q"
  shows "concat (map (piece_values k) (split_on CHR ''&'' (encode_query q))) = query_get q k"
proof -
  have "list_all (\<lambda>p. CHR ''&'' \<notin> set p) (encoded_pieces q)"
    by (auto simp: encoded_pieces_def list_all_iff query_escape_plain)
  then have "concat (map (piece_values k) (split_on CHR ''&'' (encode_query q))) =
      concat (map (piece_values k) (encoded_pieces q))"
    unfolding encode_query_def encoded_pieces_def [symmetric] by (simp only: split_on_join) simp
  also have "\<dots> = concat (map (\<lambda>(a, vs). if a = k then vs else []) (sort_key fst q))"
    unfolding encoded_pieces_def by (rule concat_piece_values)
  also have "\<dots> = query_get (sort_key fst q) k"
    by (rule concat_of_key [OF gomap_ok_sorted [OF assms]])
  also have "\<dots> = query_get q k"
    using map_of_inject_set [OF gomap_ok_sorted [OF assms] assms] by (simp add: query_get_def)
  finally show ?thesis .
qed

text \<open>C9. The URL that the load balancer sends a request to carries the query string of the request: whoever
  reads it finds, for every key, the values that the host's URL had and then those of the request, in
  their order, whatever bytes are in keys and values.\<close>

theorem query_roundtrip:
  assumes "gomap_ok q"
  shows "query_get (parse_query (u_RawQuery (append_query u q))) k =
    query_get (parse_query (u_RawQuery u)) k @ query_get q k"
  using query_get_encode [OF assms, of k]
  by (cases "q = []"; cases "u_RawQuery u = []")
     (simp_all add: append_query_def query_get_parse split_on_append, simp_all add: query_get_def)

text \<open>A key and a value with every special byte, on a host whose URL has a query string of its own.\<close>

theorem query_roundtrip_witness:
  "query_get (parse_query (u_RawQuery (append_query \<lparr>u_rest = ''http://a/'', u_RawQuery = ''a=1''\<rparr>
      [(''a&=;'', [''50% + x'']), (''a'', [''2'', ''''])]))) ''a'' = [''1'', ''2'', '''']"
proof -
  have "query_get (parse_query ''a=1'') ''a'' = [''1'']" by code_simp
  with query_roundtrip [of "[(''a&=;'', [''50% + x'']), (''a'', [''2'', ''''])]"
      "\<lparr>u_rest = ''http://a/'', u_RawQuery = ''a=1''\<rparr>" "''a''"]
  show ?thesis by (simp add: query_get_def [of "_ # _"])
qed

end
