(* ===== verification/MergeCore.thy ===== *)
theory MergeCore
  imports Request
begin

text \<open>
  The parts of \<open>src/proxy/merging.go\<close> that both mergers share: the outcome of one backend call
  (\<open>requestPart\<close>, \<open>sequentialRequestPart\<close>), the incremental accumulator, the default response
  combiner, and the configuration that selects a merger. The combiner and the accumulator are
  defined twice over: over values, and over references to response maps that live in a store,
  because \<open>combineData\<close> keeps the first map it meets and writes the others into it.
\<close>

named_theorems merge_simps \<open>evaluation of the accumulator\<close>

section \<open>One backend call\<close>

text \<open>
  What \<open>requestPart\<close> sends: an error on \<open>failed\<close> or a response on \<open>out\<close>. \<open>expired\<close> tells that its
  final \<open>select\<close> took the branch \<open>ctx.Done()\<close>, with \<open>ctx.Err() = ce\<close>. The sequential variant
  differs only in the context it passes on.
\<close>

definition request_part :: "bool \<Rightarrow> goerror \<Rightarrow> 'r presult \<Rightarrow> goerror + 'r" where
  "request_part expired ce res =
     (case res of
        (_, Some e) \<Rightarrow> Inl e
      | (None, None) \<Rightarrow> Inl ErrNullResult
      | (Some r, None) \<Rightarrow> if expired then Inl ce else Inr r)"

definition sequential_request_part :: "bool \<Rightarrow> goerror \<Rightarrow> 'r presult \<Rightarrow> goerror + 'r" where
  "sequential_request_part expired ce res =
     (case res of
        (_, Some e) \<Rightarrow> Inl e
      | (None, None) \<Rightarrow> Inl ErrNullResult
      | (Some r, None) \<Rightarrow> if expired then Inl ce else Inr r)"

section \<open>The accumulator\<close>

text \<open>
  A response combiner may read and change a store \<open>'s\<close> (the maps its responses point to); it is
  called with a number and a list of response pointers.
\<close>

type_synonym ('s, 'r) combiner = "'s \<Rightarrow> nat \<Rightarrow> 'r option list \<Rightarrow> 'r option \<times> 's"

record 'r accumulator =
  acc_pending :: int
  acc_data :: "'r option"
  acc_errs :: "goerror list"

definition new_incremental_merge_accumulator :: "nat \<Rightarrow> 'r accumulator" where
  "new_incremental_merge_accumulator expected = \<lparr>acc_pending = int expected, acc_data = None, acc_errs = []\<rparr>"

definition acc_merge ::
  "('s, ('d, 'i) response) combiner \<Rightarrow> 's \<Rightarrow> ('d, 'i) response presult \<Rightarrow>
   ('d, 'i) response accumulator \<Rightarrow> ('d, 'i) response accumulator \<times> 's" where
  "acc_merge rc s p i =
     (let i = i\<lparr>acc_pending := acc_pending i - 1\<rparr>
      in case p of
           (_, Some err) \<Rightarrow>
             (i\<lparr>acc_errs := acc_errs i @ [err],
                acc_data := map_option (\<lambda>r. r\<lparr>r_IsComplete := False\<rparr>) (acc_data i)\<rparr>, s)
         | (None, None) \<Rightarrow> (i\<lparr>acc_errs := acc_errs i @ [ErrNullResult]\<rparr>, s)
         | (Some res, None) \<Rightarrow>
             (case acc_data i of
                None \<Rightarrow> (i\<lparr>acc_data := Some res\<rparr>, s)
              | Some d \<Rightarrow>
                  (case rc s 2 [Some d, Some res] of (x, s') \<Rightarrow> (i\<lparr>acc_data := x\<rparr>, s'))))"

definition new_merge_error :: "goerror list \<Rightarrow> goerror option" where
  "new_merge_error errs = (if errs = [] then None else Some (MergeError errs))"

definition acc_result :: "('d, 'i) response accumulator \<Rightarrow> ('d, 'i) response presult" where
  "acc_result i =
     (case acc_data i of
        None \<Rightarrow> (None, new_merge_error (acc_errs i))
      | Some d \<Rightarrow>
          (Some (if acc_pending i > 0 \<or> acc_errs i \<noteq> [] then d\<lparr>r_IsComplete := False\<rparr> else d),
           new_merge_error (acc_errs i)))"

section \<open>The default combiner\<close>

definition new_response :: "'d \<Rightarrow> bool \<Rightarrow> ('d, 'i) response" where
  "new_response d c = \<lparr>r_Data = Some d, r_IsComplete = c, r_Headers = [], r_StatusCode = 0, r_Io = None\<rparr>"

text \<open>Over values: the loop of \<open>combineData\<close> carries \<open>isComplete\<close> and the response under construction.\<close>

fun combine_loop ::
  "bool \<Rightarrow> (gobj, 'i) response option \<Rightarrow> (gobj, 'i) response option list \<Rightarrow>
   bool \<times> (gobj, 'i) response option" where
  "combine_loop c ret [] = (c, ret)"
| "combine_loop c ret (None # parts) = combine_loop False ret parts"
| "combine_loop c ret (Some part # parts) =
     (case r_Data part of
        None \<Rightarrow> combine_loop False ret parts
      | Some data \<Rightarrow>
          let c = (c \<and> r_IsComplete part)
          in case ret of
               None \<Rightarrow> combine_loop c (Some (new_response data c)) parts
             | Some r \<Rightarrow>
                 combine_loop c (Some (r\<lparr>r_Data := map_option (\<lambda>d. write_all d data) (r_Data r)\<rparr>)) parts)"

definition combine_data :: "(unit, (gobj, 'i) response) combiner" where
  "combine_data s expected parts =
     (case combine_loop (length parts = expected) None parts of
        (c, None) \<Rightarrow> (Some (new_response [] c), s)
      | (c, Some r) \<Rightarrow> (Some (r\<lparr>r_IsComplete := c\<rparr>), s))"

text \<open>
  Over references: maps live in a store \<open>\<sigma>\<close>, and writing goes to the map the first response
  points to. A fresh map is made at an address that nothing else uses, \<open>fresh\<close>.
\<close>

type_synonym mapstore = "nat \<Rightarrow> gobj"
type_synonym rresponse = "(nat, nat) response"

fun combine_loop_ref ::
  "mapstore \<Rightarrow> bool \<Rightarrow> rresponse option \<Rightarrow> rresponse option list \<Rightarrow>
   (bool \<times> rresponse option) \<times> mapstore" where
  "combine_loop_ref \<sigma> c ret [] = ((c, ret), \<sigma>)"
| "combine_loop_ref \<sigma> c ret (None # parts) = combine_loop_ref \<sigma> False ret parts"
| "combine_loop_ref \<sigma> c ret (Some part # parts) =
     (case r_Data part of
        None \<Rightarrow> combine_loop_ref \<sigma> False ret parts
      | Some a \<Rightarrow>
          let c = (c \<and> r_IsComplete part)
          in case ret of
               None \<Rightarrow> combine_loop_ref \<sigma> c (Some (new_response a c)) parts
             | Some r \<Rightarrow>
                 (case r_Data r of
                    None \<Rightarrow> combine_loop_ref \<sigma> c ret parts
                  | Some b \<Rightarrow> combine_loop_ref (\<sigma>(b := write_all (\<sigma> b) (\<sigma> a))) c ret parts))"

definition combine_data_ref :: "nat \<Rightarrow> (mapstore, rresponse) combiner" where
  "combine_data_ref fresh \<sigma> expected parts =
     (case combine_loop_ref \<sigma> (length parts = expected) None parts of
        ((c, None), \<sigma>') \<Rightarrow> (Some (new_response fresh c), \<sigma>'(fresh := []))
      | ((c, Some r), \<sigma>') \<Rightarrow> (Some (r\<lparr>r_IsComplete := c\<rparr>), \<sigma>'))"

section \<open>Folding outcomes\<close>

text \<open>The outcomes of the backend calls, merged in the order given.\<close>

definition outcome_presult :: "goerror + 'r \<Rightarrow> 'r presult" where
  "outcome_presult out = (case out of Inl e \<Rightarrow> (None, Some e) | Inr r \<Rightarrow> (Some r, None))"

fun merge_all ::
  "('s, ('d, 'i) response) combiner \<Rightarrow> (goerror + ('d, 'i) response) list \<Rightarrow>
   ('d, 'i) response accumulator \<times> 's \<Rightarrow> ('d, 'i) response accumulator \<times> 's" where
  "merge_all rc [] (i, s) = (i, s)"
| "merge_all rc (out # outs) (i, s) = merge_all rc outs (acc_merge rc s (outcome_presult out) i)"

lemma merge_all_append:
  "merge_all rc (xs @ ys) st = merge_all rc ys (merge_all rc xs st)"
proof (induction xs arbitrary: st)
  case Nil
  then show ?case by (cases st) simp
next
  case (Cons x xs)
  then show ?case by (cases st) simp
qed

definition oks :: "(goerror + 'r) list \<Rightarrow> 'r list" where
  "oks outs = concat (map (\<lambda>out. case out of Inl e \<Rightarrow> [] | Inr r \<Rightarrow> [r]) outs)"

definition failures :: "(goerror + 'r) list \<Rightarrow> goerror list" where
  "failures outs = concat (map (\<lambda>out. case out of Inl e \<Rightarrow> [e] | Inr r \<Rightarrow> []) outs)"

lemma oks_simps [simp]:
  "oks [] = []" "oks (Inl e # outs) = oks outs" "oks (Inr r # outs) = r # oks outs"
  "oks (xs @ ys) = oks xs @ oks ys"
  by (simp_all add: oks_def)

lemma failures_simps [simp]:
  "failures [] = []" "failures (Inl e # outs) = e # failures outs" "failures (Inr r # outs) = failures outs"
  "failures (xs @ ys) = failures xs @ failures ys"
  by (simp_all add: failures_def)

lemma set_oks: "r \<in> set (oks outs) \<longleftrightarrow> Inr r \<in> set outs"
  by (induction outs) (auto split: sum.split simp: oks_def)

lemma set_failures: "e \<in> set (failures outs) \<longleftrightarrow> Inl e \<in> set outs"
  by (induction outs) (auto split: sum.split simp: failures_def)

lemma length_oks_failures: "length (oks outs) + length (failures outs) = length outs"
  by (induction outs) (auto split: sum.split simp: failures_def oks_def)

section \<open>What a merge of values amounts to\<close>

definition data_of :: "(gobj, 'i) response \<Rightarrow> gobj" where
  "data_of r = (case r_Data r of None \<Rightarrow> [] | Some d \<Rightarrow> d)"

text \<open>The specification: later responses override earlier ones, key by key.\<close>

definition merged :: "(gobj, 'i) response list \<Rightarrow> string \<rightharpoonup> gval" where
  "merged rs = foldl (\<lambda>m r. m ++ map_of (data_of r)) Map.empty rs"

definition all_complete :: "(gobj, 'i) response list \<Rightarrow> bool" where
  "all_complete rs = ((\<forall>r \<in> set rs. r_IsComplete r) \<and> (length rs \<ge> 2 \<longrightarrow> (\<forall>r \<in> set rs. r_Data r \<noteq> None)))"

lemma merged_simps [simp]:
  "merged [] = Map.empty" "merged [r] = map_of (data_of r)"
  "merged (rs @ [r]) = merged rs ++ map_of (data_of r)"
  by (simp_all add: merged_def)

lemma combine_two [merge_simps]:
  "combine_data s 2 [Some d, Some r] =
     (Some (new_response (write_all (data_of d) (data_of r))
        (r_IsComplete d \<and> r_IsComplete r \<and> r_Data d \<noteq> None \<and> r_Data r \<noteq> None)), s)"
  if "gomap_ok (data_of r)"
proof -
  have "write_all [] (data_of r) = data_of r" using write_all_Nil [of "[]" "data_of r"] that by simp
  then show ?thesis
    by (cases "r_Data d"; cases "r_Data r")
      (simp_all add: combine_data_def new_response_def data_of_def Let_def)
qed

lemma data_of_new_response [simp]: "data_of (new_response d c) = d"
  by (simp add: data_of_def new_response_def)

lemma new_response_sel [simp]:
  "r_Data (new_response d c) = Some d" "r_IsComplete (new_response d c) = c"
  "r_Io (new_response d c) = None" "r_Headers (new_response d c) = []" "r_StatusCode (new_response d c) = 0"
  by (simp_all add: new_response_def)

text \<open>The accumulator after the outcomes \<open>outs\<close>, of \<open>n\<close> expected ones.\<close>

definition acc_after :: "nat \<Rightarrow> (goerror + (gobj, 'i) response) list \<Rightarrow> (gobj, 'i) response accumulator" where
  "acc_after n outs = fst (merge_all combine_data outs (new_incremental_merge_accumulator n, ()))"

definition acc_inv :: "nat \<Rightarrow> (goerror + (gobj, 'i) response) list \<Rightarrow> (gobj, 'i) response accumulator \<Rightarrow> bool" where
  "acc_inv n outs i \<longleftrightarrow>
     acc_pending i = int n - int (length outs) \<and> acc_errs i = failures outs \<and>
     (case acc_data i of
        None \<Rightarrow> oks outs = []
      | Some d \<Rightarrow>
          oks outs \<noteq> [] \<and> map_of (data_of d) = merged (oks outs) \<and> gomap_ok (data_of d) \<and>
          (length (oks outs) \<ge> 2 \<longrightarrow> r_Data d \<noteq> None) \<and>
          (length (oks outs) = 1 \<longrightarrow> d\<lparr>r_IsComplete := True\<rparr> = (hd (oks outs))\<lparr>r_IsComplete := True\<rparr>) \<and>
          (failures outs = [] \<longrightarrow> r_IsComplete d = all_complete (oks outs)))"

lemma acc_after_Nil [simp]: "acc_after n [] = new_incremental_merge_accumulator n"
  by (simp add: acc_after_def)

lemma acc_after_snoc:
  "acc_after n (outs @ [out]) = fst (acc_merge combine_data () (outcome_presult out) (acc_after n outs))"
proof -
  obtain i where i: "merge_all combine_data outs (new_incremental_merge_accumulator n, ()) = (i, ())"
    by (metis surj_pair old.unit.exhaust)
  obtain j where j: "acc_merge combine_data () (outcome_presult out) i = (j, ())"
    by (metis surj_pair old.unit.exhaust)
  show ?thesis by (simp add: acc_after_def merge_all_append i j)
qed

lemma data_of_complete [simp]: "data_of (r\<lparr>r_IsComplete := c\<rparr>) = data_of r"
  by (simp add: data_of_def)

lemma all_complete_snoc:
  "rs \<noteq> [] \<Longrightarrow> all_complete (rs @ [r]) \<longleftrightarrow>
     all_complete rs \<and> (\<forall>x \<in> set rs. r_Data x \<noteq> None) \<and> r_IsComplete r \<and> r_Data r \<noteq> None"
  by (cases rs) (auto simp: all_complete_def)

lemma acc_inv_new: "acc_inv n [] (new_incremental_merge_accumulator n)"
  by (simp add: acc_inv_def new_incremental_merge_accumulator_def)

lemma acc_inv_error:
  assumes "acc_inv n outs i"
  shows "acc_inv n (outs @ [Inl e]) (fst (acc_merge combine_data () (outcome_presult (Inl e)) i))"
  using assms by (auto simp: acc_inv_def acc_merge_def outcome_presult_def Let_def split: option.splits)

lemma acc_inv_first:
  assumes "acc_inv n outs i" and "oks outs = []" and "gomap_ok (data_of r)"
  shows "acc_inv n (outs @ [Inr r]) (fst (acc_merge combine_data () (outcome_presult (Inr r)) i))"
  using assms
  by (auto simp: acc_inv_def acc_merge_def outcome_presult_def Let_def all_complete_def split: option.splits)

lemma single_data:
  assumes "acc_inv n outs i" and "acc_data i = Some d" and "oks outs \<noteq> []"
  shows "r_Data d \<noteq> None \<longleftrightarrow> length (oks outs) \<ge> 2 \<or> (\<forall>x \<in> set (oks outs). r_Data x \<noteq> None)"
proof (cases "length (oks outs) \<ge> 2")
  case True
  with assms show ?thesis by (simp add: acc_inv_def)
next
  case False
  with assms(3) obtain x where x: "oks outs = [x]" by (cases "oks outs" rule: remdups_adj.cases) auto
  with assms have "d\<lparr>r_IsComplete := True\<rparr> = x\<lparr>r_IsComplete := True\<rparr>" by (simp add: acc_inv_def)
  then have "r_Data d = r_Data x" by (metis response.select_convs(1) response.surjective response.update_convs(2))
  with x show ?thesis by simp
qed

lemma acc_inv_next:
  assumes "acc_inv n outs i" and "oks outs \<noteq> []" and "gomap_ok (data_of r)"
  shows "acc_inv n (outs @ [Inr r]) (fst (acc_merge combine_data () (outcome_presult (Inr r)) i))"
proof -
  from assms obtain d where d: "acc_data i = Some d" by (cases "acc_data i") (auto simp: acc_inv_def)
  let ?c = "r_IsComplete d \<and> r_IsComplete r \<and> r_Data d \<noteq> None \<and> r_Data r \<noteq> None"
  let ?x = "new_response (write_all (data_of d) (data_of r)) ?c"
  have step: "fst (acc_merge combine_data () (outcome_presult (Inr r)) i) =
      i\<lparr>acc_pending := acc_pending i - 1, acc_data := Some ?x\<rparr>"
    using combine_two [OF assms(3), of "()" d]
    by (simp add: acc_merge_def outcome_presult_def Let_def d)
  have data: "map_of (data_of ?x) = merged (oks (outs @ [Inr r]))" "gomap_ok (data_of ?x)"
    using assms(1,3) by (simp_all add: acc_inv_def d gomap_simps)
  have c: "?c = all_complete (oks outs @ [r])" if "failures outs = []"
  proof -
    from that assms(1) have "r_IsComplete d = all_complete (oks outs)" by (simp add: acc_inv_def d)
    with single_data [OF assms(1) d assms(2)] all_complete_snoc [OF assms(2), of r] show ?thesis
      by (auto simp: all_complete_def)
  qed
  show ?thesis
    unfolding step using assms(1,2) data c by (auto simp: acc_inv_def)
qed

lemma acc_inv_after:
  assumes "\<And>r. Inr r \<in> set outs \<Longrightarrow> gomap_ok (data_of r)"
  shows "acc_inv n outs (acc_after n outs)"
  using assms
proof (induction outs rule: rev_induct)
  case Nil
  then show ?case by (simp add: acc_inv_new)
next
  case (snoc out outs)
  then have IH: "acc_inv n outs (acc_after n outs)" by simp
  show ?case
  proof (cases out)
    case (Inl e)
    with IH show ?thesis by (simp only: acc_after_snoc acc_inv_error)
  next
    case (Inr r)
    with snoc.prems have "gomap_ok (data_of r)" by simp
    with IH Inr show ?thesis
      by (cases "oks outs = []") (simp_all only: acc_after_snoc acc_inv_first acc_inv_next not_False_eq_True)
  qed
qed

text \<open>The result of a merge of all \<open>n\<close> outcomes.\<close>

lemma acc_result_spec:
  assumes "\<And>r. Inr r \<in> set outs \<Longrightarrow> gomap_ok (data_of r)"
  shows "case acc_result (acc_after n outs) of
      (None, e) \<Rightarrow> oks outs = [] \<and> e = new_merge_error (failures outs)
    | (Some d, e) \<Rightarrow>
        oks outs \<noteq> [] \<and> e = new_merge_error (failures outs) \<and>
        map_of (data_of d) = merged (oks outs) \<and>
        r_IsComplete d = (failures outs = [] \<and> n \<le> length outs \<and> all_complete (oks outs))"
proof -
  have "acc_inv n outs (acc_after n outs)" by (rule acc_inv_after) (rule assms)
  then show ?thesis by (auto simp: acc_inv_def acc_result_def split: option.splits)
qed

section \<open>Choosing a merger\<close>

definition mergeKey :: string where "mergeKey = ''combiner''"
definition isSequentialKey :: string where "isSequentialKey = ''sequential''"
definition parallelMerger :: string where "parallelMerger = ''parallel''"
definition forceDeepCloneKey :: string where "forceDeepCloneKey = ''force_sandboxed_request''"
definition sequentialPropagateKey :: string where "sequentialPropagateKey = ''sequential_propagated_params''"
definition defaultCombinerName :: string where "defaultCombinerName = ''default''"
definition typeKey :: string where "typeKey = ''strategy''"

text \<open>The proxy section of the extra configuration, where it is a map.\<close>

definition proxy_section :: "extra_config \<Rightarrow> gobj option" where
  "proxy_section cfg = (case map_of cfg proxy_Namespace of Some (VMap m) \<Rightarrow> Some m | _ \<Rightarrow> None)"

text \<open>\<open>getMergerFactory\<close>; \<open>mergers\<close> is the package's map of merger factories, \<open>None\<close> a nil factory.\<close>

definition get_merger_factory :: "'m gomap \<Rightarrow> extra_config \<Rightarrow> 'm option \<times> string" where
  "get_merger_factory mergers cfg =
     (let par = (map_of mergers parallelMerger, parallelMerger)
      in case proxy_section cfg of
           None \<Rightarrow> par
         | Some m \<Rightarrow>
             (case map_of m typeKey of
                None \<Rightarrow>
                  (case map_of m isSequentialKey of
                     Some (VBool c) \<Rightarrow> if c then (map_of mergers isSequentialKey, isSequentialKey) else par
                   | _ \<Rightarrow> par)
              | Some (VString t) \<Rightarrow> (case map_of mergers t of Some mf \<Rightarrow> (Some mf, t) | None \<Rightarrow> par)
              | Some _ \<Rightarrow> par))"

definition register_merger_factory :: "string \<Rightarrow> 'm \<Rightarrow> 'm gomap \<Rightarrow> 'm gomap" where
  "register_merger_factory name m mergers = AList.update name m mergers"

definition force_deep_clone :: "endpoint_config \<Rightarrow> bool" where
  "force_deep_clone cfg =
     (case proxy_section (e_ExtraConfig cfg) of
        None \<Rightarrow> False
      | Some e \<Rightarrow> (case map_of e forceDeepCloneKey of Some (VBool c) \<Rightarrow> c | _ \<Rightarrow> False))"

definition has_unsafe_backends :: "endpoint_config \<Rightarrow> bool" where
  "has_unsafe_backends cfg =
     (length (e_Backend cfg) \<noteq> 1 \<and>
      (\<exists>b \<in> set (e_Backend cfg). to_upper (b_Method b) \<noteq> ''GET'' \<and> to_upper (b_Method b) \<noteq> ''HEAD''))"

text \<open>\<open>getResponseCombinerName\<close>; \<open>None\<close> is the panic of \<open>v.(string)\<close> on another type.\<close>

definition get_response_combiner_name :: "'f combiner_register \<Rightarrow> extra_config \<Rightarrow> string option" where
  "get_response_combiner_name cr extra =
     (case proxy_section extra of
        None \<Rightarrow> Some defaultCombinerName
      | Some e \<Rightarrow>
          (case map_of e mergeKey of
             None \<Rightarrow> Some defaultCombinerName
           | Some (VString n) \<Rightarrow>
               if snd (get_response_combiner cr n) then Some n else Some defaultCombinerName
           | Some _ \<Rightarrow> None))"

definition get_response_combiner_for :: "'f combiner_register \<Rightarrow> extra_config \<Rightarrow> 'f option" where
  "get_response_combiner_for cr extra =
     (case get_response_combiner_name cr extra of
        None \<Rightarrow> None
      | Some n \<Rightarrow> Some (fst (get_response_combiner cr n)))"

definition init_response_combiners :: "'f \<Rightarrow> 'f combiner_register" where
  "init_response_combiners combine = new_combiner_register [(defaultCombinerName, combine)] combine"

definition service_timeout :: "endpoint_config \<Rightarrow> duration" where
  "service_timeout cfg = int_quot (85 * e_Timeout cfg) 100"

text \<open>
  \<open>NewMergeDataMiddleware\<close> without its logging: the registered backend filterers are the parameter
  \<open>bf\<close>. \<open>Fatal\<close> is the call of \<open>logger.Fatal\<close> followed by a nil result.
\<close>

datatype clone_mode = Shallow | Deep

record ('m, 'f) merge_setup =
  ms_merger :: 'm
  ms_timeout :: duration
  ms_combiner :: 'f
  ms_clone :: clone_mode
  ms_filters :: "(request \<Rightarrow> bool) option list"

datatype ('m, 'f, 'p) merge_middleware =
    Panics
  | Fatal
  | Single "'p option"
  | AlwaysFails goerror
  | Merger "('m, 'f) merge_setup" "'p list"

definition clone_mode_of :: "endpoint_config \<Rightarrow> clone_mode" where
  "clone_mode_of cfg = (if has_unsafe_backends cfg \<or> force_deep_clone cfg then Deep else Shallow)"

definition new_merge_data_middleware ::
  "'m gomap \<Rightarrow> 'f combiner_register \<Rightarrow>
   (endpoint_config \<Rightarrow> goerror + (request \<Rightarrow> bool) option list) \<Rightarrow> endpoint_config \<Rightarrow> 'p list \<Rightarrow>
   ('m, 'f, 'p) merge_middleware" where
  "new_merge_data_middleware mergers cr bf cfg next =
     (if length (e_Backend cfg) = 0 then Fatal
      else if length (e_Backend cfg) = 1 then
        (case empty_middleware next of None \<Rightarrow> Panics | Some p \<Rightarrow> Single p)
      else
        (case (get_response_combiner_for cr (e_ExtraConfig cfg), get_merger_factory mergers (e_ExtraConfig cfg)) of
           (Some combiner, (Some mf, t)) \<Rightarrow>
             (if length next \<noteq> length (e_Backend cfg) then Fatal
              else (case bf cfg of
                      Inl e \<Rightarrow> AlwaysFails e
                    | Inr filters \<Rightarrow>
                        Merger \<lparr>ms_merger = mf, ms_timeout = service_timeout cfg, ms_combiner = combiner,
                                ms_clone = clone_mode_of cfg, ms_filters = filters\<rparr> next))
         | _ \<Rightarrow> Panics))"

text \<open>\<open>(i < filterCount) && (filters[i] != nil) && !filters[i](request)\<close>.\<close>

definition filtered_out :: "(request \<Rightarrow> bool) option list \<Rightarrow> request \<Rightarrow> nat \<Rightarrow> bool" where
  "filtered_out filters req i =
     (i < length filters \<and> (case filters ! i of None \<Rightarrow> False | Some f \<Rightarrow> \<not> f req))"

text \<open>Whatever the configuration holds, the merger picked is a registered one (or nil, when the name
  \<open>parallel\<close> itself was never registered), and its name goes with it.\<close>

lemma merger_factory_registered:
  "get_merger_factory mergers cfg = (mf, t) \<Longrightarrow> mf = map_of mergers t"
  by (auto simp: get_merger_factory_def Let_def split: option.splits gval.splits if_splits)

lemma combiner_of_init:
  "get_response_combiner_name (init_response_combiners f) extra = Some n \<Longrightarrow> n = defaultCombinerName"
  by (auto simp: get_response_combiner_name_def init_response_combiners_def get_new_combiner_register
      split: option.splits gval.splits if_splits)

end
