(* ===== verification/ParallelMerge.thy ===== *)
theory ParallelMerge
  imports MergeCore
begin

text \<open>
  \<open>parallelMerge\<close> of \<open>src/proxy/merging.go\<close> as a step relation: one goroutine per backend that the
  filters let through, two buffered channels, and the loop that receives exactly as many messages
  as goroutines were started. Each goroutine's result is fixed by \<open>res\<close>, but when it is delivered,
  in which order the loop picks the messages, when the deadline passes, and which branch a
  goroutine's last \<open>select\<close> takes after that are left open. A run is any sequence of steps.
\<close>

section \<open>States and steps\<close>

record 'i par_state =
  pm_running :: "nat list"                       \<comment> \<open>goroutines that have not delivered yet\<close>
  pm_parts :: "(gobj, 'i) response list"         \<comment> \<open>the channel \<open>parts\<close>\<close>
  pm_failed :: "goerror list"                    \<comment> \<open>the channel \<open>failed\<close>\<close>
  pm_left :: nat                                 \<comment> \<open>iterations left of the receive loop\<close>
  pm_acc :: "(gobj, 'i) response accumulator"
  pm_expired :: bool                             \<comment> \<open>\<open>localCtx\<close> is done\<close>

text \<open>The first loop: goroutines for the backends that are not filtered out.\<close>

definition started :: "(request \<Rightarrow> bool) option list \<Rightarrow> request \<Rightarrow> nat \<Rightarrow> nat list" where
  "started filters req n = filter (\<lambda>i. \<not> filtered_out filters req i) [0..<n]"

definition par_init :: "nat list \<Rightarrow> 'i par_state" where
  "par_init is =
     \<lparr>pm_running = is, pm_parts = [], pm_failed = [], pm_left = length is,
      pm_acc = new_incremental_merge_accumulator (length is), pm_expired = False\<rparr>"

inductive par_step ::
  "(nat \<Rightarrow> (gobj, 'i) response presult) \<Rightarrow> goerror \<Rightarrow> 'i par_state \<Rightarrow> 'i par_state \<Rightarrow> bool"
  for res :: "nat \<Rightarrow> (gobj, 'i) response presult" and ce :: goerror where
  deliver:
    "i \<in> set (pm_running s) \<Longrightarrow> request_part late ce (res i) = Inr r \<Longrightarrow> (late \<Longrightarrow> pm_expired s) \<Longrightarrow>
     par_step res ce s (s\<lparr>pm_running := remove1 i (pm_running s), pm_parts := pm_parts s @ [r]\<rparr>)"
| fail:
    "i \<in> set (pm_running s) \<Longrightarrow> request_part late ce (res i) = Inl e \<Longrightarrow> (late \<Longrightarrow> pm_expired s) \<Longrightarrow>
     par_step res ce s (s\<lparr>pm_running := remove1 i (pm_running s), pm_failed := pm_failed s @ [e]\<rparr>)"
| expire:
    "\<not> pm_expired s \<Longrightarrow> par_step res ce s (s\<lparr>pm_expired := True\<rparr>)"
| receive_error:
    "pm_left s = Suc n \<Longrightarrow> pm_failed s = e # es \<Longrightarrow>
     par_step res ce s (s\<lparr>pm_left := n, pm_failed := es,
       pm_acc := fst (acc_merge combine_data () (None, Some e) (pm_acc s))\<rparr>)"
| receive_part:
    "pm_left s = Suc n \<Longrightarrow> pm_parts s = r # rs \<Longrightarrow>
     par_step res ce s (s\<lparr>pm_left := n, pm_parts := rs,
       pm_acc := fst (acc_merge combine_data () (Some r, None) (pm_acc s))\<rparr>)"

inductive par_reach ::
  "(nat \<Rightarrow> (gobj, 'i) response presult) \<Rightarrow> goerror \<Rightarrow> nat list \<Rightarrow> 'i par_state \<Rightarrow> bool"
  for res :: "nat \<Rightarrow> (gobj, 'i) response presult" and ce :: goerror and "is" :: "nat list" where
  init: "par_reach res ce is (par_init is)"
| step: "par_reach res ce is s \<Longrightarrow> par_step res ce s s' \<Longrightarrow> par_reach res ce is s'"

definition par_returns :: "'i par_state \<Rightarrow> bool" where
  "par_returns s = (pm_left s = 0)"

definition par_result :: "'i par_state \<Rightarrow> (gobj, 'i) response presult" where
  "par_result s = acc_result (pm_acc s)"

section \<open>The invariant\<close>

text \<open>
  The history: \<open>served\<close> lists the goroutines that delivered, with the choice their \<open>select\<close> made,
  and \<open>outs\<close> the outcomes merged so far, in order.
\<close>

definition served_outcomes ::
  "(nat \<Rightarrow> 'r presult) \<Rightarrow> goerror \<Rightarrow> (nat \<times> bool) list \<Rightarrow> (goerror + 'r) list" where
  "served_outcomes res ce served = map (\<lambda>(i, late). request_part late ce (res i)) served"

definition par_inv ::
  "(nat \<Rightarrow> (gobj, 'i) response presult) \<Rightarrow> goerror \<Rightarrow> nat list \<Rightarrow> 'i par_state \<Rightarrow>
   (nat \<times> bool) list \<Rightarrow> (goerror + (gobj, 'i) response) list \<Rightarrow> bool" where
  "par_inv res ce is s served outs \<longleftrightarrow>
     mset (map fst served) + mset (pm_running s) = mset is \<and>
     mset outs + image_mset Inr (mset (pm_parts s)) + image_mset Inl (mset (pm_failed s)) =
       mset (served_outcomes res ce served) \<and>
     pm_acc s = acc_after (length is) outs \<and>
     pm_left s + length outs = length is \<and>
     (\<not> pm_expired s \<longrightarrow> (\<forall>x \<in> set served. \<not> snd x))"

lemma par_inv_init: "par_inv res ce is (par_init is) [] []"
  by (simp add: par_inv_def par_init_def served_outcomes_def)

lemma mset_serve: "i \<in> set xs \<Longrightarrow> A + mset xs = M \<Longrightarrow> add_mset i (A + mset (remove1 i xs)) = M"
  by auto

lemma par_inv_step:
  assumes "par_step res ce s s'" and "par_inv res ce is s served outs"
  shows "\<exists>served' outs'. par_inv res ce is s' served' outs'"
  using assms
proof (induction rule: par_step.cases)
  case (deliver i s late r)
  then have "par_inv res ce is s' (served @ [(i, late)]) outs"
    by (auto simp: par_inv_def served_outcomes_def mset_serve simp del: mset_remove1)
  then show ?case by blast
next
  case (fail i s late e)
  then have "par_inv res ce is s' (served @ [(i, late)]) outs"
    by (auto simp: par_inv_def served_outcomes_def mset_serve simp del: mset_remove1)
  then show ?case by blast
next
  case (expire s)
  then have "par_inv res ce is s' served outs" by (simp add: par_inv_def)
  then show ?case by blast
next
  case (receive_error s n e es)
  then have "par_inv res ce is s' served (outs @ [Inl e])"
    by (auto simp: par_inv_def acc_after_snoc outcome_presult_def)
  then show ?case by blast
next
  case (receive_part s n r rs)
  then have "par_inv res ce is s' served (outs @ [Inr r])"
    by (auto simp: par_inv_def acc_after_snoc outcome_presult_def)
  then show ?case by blast
qed

lemma par_inv_reach: "par_reach res ce is s \<Longrightarrow> \<exists>served outs. par_inv res ce is s served outs"
proof (induction rule: par_reach.induct)
  case init
  then show ?case using par_inv_init by blast
next
  case (step s s')
  then show ?case using par_inv_step by blast
qed

text \<open>When the loop is over, everything that was started has been received.\<close>

lemma par_inv_final:
  assumes "par_inv res ce is s served outs" and "pm_left s = 0"
  shows "pm_running s = [] \<and> pm_parts s = [] \<and> pm_failed s = [] \<and>
    mset (map fst served) = mset is \<and> mset outs = mset (served_outcomes res ce served)"
proof -
  have "size (mset (map fst served) + mset (pm_running s)) = length is"
    using assms(1) by (metis par_inv_def size_mset)
  then have a: "length served + length (pm_running s) = length is" by simp
  have "size (mset outs + image_mset Inr (mset (pm_parts s)) + image_mset Inl (mset (pm_failed s))) =
      length served"
    using assms(1) by (metis par_inv_def size_mset length_map served_outcomes_def)
  then have b: "length outs + length (pm_parts s) + length (pm_failed s) = length served" by simp
  have c: "length outs = length is" using assms by (simp add: par_inv_def)
  from a b c have "length (pm_running s) = 0 \<and> length (pm_parts s) = 0 \<and> length (pm_failed s) = 0"
    by linarith
  then have "pm_running s = [] \<and> pm_parts s = [] \<and> pm_failed s = []" by simp
  with assms(1) show ?thesis by (simp add: par_inv_def)
qed

section \<open>Progress and termination\<close>

definition par_measure :: "'i par_state \<Rightarrow> nat" where
  "par_measure s = length (pm_running s) + pm_left s + (if pm_expired s then 0 else 1)"

lemma par_step_measure: "par_step res ce s s' \<Longrightarrow> par_measure s' < par_measure s"
  by (induction rule: par_step.induct)
    (auto simp: par_measure_def length_remove1 dest: length_pos_if_in_set)

lemma request_part_total: "\<exists>out. request_part late ce res = out \<and> (\<exists>e r. out = Inl e \<or> out = Inr r)"
  by (metis old.sum.exhaust)

lemma par_progress:
  assumes "par_inv res ce is s served outs" and "pm_left s \<noteq> 0"
  shows "\<exists>s'. par_step res ce s s'"
proof (cases "pm_running s")
  case (Cons i rest)
  then have "i \<in> set (pm_running s)" by simp
  then show ?thesis
    by (cases "request_part False ce (res i)") (blast intro: par_step.fail par_step.deliver)+
next
  case Nil
  have "size (mset (map fst served) + mset (pm_running s)) = length is"
    using assms(1) by (metis par_inv_def size_mset)
  then have "length served = length is" using Nil by simp
  moreover have "size (mset outs + image_mset Inr (mset (pm_parts s)) + image_mset Inl (mset (pm_failed s))) =
      length served"
    using assms(1) by (metis par_inv_def size_mset length_map served_outcomes_def)
  ultimately have "length (pm_parts s) + length (pm_failed s) = pm_left s"
    using assms(1) by (simp add: par_inv_def)
  with assms(2) consider r rs where "pm_parts s = r # rs" | e es where "pm_failed s = e # es"
    by (cases "pm_parts s"; cases "pm_failed s") auto
  then show ?thesis
  proof cases
    case 1
    with assms(2) show ?thesis by (metis par_step.receive_part not0_implies_Suc)
  next
    case 2
    with assms(2) show ?thesis by (metis par_step.receive_error not0_implies_Suc)
  qed
qed

section \<open>Properties\<close>

lemma mset_map_split:
  "mset (map f xs) = mset ys \<Longrightarrow> \<exists>xs'. mset xs' = mset xs \<and> map f xs' = ys"
proof (induction ys arbitrary: xs)
  case (Cons y ys)
  then have "y \<in> set (map f xs)" by (metis list.set_intros(1) set_mset_mset)
  then obtain x where x: "x \<in> set xs" "f x = y" by auto
  then have "mset (map f (remove1 x xs)) = mset ys"
    using Cons.prems by (simp add: image_mset_Diff)
  from Cons.IH [OF this] obtain xs' where "mset xs' = mset (remove1 x xs)" "map f xs' = ys" by blast
  with x have "mset (x # xs') = mset xs \<and> map f (x # xs') = y # ys" by simp
  then show ?case by (rule exI)
qed simp

lemma par_refines:
  assumes "par_reach res ce is s" and "par_returns s"
  shows "pm_running s = [] \<and> pm_parts s = [] \<and> pm_failed s = [] \<and>
    (\<exists>order. mset (map fst order) = mset is \<and> (pm_expired s \<or> (\<forall>x \<in> set order. \<not> snd x)) \<and>
       par_result s = acc_result (acc_after (length is) (served_outcomes res ce order)))"
proof -
  from par_inv_reach [OF assms(1)] obtain served outs where inv: "par_inv res ce is s served outs" by blast
  have left: "pm_left s = 0" using assms(2) by (simp add: par_returns_def)
  note final = par_inv_final [OF inv left]
  then have "mset (map (\<lambda>(i, late). request_part late ce (res i)) served) = mset outs"
    unfolding served_outcomes_def by simp
  from mset_map_split [OF this] obtain order where
    o: "mset order = mset served" "map (\<lambda>(i, late). request_part late ce (res i)) order = outs" by blast
  have "set order = set served" using o(1) by (metis set_mset_mset)
  moreover have "mset (map fst order) = mset is" using o(1) final by simp
  ultimately show ?thesis
    using inv final o(2) by (auto simp: par_inv_def par_result_def served_outcomes_def)
qed

text \<open>C1. Every run of the parallel merger that returns leaves no goroutine behind and no message in
  a channel, and what it returns is the result of merging the outcomes of all started backends,
  each exactly once, in some order; a backend that answered without error is counted as failed
  only if the deadline passed.\<close>

theorem parallel_merge_refines:
  assumes "par_reach res ce (started filters req n) s" and "par_returns s"
  shows "pm_running s = [] \<and> pm_parts s = [] \<and> pm_failed s = [] \<and>
    (\<exists>order. mset (map fst order) = mset (started filters req n) \<and>
       (pm_expired s \<or> (\<forall>x \<in> set order. \<not> snd x)) \<and>
       par_result s = acc_result (acc_after (length (started filters req n)) (served_outcomes res ce order)))"
  by (rule par_refines [OF assms])

lemma par_sequence_measure:
  assumes "\<forall>k < N. par_step res ce (f k) (f (Suc k))"
  shows "par_measure (f N) + N \<le> par_measure (f 0)"
  using assms
proof (induction N)
  case (Suc N)
  then have "par_measure (f N) + N \<le> par_measure (f 0)" by simp
  moreover have "par_measure (f (Suc N)) < par_measure (f N)"
    using Suc.prems by (intro par_step_measure [of res ce]) simp
  ultimately show ?case by linarith
qed simp

lemma par_sequence_reach:
  assumes "\<forall>k < N. par_step res ce (f k) (f (Suc k))" and "f 0 = par_init is"
  shows "par_reach res ce is (f N)"
  using assms(1)
proof (induction N)
  case 0
  show ?case using assms(2) by (simp add: par_reach.init)
next
  case (Suc N)
  then show ?case by (metis par_reach.step less_Suc_eq)
qed

text \<open>C3. The parallel merger neither blocks nor runs on: a state it can reach either has returned or
  can make a step, and no run takes more than two steps per backend and one for the deadline.\<close>

theorem parallel_merge_terminates:
  assumes "\<forall>k < N. par_step res ce (f k) (f (Suc k))" and "f 0 = par_init is"
  shows "N \<le> 2 * length is + 1 \<and> (par_returns (f N) \<or> (\<exists>s'. par_step res ce (f N) s'))"
proof
  show "N \<le> 2 * length is + 1"
    using par_sequence_measure [OF assms(1)] assms(2) by (simp add: par_measure_def par_init_def)
  from par_inv_reach [OF par_sequence_reach [OF assms]]
  obtain served outs where "par_inv res ce is (f N) served outs" by blast
  then show "par_returns (f N) \<or> (\<exists>s'. par_step res ce (f N) s')"
    using par_progress unfolding par_returns_def by blast
qed

lemma request_part_Inr: "request_part late ce p = Inr r \<longleftrightarrow> p = (Some r, None) \<and> \<not> late"
  by (auto simp: request_part_def split: option.splits prod.splits)

lemma served_ok: "Inr r \<in> set (served_outcomes res ce order) \<longleftrightarrow>
    (\<exists>i. (i, False) \<in> set order \<and> res i = (Some r, None))"
  by (auto simp: served_outcomes_def request_part_Inr image_iff split_beta eq_commute [of "Inr r"]
      intro: bexI [of _ "(i, False)" for i])

lemma foldl_override: "foldl (\<lambda>m r. m ++ map_of (data_of r)) m0 rs = m0 ++ merged rs"
proof (induction rs rule: rev_induct)
  case (snoc r rs)
  then show ?case by simp
qed (simp add: merged_def)

lemma merged_origin: "merged rs k = Some v \<Longrightarrow> \<exists>r \<in> set rs. map_of (data_of r) k = Some v"
  by (induction rs rule: rev_induct) (auto simp: map_add_Some_iff)

lemma merged_covers: "r \<in> set rs \<Longrightarrow> map_of (data_of r) k = Some v \<Longrightarrow> merged rs k \<noteq> None"
  by (induction rs rule: rev_induct) (auto simp: map_add_def split: option.splits)

text \<open>A complete response needs a complete response of every backend, whatever the deadline does.\<close>

lemma par_complete:
  assumes reach: "par_reach res ce is s" and returns: "par_returns s"
    and ok: "\<forall>i \<in> set is. \<forall>r e. res i = (Some r, e) \<longrightarrow> gomap_ok (data_of r)"
    and result: "par_result s = (Some d, e)" and complete: "r_IsComplete d" and i: "i \<in> set is"
  shows "\<exists>r. res i = (Some r, None) \<and> r_IsComplete r"
proof -
  from par_refines [OF reach returns] obtain order where order: "mset (map fst order) = mset is"
    and acc: "par_result s = acc_result (acc_after (length is) (served_outcomes res ce order))" by blast
  let ?outs = "served_outcomes res ce order"
  have set_is: "set is = fst ` set order" using order by (metis set_map set_mset_mset)
  then have good: "gomap_ok (data_of r)" if "Inr r \<in> set ?outs" for r
    using that ok by (force simp: served_ok)
  from acc_result_spec [of ?outs "length is", OF good, folded acc, unfolded result] complete
  have all: "failures ?outs = []" "all_complete (oks ?outs)" by simp_all
  from i set_is obtain late where "(i, late) \<in> set order" by force
  then have "request_part late ce (res i) \<in> set ?outs" by (force simp: served_outcomes_def)
  with all(1) obtain r where "request_part late ce (res i) = Inr r" and "Inr r \<in> set ?outs"
    using set_failures [of _ ?outs] by (cases "request_part late ce (res i)") auto
  then have "res i = (Some r, None)" and "r \<in> set (oks ?outs)" by (simp_all add: request_part_Inr set_oks)
  with all(2) show ?thesis by (auto simp: all_complete_def)
qed

section \<open>Runs with their history\<close>

text \<open>What the goroutines report in a run, in order: each event is the number of the backend, whether its answer
  went to \<open>parts\<close> (otherwise an error went to \<open>failed\<close>), and whether the deadline had passed by then. All
  of it is read off the states before and after a step.\<close>

type_synonym report = "nat \<times> bool \<times> bool"

definition reported :: "'i par_state \<Rightarrow> 'i par_state \<Rightarrow> report list" where
  "reported s s' =
     map (\<lambda>i. (i, length (pm_parts s) < length (pm_parts s'), pm_expired s))
       (filter (\<lambda>i. i \<notin> set (pm_running s')) (pm_running s))"

inductive par_run ::
  "(nat \<Rightarrow> (gobj, 'i) response presult) \<Rightarrow> goerror \<Rightarrow> nat list \<Rightarrow> report list \<Rightarrow> 'i par_state \<Rightarrow> bool"
  for res :: "nat \<Rightarrow> (gobj, 'i) response presult" and ce :: goerror and "is" :: "nat list" where
  start: "par_run res ce is [] (par_init is)"
| continue: "par_run res ce is evs s \<Longrightarrow> par_step res ce s s' \<Longrightarrow> par_run res ce is (evs @ reported s s') s'"

text \<open>Every run has a history.\<close>

lemma par_reach_run: "par_reach res ce is s \<longleftrightarrow> (\<exists>evs. par_run res ce is evs s)"
proof
  show "par_reach res ce is s \<Longrightarrow> \<exists>evs. par_run res ce is evs s"
    by (induction rule: par_reach.induct) (blast intro: par_run.intros)+
next
  assume "\<exists>evs. par_run res ce is evs s"
  then obtain evs where "par_run res ce is evs s" ..
  then show "par_reach res ce is s" by (induction rule: par_run.induct) (blast intro: par_reach.intros)+
qed

definition report_outcome ::
  "(nat \<Rightarrow> 'r presult) \<Rightarrow> goerror \<Rightarrow> report \<Rightarrow> goerror + 'r" where
  "report_outcome res ce ev = (case ev of (i, got, late) \<Rightarrow> request_part (\<not> got) ce (res i))"

text \<open>An answer is reported as such unless the deadline has passed.\<close>

definition report_ok :: "(nat \<Rightarrow> 'r presult) \<Rightarrow> report \<Rightarrow> bool" where
  "report_ok res ev \<longleftrightarrow> (case ev of (i, got, late) \<Rightarrow>
     (got \<longrightarrow> (\<exists>r. res i = (Some r, None))) \<and> (\<not> got \<longrightarrow> late \<or> (\<forall>r. res i \<noteq> (Some r, None))))"

definition run_inv ::
  "(nat \<Rightarrow> (gobj, 'i) response presult) \<Rightarrow> goerror \<Rightarrow> nat list \<Rightarrow> report list \<Rightarrow> 'i par_state \<Rightarrow>
   (goerror + (gobj, 'i) response) list \<Rightarrow> bool" where
  "run_inv res ce is evs s outs \<longleftrightarrow>
     distinct (pm_running s) \<and> mset (map fst evs) + mset (pm_running s) = mset is \<and>
     mset outs + image_mset Inr (mset (pm_parts s)) + image_mset Inl (mset (pm_failed s)) =
       mset (map (report_outcome res ce) evs) \<and>
     pm_acc s = acc_after (length is) outs \<and> pm_left s + length outs = length is \<and>
     list_all (report_ok res) evs"

lemma left_remove1: "distinct xs \<Longrightarrow> i \<in> set xs \<Longrightarrow> filter (\<lambda>j. j \<notin> set (remove1 i xs)) xs = [i]"
proof -
  assume "distinct xs" "i \<in> set xs"
  then have "filter (\<lambda>j. j \<notin> set (remove1 i xs)) xs = filter (\<lambda>j. j = i) xs" by (intro filter_cong) auto
  also have "\<dots> = [i]" using \<open>distinct xs\<close> \<open>i \<in> set xs\<close> by (induction xs) (auto simp: filter_empty_conv)
  finally show ?thesis .
qed

lemma reported_quiet: "pm_running s' = pm_running s \<Longrightarrow> reported s s' = []"
  by (simp add: reported_def filter_empty_conv)

lemma run_inv_step:
  assumes "par_step res ce s s'" and "run_inv res ce is evs s outs"
  shows "\<exists>outs'. run_inv res ce is (evs @ reported s s') s' outs'"
  using assms
proof (induction rule: par_step.cases)
  case (deliver i t late r)
  then have "reported s s' = [(i, True, pm_expired s)]"
    by (simp add: reported_def run_inv_def left_remove1 del: set_remove1_eq)
  moreover have "report_outcome res ce (i, True, pm_expired s) = Inr r" "report_ok res (i, True, pm_expired s)"
    using deliver by (auto simp: report_outcome_def report_ok_def request_part_Inr)
  ultimately have "run_inv res ce is (evs @ reported s s') s' outs"
    using deliver by (auto simp: run_inv_def mset_serve simp del: mset_remove1)
  then show ?case by (rule exI)
next
  case (fail i t late e)
  then have "reported s s' = [(i, False, pm_expired s)]"
    by (simp add: reported_def run_inv_def left_remove1 del: set_remove1_eq)
  moreover have "report_outcome res ce (i, False, pm_expired s) = Inl e" "report_ok res (i, False, pm_expired s)"
    using fail by (auto simp: report_outcome_def report_ok_def request_part_def split: prod.splits option.splits if_splits)
  ultimately have "run_inv res ce is (evs @ reported s s') s' outs"
    using fail by (auto simp: run_inv_def mset_serve simp del: mset_remove1)
  then show ?case by (rule exI)
next
  case (expire t)
  then have "run_inv res ce is (evs @ reported s s') s' outs" by (simp add: run_inv_def reported_quiet)
  then show ?case by (rule exI)
next
  case (receive_error t n e es)
  then have "run_inv res ce is (evs @ reported s s') s' (outs @ [Inl e])"
    by (auto simp: run_inv_def reported_quiet acc_after_snoc outcome_presult_def)
  then show ?case by (rule exI)
next
  case (receive_part t n r rs)
  then have "run_inv res ce is (evs @ reported s s') s' (outs @ [Inr r])"
    by (auto simp: run_inv_def reported_quiet acc_after_snoc outcome_presult_def)
  then show ?case by (rule exI)
qed

lemma run_inv_reach: "par_run res ce is evs s \<Longrightarrow> distinct is \<Longrightarrow> \<exists>outs. run_inv res ce is evs s outs"
proof (induction rule: par_run.induct)
  case start
  then have "run_inv res ce is [] (par_init is) []" by (simp add: run_inv_def par_init_def)
  then show ?case by blast
next
  case (continue evs s s')
  then show ?case using run_inv_step by blast
qed

text \<open>When the loop is over, what it merged are the reports, each once, in some order.\<close>

lemma run_final:
  assumes "par_run res ce is evs s" and "distinct is" and "par_returns s"
  obtains order where "mset order = mset evs" and "mset (map fst evs) = mset is" and "list_all (report_ok res) evs"
    and "par_result s = acc_result (acc_after (length is) (map (report_outcome res ce) order))"
proof -
  from run_inv_reach [OF assms(1,2)] obtain outs where inv: "run_inv res ce is evs s outs" ..
  have "par_reach res ce is s" using assms(1) par_reach_run by blast
  from par_refines [OF this assms(3)] have empty: "pm_running s = []" "pm_parts s = []" "pm_failed s = []" by simp_all
  with inv have "mset (map (report_outcome res ce) evs) = mset outs" by (simp add: run_inv_def)
  from mset_map_split [OF this] obtain order where "mset order = mset evs" "map (report_outcome res ce) order = outs"
    by blast
  with inv empty show thesis by (intro that [of order]) (simp_all add: run_inv_def par_result_def)
qed

text \<open>Why a backend that reported an error did: its own error, no response, or the error of the context.\<close>

definition failure_of :: "(nat \<Rightarrow> 'r presult) \<Rightarrow> goerror \<Rightarrow> nat \<Rightarrow> goerror" where
  "failure_of res ce i = (case res i of (_, Some e) \<Rightarrow> e | (None, None) \<Rightarrow> ErrNullResult | (Some r, None) \<Rightarrow> ce)"

lemma report_failures:
  "list_all (report_ok res) evs \<Longrightarrow>
     failures (map (report_outcome res ce) evs) = map (failure_of res ce) (map fst (filter (\<lambda>(i, got, late). \<not> got) evs))"
  by (induction evs)
    (auto simp: failures_def report_outcome_def report_ok_def failure_of_def request_part_def split: prod.splits option.splits)

lemma report_oks:
  "list_all (report_ok res) evs \<Longrightarrow>
     oks (map (report_outcome res ce) evs) = map (\<lambda>i. the (fst (res i))) (map fst (filter (\<lambda>(i, got, late). got) evs))"
  by (induction evs)
    (auto simp: oks_def report_outcome_def report_ok_def request_part_def split: prod.splits option.splits)

text \<open>C2. What the client gets from the parallel merger with the default combiner, whenever the deadline
  passes. Every started backend reports exactly once. Its answer is merged; only one that reports after the
  deadline may instead be counted as failed with the error of the context (Go's \<open>select\<close> picks either then).
  The result is fixed by which answers were merged: there is a response exactly when one was; each value in it
  comes from a merged answer and each key of a merged answer is in it; it is marked complete exactly when the
  answers of all started backends were merged, all marked complete (and, for several backends, all with
  data). The error has one entry for each backend whose answer was not merged: its own error, that it gave
  no response, or the context's error; there is no error when there is no such backend.\<close>

theorem parallel_merge_value:
  assumes run: "par_run res ce (started filters req n) evs s" and returns: "par_returns s"
    and ok: "\<forall>i \<in> set (started filters req n). \<forall>r e. res i = (Some r, e) \<longrightarrow> gomap_ok (data_of r)"
  shows "mset (map fst evs) = mset (started filters req n) \<and>
    (\<forall>(i, got, late) \<in> set evs.
       if got then \<exists>r. res i = (Some r, None) else late \<or> (\<forall>r. res i \<noteq> (Some r, None))) \<and>
    (let merged = {i. \<exists>late. (i, True, late) \<in> set evs};
         answer = (\<lambda>i. the (fst (res i)));
         reason = (\<lambda>i. case res i of (_, Some e) \<Rightarrow> e | (None, None) \<Rightarrow> ErrNullResult | (Some r, None) \<Rightarrow> ce)
     in \<exists>errs.
       mset errs = image_mset reason (mset (map fst (filter (\<lambda>(i, got, late). \<not> got) evs))) \<and>
       snd (par_result s) = (if errs = [] then None else Some (MergeError errs)) \<and>
       (case fst (par_result s) of
          None \<Rightarrow> merged = {}
        | Some d \<Rightarrow>
            merged \<noteq> {} \<and>
            (\<forall>k v. map_of (data_of d) k = Some v \<longrightarrow> (\<exists>i \<in> merged. map_of (data_of (answer i)) k = Some v)) \<and>
            (\<forall>i \<in> merged. fst ` set (data_of (answer i)) \<subseteq> fst ` set (data_of d)) \<and>
            (r_IsComplete d \<longleftrightarrow>
               merged = set (started filters req n) \<and>
               (\<forall>i \<in> merged. r_IsComplete (answer i) \<and> (length (started filters req n) \<ge> 2 \<longrightarrow> r_Data (answer i) \<noteq> None)))))"
proof -
  let ?is = "started filters req n"
  let ?merged = "{i. \<exists>late. (i, True, late) \<in> set evs}" and ?answer = "\<lambda>i. the (fst (res i))"
  have dist: "distinct ?is" by (simp add: started_def)
  from run_final [OF run dist returns] obtain order where order: "mset order = mset evs"
    and each: "mset (map fst evs) = mset ?is" and reports: "list_all (report_ok res) evs"
    and result: "par_result s = acc_result (acc_after (length ?is) (map (report_outcome res ce) order))" by blast
  let ?outs = "map (report_outcome res ce) order"
  have same: "set order = set evs" using order by (metis set_mset_mset)
  then have reports': "list_all (report_ok res) order" using reports by (simp add: list_all_iff)
  have len: "length order = length ?is" using order each by (metis length_map size_mset)
  have everyone: "set ?is = fst ` set evs" using each by (metis set_map set_mset_mset)
  define errs where "errs = failures ?outs"
  have errs: "mset errs = image_mset (failure_of res ce) (mset (map fst (filter (\<lambda>(i, got, late). \<not> got) evs)))"
    unfolding errs_def report_failures [OF reports'] by (simp add: order multiset.map_comp)
  have answers: "set (oks ?outs) = ?answer ` ?merged"
    unfolding report_oks [OF reports'] using same by (force simp: image_iff)
  have merged_in: "i \<in> set ?is \<and> (\<exists>r. res i = (Some r, None))" if "i \<in> ?merged" for i
    using that reports unfolding everyone by (force simp: list_all_iff report_ok_def)
  have good: "gomap_ok (data_of r)" if "Inr r \<in> set ?outs" for r
    using that ok merged_in answers set_oks [of r ?outs] by fastforce
  have none_failed: "errs = [] \<longleftrightarrow> ?merged = set ?is"
  proof -
    have "errs = [] \<longleftrightarrow> (\<forall>(i, got, late) \<in> set evs. got)"
      unfolding errs_def report_failures [OF reports'] using same by (auto simp: filter_empty_conv)
    also have "\<dots> \<longleftrightarrow> ?merged = set ?is"
    proof
      assume "?merged = set ?is"
      moreover have "distinct (map fst evs)" using each dist by (metis mset_eq_imp_distinct_iff)
      ultimately show "\<forall>(i, got, late) \<in> set evs. got"
        unfolding everyone by (auto simp: distinct_map inj_on_def) (force simp: image_iff)
    qed (unfold everyone, force)
    finally show ?thesis .
  qed
  have all: "errs = [] \<and> length ?is \<le> length ?outs \<and> all_complete (oks ?outs) \<longleftrightarrow>
      ?merged = set ?is \<and> (\<forall>i \<in> ?merged. r_IsComplete (?answer i) \<and> (length ?is \<ge> 2 \<longrightarrow> r_Data (?answer i) \<noteq> None))"
  proof (cases "errs = []")
    case True
    then have "length (oks ?outs) = length ?is" using length_oks_failures [of ?outs] len by (simp add: errs_def)
    with True none_failed len show ?thesis by (auto simp: all_complete_def answers)
  qed (use none_failed in blast)
  have dom: "fst ` set (data_of d) = {k. map_of (data_of d) k \<noteq> None}" for d :: "(gobj, 'a) response"
    by (metis dom_def dom_map_of_conv_image_fst)
  have reports_say: "\<forall>(i, got, late) \<in> set evs.
      if got then \<exists>r. res i = (Some r, None) else late \<or> (\<forall>r. res i \<noteq> (Some r, None))"
    using reports by (auto simp: list_all_iff report_ok_def)
  note spec = acc_result_spec [of ?outs "length ?is", OF good, folded result errs_def]
  have content: "case fst (par_result s) of
      None \<Rightarrow> ?merged = {}
    | Some d \<Rightarrow>
        ?merged \<noteq> {} \<and>
        (\<forall>k v. map_of (data_of d) k = Some v \<longrightarrow> (\<exists>i \<in> ?merged. map_of (data_of (?answer i)) k = Some v)) \<and>
        (\<forall>i \<in> ?merged. fst ` set (data_of (?answer i)) \<subseteq> fst ` set (data_of d)) \<and>
        (r_IsComplete d \<longleftrightarrow>
           ?merged = set ?is \<and> (\<forall>i \<in> ?merged. r_IsComplete (?answer i) \<and> (length ?is \<ge> 2 \<longrightarrow> r_Data (?answer i) \<noteq> None)))"
  proof (cases "fst (par_result s)")
    case None
    with spec have "oks ?outs = []" by (cases "par_result s") simp
    with answers None show ?thesis by simp
  next
    case (Some d)
    with spec have some: "oks ?outs \<noteq> []" and m: "map_of (data_of d) = merged (oks ?outs)"
      and c: "r_IsComplete d = (errs = [] \<and> length ?is \<le> length ?outs \<and> all_complete (oks ?outs))"
      by (cases "par_result s"; simp)+
    have 1: "\<exists>i \<in> ?merged. map_of (data_of (?answer i)) k = Some v" if "map_of (data_of d) k = Some v" for k v
    proof -
      from merged_origin that m obtain r where "r \<in> set (oks ?outs)" "map_of (data_of r) k = Some v" by metis
      then show ?thesis unfolding answers by blast
    qed
    have 2: "fst ` set (data_of (?answer i)) \<subseteq> fst ` set (data_of d)" if "i \<in> ?merged" for i
      using that merged_covers [of "?answer i" "oks ?outs"] unfolding answers dom m by blast
    have 3: "?merged \<noteq> {}" using some answers by (metis image_empty set_empty)
    show ?thesis unfolding Some option.case c all using 1 2 3 by blast
  qed
  have error: "snd (par_result s) = (if errs = [] then None else Some (MergeError errs))"
    using spec by (auto simp: new_merge_error_def split: prod.splits option.splits)
  show ?thesis
    unfolding Let_def
    using each reports_say errs [unfolded failure_of_def] error content by blast
qed

section \<open>A concrete run\<close>

definition sample_res :: "nat \<Rightarrow> vresponse presult" where
  "sample_res i = (if i = 0 then (Some (new_response [(''a'', VInt 1)] True), None) else (None, Some ErrNoHosts))"

lemma started_sample: "started [] request_zero 2 = [0, 1]"
  by (simp add: started_def filtered_out_def upt_rec)

lemma sample_run:
  "\<exists>s. par_run sample_res (ErrCtx ''done'') [0, 1] [(0, True, False), (1, False, False)] s \<and> par_returns s"
proof -
  let ?R = "par_run sample_res (ErrCtx ''done'') [0, 1]"
  let ?r = "new_response [(''a'', VInt 1)] True :: vresponse"
  let ?s0 = "par_init [0, 1] :: reader par_state"
  let ?s1 = "?s0\<lparr>pm_running := [1], pm_parts := [?r]\<rparr>"
  let ?s2 = "?s1\<lparr>pm_running := [], pm_failed := [ErrNoHosts]\<rparr>"
  have "par_step sample_res (ErrCtx ''done'') ?s0 ?s1"
    using par_step.deliver [of 0 ?s0 False "ErrCtx ''done''" sample_res ?r]
    by (simp add: par_init_def request_part_def sample_res_def)
  from par_run.continue [OF par_run.start this] have 1: "?R [(0, True, False)] ?s1"
    by (simp add: reported_def par_init_def)
  have "par_step sample_res (ErrCtx ''done'') ?s1 ?s2"
    using par_step.fail [of 1 ?s1 False "ErrCtx ''done''" sample_res ErrNoHosts]
    by (simp add: par_init_def request_part_def sample_res_def)
  from par_run.continue [OF 1 this] have 2: "?R [(0, True, False), (1, False, False)] ?s2"
    by (simp add: reported_def par_init_def)
  let ?s3 = "?s2\<lparr>pm_left := 1, pm_failed := [],
    pm_acc := fst (acc_merge combine_data () (None, Some ErrNoHosts) (pm_acc ?s2))\<rparr>"
  have "par_step sample_res (ErrCtx ''done'') ?s2 ?s3"
    using par_step.receive_error [of ?s2 1 ErrNoHosts "[]" sample_res "ErrCtx ''done''"]
    by (simp add: par_init_def)
  from par_run.continue [OF 2 this] have 3: "?R [(0, True, False), (1, False, False)] ?s3"
    by (simp add: reported_def par_init_def)
  let ?s4 = "?s3\<lparr>pm_left := 0, pm_parts := [],
    pm_acc := fst (acc_merge combine_data () (Some ?r, None) (pm_acc ?s3))\<rparr>"
  have "par_step sample_res (ErrCtx ''done'') ?s3 ?s4"
    using par_step.receive_part [of ?s3 0 ?r "[]" sample_res "ErrCtx ''done''"]
    by (simp add: par_init_def)
  from par_run.continue [OF 3 this] have "?R [(0, True, False), (1, False, False)] ?s4"
    by (simp add: reported_def par_init_def)
  moreover have "par_returns ?s4" by (simp add: par_returns_def)
  ultimately show ?thesis by blast
qed

theorem parallel_merge_refines_witness:
  "\<exists>s. par_reach sample_res (ErrCtx ''done'') (started [] request_zero 2) s \<and> pm_running s = [] \<and>
    pm_parts s = [] \<and> pm_failed s = []"
proof -
  obtain s where "par_reach sample_res (ErrCtx ''done'') (started [] request_zero 2) s" "par_returns s"
    using sample_run par_reach_run unfolding started_sample by blast
  with parallel_merge_refines [OF this] show ?thesis by blast
qed

theorem parallel_merge_terminates_witness:
  "(1::nat) \<le> 2 * length [0::nat, 1] + 1 \<and>
   (\<exists>s s'. par_step sample_res (ErrCtx ''done'') (par_init [0, 1]) s \<and>
     (par_returns s \<or> par_step sample_res (ErrCtx ''done'') s s'))"
proof -
  let ?f = "\<lambda>k::nat. if k = 0 then par_init [0, 1] else (par_init [0, 1])\<lparr>pm_expired := True\<rparr> :: reader par_state"
  have step: "par_step sample_res (ErrCtx ''done'') (?f 0) (?f 1)"
    using par_step.expire [of "?f 0" sample_res] by (simp add: par_init_def)
  then have "\<forall>k < 1. par_step sample_res (ErrCtx ''done'') (?f k) (?f (Suc k))" by simp
  from parallel_merge_terminates [OF this, of "[0, 1]"] step show ?thesis by auto
qed

theorem parallel_merge_value_witness:
  "\<exists>s. par_run sample_res (ErrCtx ''done'') (started [] request_zero 2) [(0, True, False), (1, False, False)] s \<and>
    snd (par_result s) = Some (MergeError [ErrNoHosts]) \<and>
    (case fst (par_result s) of None \<Rightarrow> False | Some d \<Rightarrow> ''a'' \<in> fst ` set (data_of d) \<and> \<not> r_IsComplete d)"
proof -
  obtain s where s: "par_run sample_res (ErrCtx ''done'') (started [] request_zero 2) [(0, True, False), (1, False, False)] s"
    "par_returns s" using sample_run unfolding started_sample by blast
  have ok: "\<forall>i \<in> set (started [] request_zero 2). \<forall>r e. sample_res i = (Some r, e) \<longrightarrow> gomap_ok (data_of r)"
    by (auto simp: sample_res_def)
  have one: "{i. i = (0::nat) \<and> (\<exists>late. \<not> late)} = {0}" by auto
  from parallel_merge_value [OF s ok] s(1) show ?thesis
    by (intro exI [of _ s]) (auto simp: sample_res_def started_sample Let_def one split: option.splits)
qed

text \<open>When the backend filters leave no backend, both the response and the error are nil: the
  caller gets a nil response that is not announced by an error.\<close>

theorem all_filtered_is_nil:
  assumes "\<forall>i < n. filtered_out filters req i"
  shows "par_returns (par_init (started filters req n)) \<and>
    par_result (par_init (started filters req n)) = (None, None)"
proof -
  have "started filters req n = []" using assms by (simp add: started_def)
  then show ?thesis
    by (simp add: par_returns_def par_result_def par_init_def acc_result_def
        new_incremental_merge_accumulator_def new_merge_error_def)
qed

theorem all_filtered_is_nil_witness:
  "par_result (par_init (started [Some (\<lambda>_. False), Some (\<lambda>_. False)] request_zero 2)) = (None, None)"
  by (rule all_filtered_is_nil [THEN conjunct2]) (auto simp: filtered_out_def less_2_cases_iff)

end
