(* ===== verification/Typing.thy ===== *)
theory Typing
  imports ParallelMerge HttpProxy
begin

text \<open>
  What kind of values a response holds. The decoders of \<open>src/encoding/encoding.go\<close> give JSON values, with
  numbers kept as \<open>json.Number\<close>; this theory shows that nothing between the body of a backend
  (\<open>src/proxy/http.go\<close>) and the merged response of an endpoint (\<open>src/proxy/merging.go\<close>) puts
  another Go value into it, except the error reports of backends that are configured to send them.
\<close>

section \<open>JSON values\<close>

fun json_value :: "gval \<Rightarrow> bool" where
  "json_value VNil = True"
| "json_value (VBool b) = True"
| "json_value (VNumber n) = True"
| "json_value (VString s) = True"
| "json_value (VList vs) = (\<forall>v \<in> set vs. json_value v)"
| "json_value (VMap m) = (distinct (map fst m) \<and> (\<forall>kv \<in> set m. json_value (snd kv)))"
| "json_value (VInt i) = False"
| "json_value (VFloat w) = False"
| "json_value (VAnyMap m) = False"
| "json_value (VErr e) = False"

declare json_value.simps(6) [simp del]

lemma json_map_Nil [simp]: "json_value (VMap [])"
  by (simp add: json_value.simps(6))

lemma json_mapI:
  "gomap_ok m \<Longrightarrow> (\<And>k v. (k, v) \<in> set m \<Longrightarrow> json_value v) \<Longrightarrow> json_value (VMap m)"
  by (auto simp: json_value.simps(6))

lemma json_mapD:
  "json_value (VMap m) \<Longrightarrow> gomap_ok m" "json_value (VMap m) \<Longrightarrow> (k, v) \<in> set m \<Longrightarrow> json_value v"
  by (auto simp: json_value.simps(6))

lemma json_lookup: "json_value (VMap m) \<Longrightarrow> map_of m k = Some v \<Longrightarrow> json_value v"
  by (auto dest: map_of_SomeD json_mapD)

lemma json_update: "json_value (VMap m) \<Longrightarrow> json_value v \<Longrightarrow> json_value (VMap (AList.update k v m))"
  using set_update_subset [of k v m] by (auto intro!: json_mapI dest: json_mapD)

lemma json_delete: "json_value (VMap m) \<Longrightarrow> json_value (VMap (AList.delete k m))"
  using set_delete_subset [of k m] by (auto intro!: json_mapI dest: json_mapD)

lemma json_vget: "json_value v \<Longrightarrow> vget v p = Some w \<Longrightarrow> json_value w"
  by (induction v p rule: vget.induct) (auto split: option.splits dest: json_lookup)

lemma json_gval_ok: "json_value v \<Longrightarrow> gval_ok v"
proof (induction v rule: json_value.induct)
  case (6 m)
  then show ?case by (auto intro!: gval_ok_mapI dest: json_mapD)
qed simp_all

text \<open>A value is a JSON value when its maps have distinct keys and its leaves are JSON values.\<close>

lemma json_leavesI:
  "gval_ok v \<Longrightarrow> (\<And>q x. vget v q = Some x \<Longrightarrow> \<not> is_map x \<Longrightarrow> json_value x) \<Longrightarrow> json_value v"
proof (induction v rule: json_value.induct)
  case (6 m)
  show ?case
  proof (rule json_mapI)
    show "gomap_ok m" using 6(2) by (rule gval_ok_mapD)
  next
    fix k v assume kv: "(k, v) \<in> set m"
    then have look: "map_of m k = Some v" using gval_ok_mapD(1) [OF 6(2)] by simp
    have ok: "gval_ok v" using 6(2) kv by (rule gval_ok_mapD)
    show "json_value v"
    proof (rule 6(1) [of "(k, v)", simplified, OF kv ok])
      show "\<And>q x. vget v q = Some x \<Longrightarrow> \<not> is_map x \<Longrightarrow> json_value x"
        using 6(3) [of "k # q" for q] look by simp
    qed
  qed
next
  case (5 vs)
  from 5(3) [of "[]" "VList vs"] show ?case by simp
next
  case (7 i)
  from 7(2) [of "[]" "VInt i"] show ?case by simp
next
  case (8 w)
  from 8(2) [of "[]" "VFloat w"] show ?case by simp
next
  case (9 m)
  from 9(2) [of "[]" "VAnyMap m"] show ?case by simp
next
  case (10 e)
  from 10(2) [of "[]" "VErr e"] show ?case by simp
qed simp_all

text \<open>So a filter that only drops leaves gives a JSON value back.\<close>

context property_filter
begin

lemma pf_json:
  assumes "json_value (VMap m)" and "pf m = Some m'"
  shows "json_value (VMap m')"
proof (rule json_leavesI)
  show "gval_ok (VMap m')" using json_gval_ok [OF assms(1)] assms(2) by (rule pf_ok)
next
  fix q x assume "vget (VMap m') q = Some x" "\<not> is_map x"
  then have "vget (VMap m) q = Some x" using pf_keeps [OF json_gval_ok [OF assms(1)] assms(2)] by blast
  with assms(1) show "json_value x" by (rule json_vget)
qed

end

section \<open>Decoding\<close>

abbreviation json_data :: "gobj option \<Rightarrow> bool" where
  "json_data d \<equiv> json_value (VMap (odata d))"

text \<open>\<open>encoding/json\<close> with \<open>UseNumber\<close> gives JSON values.\<close>

definition json_decodes :: "json_dec \<Rightarrow> bool" where
  "json_decodes js \<longleftrightarrow> (\<forall>r v. js r = Inr v \<longrightarrow> json_value v)"

lemma json_one [simp]: "json_value (VMap [(k, v)]) = json_value v"
  by (simp add: json_value.simps(6))

lemma json_decoder_typed:
  assumes "json_decodes js" and "map_of (default_decoders js) enc = Some dec" and "dec c r = Inr d"
  shows "json_data d"
proof -
  have js: "json_value v" if "js r = Inr v" for v using assms(1) that unfolding json_decodes_def by blast
  from assms(2) consider "dec = new_json_decoder js" | "dec = new_safe_json_decoder js"
    | "dec = new_string_decoder" | "dec = noop_decoder_factory"
    by (auto simp: default_decoders_def split: if_splits)
  then show ?thesis
  proof cases
    case 1
    with assms(3) js show ?thesis
      by (auto simp: new_json_decoder_def json_decoder_def json_collection_decoder_def
          split: if_splits sum.splits gval.splits)
  next
    case 2
    with assms(3) js show ?thesis
      by (auto simp: new_safe_json_decoder_def safe_json_decoder_def split: sum.splits gval.splits)
  next
    case 3
    with assms(3) show ?thesis by (auto simp: new_string_decoder_def string_decoder_def split: option.splits)
  next
    case 4
    with assms(3) show ?thesis by (auto simp: noop_decoder_factory_def noop_decoder_def)
  qed
qed

lemma registered_decoder_typed:
  assumes "json_decodes js" and "decoder_register_get js (init_decoder_register js) enc c r = Inr d"
  shows "json_data d"
  using assms json_decoder_typed [OF assms(1), of enc] json_decoder_typed [OF assms(1) default_decoders_JSON]
  by (auto simp: decoder_register_get_init split: option.splits)

section \<open>Formatting\<close>

lemma json_extract: "json_data d \<Longrightarrow> json_data (extract_target target d)"
proof (cases d)
  case None
  then show ?thesis by (cases "split_on CHR ''.'' target") (simp_all add: extract_target_def)
next
  case (Some m)
  assume "json_data d"
  with Some show ?thesis
    by (auto simp: extract_target_def extract_parts_spec dest: json_vget split: option.split gval.split)
qed

lemma json_prefix: "json_data d \<Longrightarrow> json_data (format_prefix pre d)"
  by (simp add: format_prefix_def)

lemma json_mapping: "json_value (VMap d) \<Longrightarrow> json_value (VMap (apply_mapping ms d))"
  by (induction ms d rule: apply_mapping.induct)
     (auto split: option.splits intro!: json_delete json_update dest: json_lookup)

lemma json_entity:
  assumes "format_entity (plain_formatter remote) d = Some d'" and "json_data d"
  shows "json_data d'"
proof -
  let ?e = "plain_formatter remote"
  define d1 where "d1 = (if ef_Target ?e \<noteq> [] then extract_target (ef_Target ?e) d else d)"
  have one: "json_data d1" using assms(2) by (simp add: d1_def json_extract)
  from assms(1) obtain d2 where d2: "format_filter ?e d1 = Some d2"
    and d': "d' = format_prefix (ef_Prefix ?e) (format_mapping ?e d2)"
    by (auto simp: format_entity_def d1_def Let_def)
  have "json_data d2"
    using d2 one remote.pf_json [of "odata d1" remote]
    by (auto simp: format_filter_def plain_formatter_def split: if_splits)
  then have "json_data (format_mapping ?e d2)"
    by (simp add: format_mapping_def json_mapping)
  then show ?thesis by (simp add: d' json_prefix)
qed

text \<open>The tree of the flatmap operations gives JSON values back when it is made from them: there is an
  invariant of trees that says so.\<close>

definition tree_invariant :: "'t flat_tree \<Rightarrow> ('t \<Rightarrow> bool) \<Rightarrow> bool" where
  "tree_invariant T ok \<longleftrightarrow>
     (\<forall>d t. json_data d \<longrightarrow> ft_new T d = Some t \<longrightarrow> ok t) \<and>
     (\<forall>a b t. ok t \<longrightarrow> ok (ft_move T a b t) \<and> ok (ft_append T a b t) \<and> ok (ft_del T a t)) \<and>
     (\<forall>t m. ok t \<longrightarrow> ft_get T [] t = VMap m \<longrightarrow> json_value (VMap m))"

definition json_tree :: "'t flat_tree \<Rightarrow> bool" where
  "json_tree T \<longleftrightarrow> (\<exists>ok. tree_invariant T ok)"

lemma tree_invariantD:
  assumes "tree_invariant T ok"
  shows "json_data d \<Longrightarrow> ft_new T d = Some t \<Longrightarrow> ok t"
    and "ok t \<Longrightarrow> ok (ft_move T a b t)" "ok t \<Longrightarrow> ok (ft_append T a b t)" "ok t \<Longrightarrow> ok (ft_del T a t)"
    and "ok t \<Longrightarrow> ft_get T [] t = VMap m \<Longrightarrow> json_value (VMap m)"
  using assms unfolding tree_invariant_def by blast+

lemma json_step:
  assumes "tree_invariant T ok" and "flatmap_step T op t = Some u" and "ok t"
  shows "ok u"
proof -
  have "ok (fold (ft_del T) args t)" if "ok t" for args t
    using that by (induction args arbitrary: t) (simp_all add: tree_invariantD(4) [OF assms(1)])
  with assms(2,3) show ?thesis
    by (auto simp: tree_invariantD(2,3) [OF assms(1)] split: if_splits list.splits)
qed

lemma json_ops:
  assumes "tree_invariant T ok"
  shows "flatmap_ops T ops t = Some t' \<Longrightarrow> ok t \<Longrightarrow> ok t'"
proof (induction ops arbitrary: t)
  case (Cons op ops)
  then obtain u where "flatmap_step T op t = Some u" "flatmap_ops T ops u = Some t'"
    by (auto simp: bind_eq_Some_conv simp del: flatmap_step.simps)
  with Cons json_step [OF assms] show ?case by blast
qed simp

lemma json_flatmap:
  assumes "format_flatmap T e d = Some d'" and "json_tree T" and "json_data d"
  shows "json_data d'"
proof -
  define d1 where "d1 = (if ff_Target e \<noteq> [] then extract_target (ff_Target e) d else d)"
  have one: "json_data d1" using assms(3) by (simp add: d1_def json_extract)
  from assms(1) obtain d2 where d2: "process_ops T e d1 = Some d2" and d': "d' = format_prefix (ff_Prefix e) d2"
    by (auto simp: format_flatmap_def d1_def Let_def)
  from assms(2) obtain ok where inv: "tree_invariant T ok" unfolding json_tree_def by blast
  have "json_data d2"
  proof (cases "ft_new T d1")
    case None
    with d2 one show ?thesis by (simp add: process_ops_def)
  next
    case (Some t)
    with d2 obtain t' where t': "flatmap_ops T (ff_Ops e) t = Some t'"
      "d2 = (case ft_get T [] t' of VMap m \<Rightarrow> Some m | _ \<Rightarrow> None)"
      by (auto simp: process_ops_def)
    have "ok t'" using json_ops [OF inv t'(1)] tree_invariantD(1) [OF inv one Some] by blast
    with t'(2) tree_invariantD(5) [OF inv] show ?thesis by (cases "ft_get T [] t'") simp_all
  qed
  then show ?thesis by (simp add: d' json_prefix)
qed

lemma json_format:
  assumes "format_with T (new_entity_formatter remote) d = Some d'" and "json_tree T" and "json_data d"
  shows "json_data d'"
  using assms json_flatmap json_entity
  by (auto simp: format_with_def new_entity_formatter_def split: option.splits)

section \<open>The HTTP proxy\<close>

text \<open>The report of an error that a backend of that name is configured to send with \<open>return_error_details\<close>.\<close>

definition error_report :: "string set \<Rightarrow> string \<Rightarrow> gval \<Rightarrow> bool" where
  "error_report names k v \<longleftrightarrow>
     (\<exists>name \<in> names. \<exists>code msg enc. k = ''error_'' @ name \<and> code \<noteq> 200 \<and> code \<noteq> 201 \<and>
        v = VErr (NamedHTTPResponseError code msg enc name))"

definition report_names :: "backend \<Rightarrow> string set" where
  "report_names remote =
     {name. vget (VMap (b_ExtraConfig remote)) [http_Namespace, ''return_error_details''] = Some (VString name)}"

definition typed_response :: "string set \<Rightarrow> (gobj, 'i) response \<Rightarrow> bool" where
  "typed_response names r \<longleftrightarrow>
     gomap_ok (data_of r) \<and>
     (\<forall>(k, v) \<in> set (data_of r). json_value v \<or> \<not> r_IsComplete r \<and> error_report names k v)"

definition typed_result :: "string set \<Rightarrow> (gobj, 'i) response presult \<Rightarrow> bool" where
  "typed_result names res \<longleftrightarrow> (case fst res of None \<Rightarrow> True | Some r \<Rightarrow> typed_response names r)"

lemma typed_simps [simp]:
  "typed_result names (None, e)" "typed_result names (Some r, e) = typed_response names r"
  by (simp_all add: typed_result_def)

lemma typed_incomplete: "typed_response names r \<Longrightarrow> typed_response names (r\<lparr>r_IsComplete := False\<rparr>)"
  by (auto simp: typed_response_def data_of_def)

lemma typed_json: "json_data (r_Data r) \<Longrightarrow> typed_response names r"
  by (cases "r_Data r") (auto simp: typed_response_def data_of_def dest: json_mapD)

lemma typed_parser:
  assumes "default_response_parser gunzip (Some (decoder_register_get js (init_decoder_register js) enc c))
      (format_with T (new_entity_formatter remote)) resp = Some res"
    and "json_decodes js" and "json_tree T"
  shows "typed_result names res"
  using assms(1) registered_decoder_typed [OF assms(2)] json_format [OF _ assms(3)]
  by (auto simp: default_response_parser_def intro!: typed_json split: sum.splits)

lemma typed_named_error:
  "\<not> status_ok resp \<Longrightarrow> name \<in> names \<Longrightarrow> typed_response names
     (named_error_response name (hp_StatusCode resp) (NamedHTTPResponseError (hp_StatusCode resp) msg enc name))"
  by (auto simp: named_error_response_def typed_response_def data_of_def error_report_def status_ok_def)

lemma typed_answer:
  assumes "http_answer (get_status_handler remote) rp resp = Some res"
    and "\<And>res. rp resp = Some res \<Longrightarrow> typed_result names res" and "report_names remote \<subseteq> names"
  shows "typed_result names res"
  using assms
  by (auto simp: get_status_handler_cases http_answer_default http_answer_error http_answer_detailed Let_def
      report_names_def intro!: typed_named_error split: if_splits option.splits gval.splits)

lemma typed_http_proxy:
  assumes "new_http_proxy_with_http_executor T gunzip check print ctx_done remote re
      (Some (decoder_register_get js (init_decoder_register js) enc c)) w r = Ret res r' w'"
    and "json_decodes js" and "json_tree T" and "report_names remote \<subseteq> names"
  shows "typed_result names res"
proof -
  have noop: "typed_result names res" if "http_answer noop_status_handler noop_response_parser resp = Some res" for resp res
    using that by (auto simp: http_answer_def noop_status_handler_def noop_response_parser_def typed_response_def data_of_def)
  note answer = typed_answer [OF _ typed_parser [OF _ assms(2,3)] assms(4)]
  from assms(1) show ?thesis
    unfolding new_http_proxy_with_http_executor_def new_http_proxy_detailed_def
    by (auto split: if_splits option.splits sum.splits prod.splits dest: noop answer)
qed

section \<open>Merging\<close>

lemma write_all_from: "(k, v) \<in> set (write_all a b) \<Longrightarrow> (k, v) \<in> set a \<or> (k, v) \<in> set b"
proof (induction a b rule: write_all.induct)
  case (2 dst k' v' src)
  then show ?case using set_update_subset [of k' v' dst] by auto
qed simp

lemma typed_combine:
  assumes "typed_response names d" and "typed_response names r"
  shows "\<exists>x. fst (combine_data s 2 [Some d, Some r]) = Some x \<and> typed_response names x"
proof -
  have ok: "gomap_ok (data_of r)" "gomap_ok (data_of d)" using assms by (simp_all add: typed_response_def)
  let ?x = "new_response (write_all (data_of d) (data_of r))
    (r_IsComplete d \<and> r_IsComplete r \<and> r_Data d \<noteq> None \<and> r_Data r \<noteq> None)"
  have "typed_response names ?x"
    using assms ok by (auto simp: typed_response_def dest!: write_all_from)
  with combine_two [OF ok(1), of s d] show ?thesis by simp
qed

definition typed_accumulator :: "string set \<Rightarrow> (gobj, 'i) response accumulator \<Rightarrow> bool" where
  "typed_accumulator names i \<longleftrightarrow> (case acc_data i of None \<Rightarrow> True | Some r \<Rightarrow> typed_response names r)"

lemma typed_merge:
  assumes "typed_accumulator names i" and "typed_result names p"
  shows "typed_accumulator names (fst (acc_merge combine_data () p i))"
proof -
  obtain x e where p: "p = (x, e)" by (cases p)
  show ?thesis
  proof (cases "e = None \<and> x \<noteq> None \<and> acc_data i \<noteq> None")
    case True
    then obtain r d where [simp]: "e = None" "x = Some r" "acc_data i = Some d" by blast
    with assms p have "typed_response names d" "typed_response names r" by (simp_all add: typed_accumulator_def)
    from typed_combine [OF this, of "()"] show ?thesis
      by (auto simp: p acc_merge_def typed_accumulator_def Let_def split: prod.split)
  next
    case False
    with assms p show ?thesis
      by (cases e; cases x; cases "acc_data i")
        (auto simp: acc_merge_def typed_accumulator_def Let_def typed_incomplete)
  qed
qed

lemma typed_reach:
  assumes "par_reach res ce is s" and "\<And>i. i \<in> set is \<Longrightarrow> typed_result names (res i)"
  shows "set (pm_running s) \<subseteq> set is \<and> (\<forall>r \<in> set (pm_parts s). typed_response names r) \<and>
    typed_accumulator names (pm_acc s)"
  using assms(1)
proof (induction rule: par_reach.induct)
  case init
  show ?case by (simp add: par_init_def typed_accumulator_def new_incremental_merge_accumulator_def)
next
  case (step s s')
  from step(2,3) show ?case
  proof (cases rule: par_step.cases)
    case (deliver i late r)
    with step(3) assms(2) [of i] show ?thesis
      by (auto simp: request_part_Inr dest: set_remove1_subset [THEN subsetD])
  next
    case (fail i late e)
    with step(3) show ?thesis by (auto dest: set_remove1_subset [THEN subsetD])
  next
    case (receive_error n e es)
    with step(3) show ?thesis by (auto intro: typed_merge)
  next
    case (receive_part n r rs)
    with step(3) show ?thesis by (auto intro: typed_merge)
  qed simp
qed

text \<open>C8. Backends behind HTTP proxies with the decoders of the register, merged in parallel: whatever
  the filters, targets, groups, mappings and flatmap operations of the backends, their statuses, the schedule
  and the deadline, every value at the top of the response that the merger returns is a JSON value, whose maps
  have distinct keys, whose numbers are kept as \<open>json.Number\<close> and which has no other Go value inside at
  any depth; the one exception is the report of an error under \<open>error_\<close> and the name that a backend's
  \<open>return_error_details\<close> gives, which carries a status other than 200 and 201 and that name, and which a
  response marked complete never has.\<close>

theorem merged_response_typed:
  assumes "par_reach res ce is s" and "json_tree T" and "json_decodes js"
    and "\<forall>i \<in> set is. \<exists>enc c w r r' w'.
      new_http_proxy_with_http_executor T gunzip check print ctx_done (remote i) re
        (Some (decoder_register_get js (init_decoder_register js) enc c)) w r = Ret (res i) r' w'"
  shows "case fst (par_result s) of
      None \<Rightarrow> True
    | Some d \<Rightarrow>
        gomap_ok (data_of d) \<and>
        (\<forall>(k, v) \<in> set (data_of d).
           json_value v \<or>
           \<not> r_IsComplete d \<and>
           (\<exists>i \<in> set is. \<exists>name code msg enc.
              vget (VMap (b_ExtraConfig (remote i))) [http_Namespace, ''return_error_details''] = Some (VString name) \<and>
              k = ''error_'' @ name \<and> code \<noteq> 200 \<and> code \<noteq> 201 \<and>
              v = VErr (NamedHTTPResponseError code msg enc name)))"
proof -
  let ?names = "\<Union>i \<in> set is. report_names (remote i)"
  have "typed_result ?names (res i)" if "i \<in> set is" for i
  proof -
    from assms(4) that obtain enc c w r r' w'
      where "new_http_proxy_with_http_executor T gunzip check print ctx_done (remote i) re
        (Some (decoder_register_get js (init_decoder_register js) enc c)) w r = Ret (res i) r' w'" by blast
    from typed_http_proxy [OF this assms(3,2), of ?names] that show ?thesis by blast
  qed
  from typed_reach [OF assms(1) this] have typed: "typed_result ?names (par_result s)"
    by (auto simp: par_result_def acc_result_def typed_accumulator_def typed_incomplete split: option.splits)
  have report: "error_report ?names k v \<longleftrightarrow> (\<exists>i \<in> set is. \<exists>name code msg enc.
      vget (VMap (b_ExtraConfig (remote i))) [http_Namespace, ''return_error_details''] = Some (VString name) \<and>
      k = ''error_'' @ name \<and> code \<noteq> 200 \<and> code \<noteq> 201 \<and>
      v = VErr (NamedHTTPResponseError code msg enc name))" for k v
    unfolding error_report_def report_names_def UN_iff bex_simps mem_Collect_eq by blast
  from typed show ?thesis unfolding typed_result_def typed_response_def report .
qed

definition sample_http_answer :: vresponse where
  "sample_http_answer = \<lparr>r_Data = Some [(''content'', VString ''hi'')], r_IsComplete = True, r_Headers = [],
     r_StatusCode = 0, r_Io = None\<rparr>"

text \<open>One backend that answers in time.\<close>

lemma single_run:
  "\<exists>s. par_reach (\<lambda>i. (Some sample_http_answer, None)) (ErrCtx []) [0] s \<and> par_returns s \<and>
     par_result s = (Some sample_http_answer, None)"
proof -
  let ?res = "\<lambda>i :: nat. (Some sample_http_answer, None) :: vresponse presult"
  let ?R = "par_reach ?res (ErrCtx []) [0]"
  let ?s1 = "(par_init [0])\<lparr>pm_running := [], pm_parts := [sample_http_answer]\<rparr>"
  let ?s2 = "?s1\<lparr>pm_left := 0, pm_parts := [],
    pm_acc := fst (acc_merge combine_data () (Some sample_http_answer, None) (pm_acc ?s1))\<rparr>"
  have "par_step ?res (ErrCtx []) (par_init [0]) ?s1"
    using par_step.deliver [of 0 "par_init [0]" False "ErrCtx []" ?res sample_http_answer]
    by (simp add: par_init_def request_part_def)
  then have one: "?R ?s1" by (rule par_reach.step [OF par_reach.init])
  have "par_step ?res (ErrCtx []) ?s1 ?s2"
    by (rule par_step.receive_part) (simp_all add: par_init_def)
  then have "?R ?s2" by (rule par_reach.step [OF one])
  moreover have "par_returns ?s2" by (simp add: par_returns_def)
  moreover have "par_result ?s2 = (Some sample_http_answer, None)"
    by (simp add: par_result_def par_init_def acc_merge_def acc_result_def new_incremental_merge_accumulator_def
        new_merge_error_def)
  ultimately show ?thesis by blast
qed

theorem merged_response_typed_witness:
  "\<exists>s. par_returns s \<and> par_result s = (Some sample_http_answer, None) \<and>
     (\<forall>(k, v) \<in> set (data_of sample_http_answer). json_value v)"
proof -
  let ?js = "\<lambda>r. Inl ErrNullResult :: goerror + gval"
  from single_run obtain s where run: "par_reach (\<lambda>i. (Some sample_http_answer, None)) (ErrCtx []) [0] s"
    "par_returns s" "par_result s = (Some sample_http_answer, None)" by blast
  have tree: "json_tree sample_flat" by (auto simp: json_tree_def tree_invariant_def sample_flat_def)
  have js: "json_decodes ?js" by (simp add: json_decodes_def)
  have dec: "decoder_register_get ?js (init_decoder_register ?js) STRING False = string_decoder"
    by (simp add: decoder_register_get_init default_decoders_def encoding_names new_string_decoder_def)
  have answer: "new_http_proxy_with_http_executor sample_flat Inr (\<lambda>m u. None) u_rest (\<lambda>w. None) backend_zero
      (\<lambda>w q. (Inr sample_http_response, w))
      (Some (decoder_register_get ?js (init_decoder_register ?js) STRING False)) () sample_request =
      Ret (Some sample_http_answer, None) sample_request ()"
    unfolding dec using sample_proxy_answer by (simp add: sample_proxy_def sample_http_answer_def)
  have backends: "\<forall>i \<in> set [0 :: nat]. \<exists>enc c w r r' w'.
      new_http_proxy_with_http_executor sample_flat Inr (\<lambda>m u. None) u_rest (\<lambda>w :: unit. None) backend_zero
        (\<lambda>w q. (Inr sample_http_response, w))
        (Some (decoder_register_get ?js (init_decoder_register ?js) enc c)) w r = Ret (Some sample_http_answer, None) r' w'"
    by (intro ballI exI) (rule answer)
  from merged_response_typed [OF run(1) tree js backends] run(2,3) show ?thesis
    by (auto simp: sample_http_answer_def)
qed

end
