(* ===== verification/GraphQL.thy ===== *)
theory GraphQL
  imports Middleware
begin

text \<open>
  GraphQL backends: options and extractor (\<open>src/transport/http/client/graphql/graphql.go\<close>) and the
  middleware (\<open>src/proxy/graphql.go\<close>). Parameters stand for \<open>encoding/json\<close> (\<open>opts\<close>, the trip of the
  configuration through JSON into the options; \<open>unmarshal\<close>, which leaves a nil map for \<open>null\<close>;
  \<open>marshal\<close> for a request and \<open>marshal_vars\<close> for its variables), the file system (\<open>read_file\<close>) and
  \<open>x/text/cases\<close> (\<open>title\<close>).
\<close>

section \<open>Options\<close>

record graphql_request =
  gr_Query :: string
  gr_OperationName :: string
  gr_Variables :: gobj

record graphql_options = graphql_request +
  go_QueryPath :: string
  go_Type :: string
  go_Method :: string

definition graphql_Namespace :: string where
  "graphql_Namespace = ''github.com/pucora/lura/v2/transport/http/client/graphql''"

definition err_no_config_found :: goerror where
  "err_no_config_found = ErrMsg ''grapghql: no configuration found''"

definition get_options ::
  "(gval \<Rightarrow> goerror + graphql_options) \<Rightarrow> (string \<Rightarrow> goerror + string) \<Rightarrow> extra_config \<Rightarrow> goerror + graphql_options" where
  "get_options opts read_file cfg =
     (case map_of cfg graphql_Namespace of
        None \<Rightarrow> Inl err_no_config_found
      | Some tmp \<Rightarrow>
          (case opts tmp of
             Inl e \<Rightarrow> Inl e
           | Inr opt \<Rightarrow>
               (let m = to_upper (go_Method opt);
                    opt = opt\<lparr>go_Method := (if m \<noteq> ''GET'' \<and> m \<noteq> ''POST'' then ''POST'' else m),
                              go_Type := to_lower (go_Type opt)\<rparr>
                in if go_QueryPath opt = [] then Inr opt
                   else case read_file (go_QueryPath opt) of
                          Inl e \<Rightarrow> Inl e
                        | Inr q \<Rightarrow> Inr (opt\<lparr>gr_Query := q\<rparr>))))"

section \<open>Extractor\<close>

text \<open>The replacement of a variable. For \<open>{}\<close> the code slices from 2 to 1, a panic (\<open>None\<close>).\<close>

definition placeholder_key :: "(string \<Rightarrow> string) \<Rightarrow> string \<Rightarrow> string option" where
  "placeholder_key title val =
     (if length val - 1 < 2 then None
      else Some (title (take 1 (drop 1 val)) @ take (length val - 3) (drop 2 val)))"

definition is_placeholder :: "string \<Rightarrow> bool" where
  "is_placeholder val \<longleftrightarrow> length val \<ge> 2 \<and> hd val = CHR ''{'' \<and> last val = CHR ''}''"

fun variable_replacements :: "(string \<Rightarrow> string) \<Rightarrow> gobj \<Rightarrow> (string \<times> string) list option" where
  "variable_replacements title [] = Some []"
| "variable_replacements title ((k, v) # vars) =
     (case v of
        VString val \<Rightarrow>
          (if is_placeholder val then
             (case placeholder_key title val of
                None \<Rightarrow> None
              | Some p \<Rightarrow> map_option (\<lambda>rs. (k, p) # rs) (variable_replacements title vars))
           else variable_replacements title vars)
      | _ \<Rightarrow> variable_replacements title vars)"

record extractor =
  ex_cfg :: graphql_options
  ex_replacements :: "(string \<times> string) list"

definition new_extractor :: "(string \<Rightarrow> string) \<Rightarrow> graphql_options \<Rightarrow> extractor option" where
  "new_extractor title opt =
     map_option (\<lambda>rs. \<lparr>ex_cfg = opt, ex_replacements = rs\<rparr>) (variable_replacements title (gr_Variables opt))"

fun replace_variables :: "(string \<times> string) list \<Rightarrow> string gomap \<Rightarrow> gobj \<Rightarrow> gobj" where
  "replace_variables [] params vars = vars"
| "replace_variables ((k, p) # rs) params vars =
     replace_variables rs params
       (AList.update k (VString (case map_of params p of None \<Rightarrow> [] | Some s \<Rightarrow> s)) vars)"

definition param_extractor :: "extractor \<Rightarrow> string gomap \<Rightarrow> graphql_request" where
  "param_extractor e params =
     (if ex_replacements e = [] then graphql_request.truncate (ex_cfg e)
      else \<lparr>gr_Query = gr_Query (ex_cfg e), gr_OperationName = gr_OperationName (ex_cfg e),
            gr_Variables = replace_variables (ex_replacements e) params (write_all [] (gr_Variables (ex_cfg e)))\<rparr>)"

text \<open>\<open>fromBody\<close>; \<open>None\<close> is the panic of writing to a nil map.\<close>

fun default_variables :: "gobj \<Rightarrow> gobj option \<Rightarrow> gobj option option" where
  "default_variables [] vars = Some vars"
| "default_variables ((k, v) # cfg) vars =
     (case vars of
        None \<Rightarrow> None
      | Some m \<Rightarrow>
          (if map_of m k \<noteq> None then default_variables cfg (Some m)
           else default_variables cfg (Some (AList.update k v m))))"

definition from_body ::
  "(string \<Rightarrow> goerror + gobj option) \<Rightarrow> extractor \<Rightarrow> reader \<Rightarrow> (goerror + graphql_request) option" where
  "from_body unmarshal e r =
     (case rd_err r of
        Some err \<Rightarrow> Some (Inl err)
      | None \<Rightarrow>
          (case unmarshal (rd_content r) of
             Inl err \<Rightarrow> Some (Inl err)
           | Inr vars \<Rightarrow>
               map_option (\<lambda>vars. Inr \<lparr>gr_Query = gr_Query (ex_cfg e),
                   gr_OperationName = gr_OperationName (ex_cfg e),
                   gr_Variables = (case vars of None \<Rightarrow> [] | Some m \<Rightarrow> m)\<rparr>)
                 (default_variables (gr_Variables (ex_cfg e)) vars)))"

definition query_values :: "(gobj \<Rightarrow> string) \<Rightarrow> graphql_request \<Rightarrow> string list gomap" where
  "query_values marshal_vars gr =
     [(''query'', [gr_Query gr])] @
     (if gr_OperationName gr \<noteq> [] then [(''operationName'', [gr_OperationName gr])] else []) @
     (if gr_Variables gr \<noteq> [] then [(''variables'', [marshal_vars (gr_Variables gr)])] else [])"

section \<open>Middleware\<close>

definition resolve_graphql_http_method :: "graphql_options \<Rightarrow> backend \<Rightarrow> string" where
  "resolve_graphql_http_method opt remote =
     (case (case ec_map (b_ExtraConfig remote) graphql_Namespace of None \<Rightarrow> None | Some m \<Rightarrow> ec_string m ''method'') of
        Some (c # m) \<Rightarrow> to_upper (c # m)
      | _ \<Rightarrow>
          (if b_Method remote \<noteq> [] then to_upper (b_Method remote)
           else if b_ParentEndpointMethod remote \<noteq> [] then to_upper (b_ParentEndpointMethod remote)
           else if go_Method opt = ''GET'' then ''GET'' else ''POST''))"

text \<open>The request a query or a mutation stands for; a missing body is an empty one.\<close>

definition operation_request ::
  "(string \<Rightarrow> goerror + gobj option) \<Rightarrow> extractor \<Rightarrow> request \<Rightarrow> (goerror + graphql_request) option" where
  "operation_request unmarshal e req =
     (if go_Type (ex_cfg e) = ''mutation'' then
        from_body unmarshal e (case q_Body req of None \<Rightarrow> \<lparr>rd_content = [], rd_err = None\<rparr> | Some b \<Rightarrow> b)
      else Some (Inr (param_extractor e (q_Params req))))"

definition body_reader :: "string \<Rightarrow> reader" where
  "body_reader b = \<lparr>rd_content = b, rd_err = None\<rparr>"

fun set_all :: "string list gomap \<Rightarrow> string list gomap \<Rightarrow> string list gomap" where
  "set_all q [] = q"
| "set_all q ((k, vs) # q') = set_all (fold (\<lambda>v. AList.update k [v]) vs q) q'"

definition graphql_get_request :: "(gobj \<Rightarrow> string) \<Rightarrow> string \<Rightarrow> request \<Rightarrow> graphql_request \<Rightarrow> request" where
  "graphql_get_request marshal_vars method req gr =
     (let query = set_all (q_Query req) (query_values marshal_vars gr)
      in req\<lparr>q_Body := Some (body_reader []), q_Method := method,
             q_Headers := AList.update ''Content-Type'' [''application/json'']
               (AList.update ''Content-Length'' [''0''] (q_Headers req)),
             q_Query := query,
             q_URL := map_option (\<lambda>u. u\<lparr>u_RawQuery := encode_query query\<rparr>) (q_URL req)\<rparr>)"

definition graphql_body_request :: "(graphql_request \<Rightarrow> string) \<Rightarrow> string \<Rightarrow> request \<Rightarrow> graphql_request \<Rightarrow> request" where
  "graphql_body_request marshal method req gr =
     (let b = marshal gr
      in req\<lparr>q_Body := Some (body_reader b), q_Method := method,
             q_Headers := AList.update ''Content-Type'' [''application/json'']
               (AList.update ''Content-Length'' [show_nat (length b)] (q_Headers req))\<rparr>)"

record graphql_env =
  ge_unmarshal :: "string \<Rightarrow> goerror + gobj option"
  ge_marshal :: "graphql_request \<Rightarrow> string"
  ge_marshal_vars :: "gobj \<Rightarrow> string"
  ge_title :: "string \<Rightarrow> string"
  ge_opts :: "gval \<Rightarrow> goerror + graphql_options"
  ge_read_file :: "string \<Rightarrow> goerror + string"

definition graphql_call :: "graphql_env \<Rightarrow> extractor \<Rightarrow> string \<Rightarrow> 'w pipe \<Rightarrow> 'w pipe" where
  "graphql_call env e method next w req =
     (case operation_request (ge_unmarshal env) e req of
        None \<Rightarrow> Panic
      | Some (Inl err) \<Rightarrow> Ret (None, Some err) req w
      | Some (Inr gr) \<Rightarrow>
          next w (if method = ''GET'' then graphql_get_request (ge_marshal_vars env) method req gr
                  else graphql_body_request (ge_marshal env) method req gr))"

text \<open>Building the extractor may panic (\<open>None\<close>) before any proxy is given.\<close>

definition new_graphql_middleware :: "graphql_env \<Rightarrow> backend \<Rightarrow> ('w pipe list \<Rightarrow> 'w pipe built) option" where
  "new_graphql_middleware env remote =
     (case get_options (ge_opts env) (ge_read_file env) (b_ExtraConfig remote) of
        Inl e \<Rightarrow> Some (only_one (\<lambda>p. p))
      | Inr opt \<Rightarrow>
          (case new_extractor (ge_title env) opt of
             None \<Rightarrow> None
           | Some e \<Rightarrow>
               Some (if go_Type opt = ''mutation'' \<or> go_Type opt = ''query''
                     then at_most_one (graphql_call env e (resolve_graphql_http_method opt remote))
                     else only_one (\<lambda>p. p))))"

section \<open>Lemmas\<close>

lemma placeholder_key_None: "is_placeholder val \<Longrightarrow> placeholder_key title val = None \<longleftrightarrow> val = ''{}''"
proof -
  assume ph: "is_placeholder val"
  show ?thesis
  proof (cases "length val = 2")
    case True
    then obtain a b where "val = [a, b]" by (auto simp: length_Suc_conv numeral_2_eq_2)
    with ph show ?thesis by (auto simp: placeholder_key_def is_placeholder_def)
  next
    case False
    with ph show ?thesis by (auto simp: placeholder_key_def is_placeholder_def)
  qed
qed

lemma placeholder_key_empty [simp]: "placeholder_key title ''{}'' = None" "is_placeholder ''{}''"
  by (simp_all add: is_placeholder_def placeholder_key_def)

lemma placeholder_key_Some: "is_placeholder val \<Longrightarrow> val \<noteq> ''{}'' \<Longrightarrow> \<exists>p. placeholder_key title val = Some p"
  using placeholder_key_None [of val title] by auto

lemma variable_replacements_None:
  "variable_replacements title vars = None \<longleftrightarrow> VString ''{}'' \<in> snd ` set vars"
proof (induction vars)
  case (Cons kv vars)
  obtain k v where kv: "kv = (k, v)" by fastforce
  show ?case
  proof (cases v)
    case (VString val)
    show ?thesis
    proof (cases "is_placeholder val \<and> val \<noteq> ''{}''")
      case True
      with placeholder_key_Some [of val title] Cons VString show ?thesis by (auto simp: kv)
    next
      case False
      with Cons VString show ?thesis by (auto simp: kv)
    qed
  qed (use Cons in \<open>simp_all add: kv\<close>)
qed simp

text \<open>What a variable of the configuration becomes: \<open>{name}\<close> the parameter \<open>Name\<close>, anything else is
  itself.\<close>

definition variable_value :: "(string \<Rightarrow> string) \<Rightarrow> string gomap \<Rightarrow> gval \<Rightarrow> gval" where
  "variable_value title params v =
     (case v of
        VString (a # c # rest) \<Rightarrow>
          if a = CHR ''{'' \<and> rest \<noteq> [] \<and> last rest = CHR ''}''
          then VString (case map_of params (title [c] @ butlast rest) of None \<Rightarrow> [] | Some s \<Rightarrow> s) else v
      | _ \<Rightarrow> v)"

lemma variable_value_string:
  assumes "val \<noteq> ''{}''"
  shows "variable_value title params (VString val) =
    (if is_placeholder val
     then VString (case Option.bind (placeholder_key title val) (map_of params) of None \<Rightarrow> [] | Some s \<Rightarrow> s)
     else VString val)"
proof (cases "\<exists>a c d rest. val = a # c # d # rest")
  case True
  then obtain a c rest where val: "val = a # c # rest" and "rest \<noteq> []" by auto
  then have "placeholder_key title val = Some (title [c] @ butlast rest)"
    by (cases rest) (simp_all add: placeholder_key_def butlast_conv_take)
  with val \<open>rest \<noteq> []\<close> show ?thesis by (auto simp: variable_value_def is_placeholder_def)
next
  case False
  with assms show ?thesis
    by (cases val; cases "tl val") (auto simp: variable_value_def is_placeholder_def neq_Nil_conv)
qed

lemma map_of_replace_variables:
  "distinct (map fst rs) \<Longrightarrow>
   map_of (replace_variables rs params vars) k =
     (case map_of rs k of
        None \<Rightarrow> map_of vars k
      | Some p \<Rightarrow> Some (VString (case map_of params p of None \<Rightarrow> [] | Some s \<Rightarrow> s)))"
  by (induction rs params vars rule: replace_variables.induct)
    (auto simp: gomap_simps map_of_eq_None_iff image_iff split: option.split)

lemma variable_replacements_map:
  assumes "variable_replacements title vars = Some rs" and "gomap_ok vars"
  shows "distinct (map fst rs) \<and> fst ` set rs \<subseteq> fst ` set vars \<and>
    (\<forall>k. map_of rs k =
      (case map_of vars k of
         Some (VString val) \<Rightarrow> if is_placeholder val then placeholder_key title val else None
       | _ \<Rightarrow> None))"
  using assms
proof (induction vars arbitrary: rs)
  case (Cons kv vars)
  obtain k v where kv: "kv = (k, v)" by fastforce
  have fresh: "map_of vars k = None" using Cons.prems(2) by (auto simp: kv map_of_eq_None_iff)
  have skip: ?case if "variable_replacements title vars = Some rs"
    and "(case v of VString val \<Rightarrow> if is_placeholder val then placeholder_key title val else None | _ \<Rightarrow> None) = None"
    using Cons.IH [OF that(1)] Cons.prems(2) that(2) fresh
    by (auto simp: kv split: option.splits gval.splits)
  show ?case
  proof (cases "\<exists>val. v = VString val \<and> is_placeholder val")
    case True
    then obtain val where v: "v = VString val" "is_placeholder val" by blast
    with Cons.prems(1) obtain p rs' where p: "placeholder_key title val = Some p" "rs = (k, p) # rs'"
      "variable_replacements title vars = Some rs'" by (auto simp: kv split: option.splits)
    from Cons.IH [OF p(3)] Cons.prems(2) v p fresh show ?thesis
      by (auto simp: kv)
  next
    case False
    with Cons.prems(1) have "variable_replacements title vars = Some rs"
      by (cases v) (auto simp: kv split: if_splits)
    with False show ?thesis by (intro skip) (auto split: gval.splits)
  qed
qed auto

lemma map_of_default_variables:
  assumes "default_variables cfg (Some m) = Some vars"
  shows "\<exists>m'. vars = Some m' \<and> (\<forall>k. map_of m' k = (case map_of m k of Some v \<Rightarrow> Some v | None \<Rightarrow> map_of cfg k))"
  using assms
proof (induction cfg arbitrary: m)
  case (Cons kv cfg)
  obtain k v where kv: "kv = (k, v)" by fastforce
  show ?case
  proof (cases "map_of m k")
    case None
    with Cons.prems have "default_variables cfg (Some (AList.update k v m)) = Some vars" by (simp add: kv)
    from Cons.IH [OF this] obtain m' where m': "vars = Some m'" and
      look: "\<And>k'. map_of m' k' = (case map_of (AList.update k v m) k' of Some v \<Rightarrow> Some v | None \<Rightarrow> map_of cfg k')"
      by blast
    have "map_of m' k' = (case map_of m k' of Some v \<Rightarrow> Some v | None \<Rightarrow> map_of (kv # cfg) k')" for k'
      using None by (cases "k' = k") (simp_all add: look kv gomap_simps split: option.split)
    with m' show ?thesis by blast
  next
    case (Some x)
    with Cons.prems have "default_variables cfg (Some m) = Some vars" by (simp add: kv)
    from Cons.IH [OF this] obtain m' where m': "vars = Some m'" and
      look: "\<And>k'. map_of m' k' = (case map_of m k' of Some v \<Rightarrow> Some v | None \<Rightarrow> map_of cfg k')"
      by blast
    have "map_of m' k' = (case map_of m k' of Some v \<Rightarrow> Some v | None \<Rightarrow> map_of (kv # cfg) k')" for k'
      using Some by (cases "k' = k") (simp_all add: look kv split: option.split)
    with m' show ?thesis by blast
  qed
qed (auto split: option.split)

lemma default_variables_None: "default_variables cfg vars = None \<longleftrightarrow> cfg \<noteq> [] \<and> vars = None"
  by (induction cfg vars rule: default_variables.induct) (auto split: option.splits)

section \<open>Properties\<close>

text \<open>C39. The variables of a GraphQL query: a variable whose configured value is a name in braces takes
  the value of the request parameter of that name (with the first character titled), and the empty
  string when the request has no such parameter; every other variable is sent as configured.\<close>

theorem query_variables:
  assumes "new_extractor title opt = Some e" and "gomap_ok (gr_Variables opt)"
  shows "map_of (gr_Variables (param_extractor e params)) k =
    map_option (variable_value title params) (map_of (gr_Variables opt) k)"
proof -
  from assms(1) obtain rs where rs: "variable_replacements title (gr_Variables opt) = Some rs"
    and e: "e = \<lparr>ex_cfg = opt, ex_replacements = rs\<rparr>" by (auto simp: new_extractor_def)
  note facts = variable_replacements_map [OF rs assms(2)]
  have vars: "map_of (gr_Variables (param_extractor e params)) k = map_of (replace_variables rs params (gr_Variables opt)) k"
    using assms(2) by (simp add: e param_extractor_def graphql_request.truncate_def write_all_Nil)
  have braces: "val \<noteq> ''{}''" if "map_of (gr_Variables opt) k = Some (VString val)" for val
    using that rs variable_replacements_None [of title "gr_Variables opt"] by (force dest: map_of_SomeD)
  have some: "placeholder_key title val \<noteq> None"
    if "map_of (gr_Variables opt) k = Some (VString val)" and "is_placeholder val" for val
    using that rs variable_replacements_None [of title "gr_Variables opt"]
    by (auto simp: image_iff dest!: map_of_SomeD placeholder_key_Some [of val title])
  show ?thesis
    unfolding vars map_of_replace_variables [OF conjunct1 [OF facts]]
    using facts some braces
    by (cases "map_of (gr_Variables opt) k")
       (auto simp: variable_value_string split: gval.split option.split, simp_all add: variable_value_def)
qed

theorem query_variables_witness:
  "map_of (gr_Variables (param_extractor
      \<lparr>ex_cfg = \<lparr>gr_Query = [], gr_OperationName = [], gr_Variables = [(''n'', VInt 1), (''id'', VString ''{user}'')],
         go_QueryPath = [], go_Type = ''query'', go_Method = []\<rparr>, ex_replacements = [(''id'', ''user'')]\<rparr>
      [(''user'', ''7'')])) ''id'' = Some (VString ''7'')"
proof -
  let ?opt = "\<lparr>gr_Query = [], gr_OperationName = [], gr_Variables = [(''n'', VInt 1), (''id'', VString ''{user}'')],
         go_QueryPath = [], go_Type = ''query'', go_Method = []\<rparr>"
  have "new_extractor (\<lambda>s. s) ?opt = Some \<lparr>ex_cfg = ?opt, ex_replacements = [(''id'', ''user'')]\<rparr>" by code_simp
  from query_variables [OF this, of "[(''user'', ''7'')]" "''id''"] show ?thesis
    by (simp add: variable_value_def)
qed

text \<open>The variables of a mutation and the two panics: the keys of the request body win over the
  configured variables, which fill in the missing ones; reading the body panics exactly when the body
  is the JSON value \<open>null\<close> and there are configured variables; building the extractor panics
  exactly when some variable is configured as \<open>{}\<close>.\<close>

theorem mutation_variables:
  "(case from_body unmarshal e r of
      None \<Rightarrow> rd_err r = None \<and> unmarshal (rd_content r) = Inr None \<and> gr_Variables (ex_cfg e) \<noteq> []
    | Some (Inl err) \<Rightarrow> rd_err r = Some err \<or> unmarshal (rd_content r) = Inl err
    | Some (Inr gr) \<Rightarrow>
        (\<exists>vars. unmarshal (rd_content r) = Inr vars \<and>
           (case vars of
              None \<Rightarrow> gr_Variables gr = [] \<and> gr_Variables (ex_cfg e) = []
            | Some m \<Rightarrow> \<forall>k. map_of (gr_Variables gr) k =
                (case map_of m k of Some v \<Rightarrow> Some v | None \<Rightarrow> map_of (gr_Variables (ex_cfg e)) k)))) \<and>
   (new_extractor title opt = None \<longleftrightarrow> VString ''{}'' \<in> snd ` set (gr_Variables opt))"
proof
  show "new_extractor title opt = None \<longleftrightarrow> VString ''{}'' \<in> snd ` set (gr_Variables opt)"
    by (simp add: new_extractor_def variable_replacements_None)
next
  show "case from_body unmarshal e r of
      None \<Rightarrow> rd_err r = None \<and> unmarshal (rd_content r) = Inr None \<and> gr_Variables (ex_cfg e) \<noteq> []
    | Some (Inl err) \<Rightarrow> rd_err r = Some err \<or> unmarshal (rd_content r) = Inl err
    | Some (Inr gr) \<Rightarrow>
        (\<exists>vars. unmarshal (rd_content r) = Inr vars \<and>
           (case vars of
              None \<Rightarrow> gr_Variables gr = [] \<and> gr_Variables (ex_cfg e) = []
            | Some m \<Rightarrow> \<forall>k. map_of (gr_Variables gr) k =
                (case map_of m k of Some v \<Rightarrow> Some v | None \<Rightarrow> map_of (gr_Variables (ex_cfg e)) k)))"
  proof (cases "rd_err r")
    case (Some err)
    then show ?thesis by (simp add: from_body_def)
  next
    case None
    show ?thesis
    proof (cases "unmarshal (rd_content r)")
      case (Inl err)
      with None show ?thesis by (simp add: from_body_def)
    next
      case (Inr vars)
      show ?thesis
      proof (cases "default_variables (gr_Variables (ex_cfg e)) vars")
        case dv: None
        then have "vars = None" and "gr_Variables (ex_cfg e) \<noteq> []" by (simp_all add: default_variables_None)
        with None Inr dv show ?thesis by (simp add: from_body_def)
      next
        case (Some vars')
        show ?thesis
        proof (cases vars)
          case nil: None
          with Some have "gr_Variables (ex_cfg e) = []" by (metis default_variables_None option.distinct(1))
          with None Inr Some nil show ?thesis by (simp add: from_body_def)
        next
          case (Some m)
          with \<open>default_variables _ vars = Some vars'\<close> None Inr map_of_default_variables [of _ m vars'] show ?thesis
            by (fastforce simp: from_body_def)
        qed
      qed
    qed
  qed
qed

text \<open>With the method GET the raw query of the backend's URL is replaced, and whatever the URL pattern had
  there is gone.\<close>

lemma graphql_get_replaces_query:
  "q_URL req = Some u \<Longrightarrow>
   q_URL (graphql_get_request mv ''GET'' req gr) =
     Some (u\<lparr>u_RawQuery := encode_query (set_all (q_Query req) (query_values mv gr))\<rparr>)"
  by (simp add: graphql_get_request_def Let_def)

end
