(* ===== verification/Concurrent.thy ===== *)
theory Concurrent
  imports Middleware ParallelMerge
begin

text \<open>
  The concurrent middleware (\<open>src/proxy/concurrent.go\<close>): the same request is sent \<open>n\<close> times and the
  first complete response wins. As in \<open>ParallelMerge\<close>, a run is a sequence of steps: \<open>res i\<close> is what
  the \<open>i\<close>-th call returns, while the order of deliveries and receipts, the deadline, the cancellation
  of the caller's context and the choices of the \<open>select\<close> statements are left open.
\<close>

section \<open>Setting up\<close>

definition concurrent_timeout :: "backend \<Rightarrow> duration" where
  "concurrent_timeout remote = int_quot (75 * b_Timeout remote) 100"

text \<open>One concurrent call is a fatal configuration error.\<close>

definition new_concurrent_middleware ::
  "backend \<Rightarrow> 'w pipe list \<Rightarrow> (duration \<times> int \<times> 'w pipe) built" where
  "new_concurrent_middleware remote next =
     (if b_ConcurrentCalls remote = 1 then BFatal
      else at_most_one (\<lambda>p. (concurrent_timeout remote, b_ConcurrentCalls remote, p)) next)"

text \<open>The requests: clones, and the original for the last call.\<close>

fun concurrent_requests :: "(url \<Rightarrow> url option) \<Rightarrow> nat \<Rightarrow> request \<Rightarrow> request list" where
  "concurrent_requests reparse 0 r = []"
| "concurrent_requests reparse (Suc 0) r = [r]"
| "concurrent_requests reparse (Suc (Suc n)) r =
     (case clone_request reparse r of (c, r') \<Rightarrow> c # concurrent_requests reparse (Suc n) r')"

section \<open>States and steps\<close>

text \<open>\<open>processConcurrentCall\<close>: what a call delivers; \<open>late\<close> is the branch of its \<open>select\<close>.\<close>

definition process_concurrent_call :: "bool \<Rightarrow> goerror \<Rightarrow> 'r presult \<Rightarrow> goerror + 'r" where
  "process_concurrent_call late ce res =
     (case res of
        (_, Some e) \<Rightarrow> Inl e
      | (None, None) \<Rightarrow> Inl ErrNullResult
      | (Some r, None) \<Rightarrow> if late then Inl ce else Inr r)"

record 'i cc_state =
  cc_running :: "nat list"
  cc_results :: "(gobj, 'i) response list"         \<comment> \<open>the channel \<open>results\<close>\<close>
  cc_failed :: "goerror list"                      \<comment> \<open>the channel \<open>failed\<close>\<close>
  cc_left :: nat                                   \<comment> \<open>iterations left of the receive loop\<close>
  cc_response :: "(gobj, 'i) response option"
  cc_err :: "goerror option"
  cc_timedout :: bool                              \<comment> \<open>\<open>localCtx\<close> was done before the proxy returned\<close>
  cc_parent :: bool                                \<comment> \<open>\<open>ctx\<close> was done before the proxy returned\<close>
  cc_returned :: "(gobj, 'i) response presult option"

definition cc_init :: "nat \<Rightarrow> 'i cc_state" where
  "cc_init n =
     \<lparr>cc_running = [0..<n], cc_results = [], cc_failed = [], cc_left = n, cc_response = None,
      cc_err = None, cc_timedout = False, cc_parent = False, cc_returned = None\<rparr>"

text \<open>The context of the calls is also done once the proxy has returned, which cancels it.\<close>

definition cc_local_done :: "'i cc_state \<Rightarrow> bool" where
  "cc_local_done s \<longleftrightarrow> cc_timedout s \<or> cc_returned s \<noteq> None"

inductive cc_step ::
  "(nat \<Rightarrow> (gobj, 'i) response presult) \<Rightarrow> goerror \<Rightarrow> 'i cc_state \<Rightarrow> 'i cc_state \<Rightarrow> bool"
  for res :: "nat \<Rightarrow> (gobj, 'i) response presult" and ce :: goerror where
  deliver:
    "i \<in> set (cc_running s) \<Longrightarrow> process_concurrent_call late ce (res i) = Inr r \<Longrightarrow> (late \<Longrightarrow> cc_local_done s) \<Longrightarrow>
     cc_step res ce s (s\<lparr>cc_running := remove1 i (cc_running s), cc_results := cc_results s @ [r]\<rparr>)"
| fail:
    "i \<in> set (cc_running s) \<Longrightarrow> process_concurrent_call late ce (res i) = Inl e \<Longrightarrow> (late \<Longrightarrow> cc_local_done s) \<Longrightarrow>
     cc_step res ce s (s\<lparr>cc_running := remove1 i (cc_running s), cc_failed := cc_failed s @ [e]\<rparr>)"
| deadline:
    "cc_returned s = None \<Longrightarrow> \<not> cc_timedout s \<Longrightarrow> cc_step res ce s (s\<lparr>cc_timedout := True\<rparr>)"
| cancel:
    "cc_returned s = None \<Longrightarrow> \<not> cc_parent s \<Longrightarrow>
     cc_step res ce s (s\<lparr>cc_timedout := True, cc_parent := True\<rparr>)"
| receive_complete:
    "cc_returned s = None \<Longrightarrow> cc_left s = Suc n \<Longrightarrow> cc_results s = r # rs \<Longrightarrow> r_IsComplete r \<Longrightarrow>
     cc_step res ce s (s\<lparr>cc_results := rs, cc_returned := Some (Some r, None)\<rparr>)"
| receive_partial:
    "cc_returned s = None \<Longrightarrow> cc_left s = Suc n \<Longrightarrow> cc_results s = r # rs \<Longrightarrow> \<not> r_IsComplete r \<Longrightarrow>
     cc_step res ce s (s\<lparr>cc_left := n, cc_results := rs, cc_response := Some r\<rparr>)"
| receive_error:
    "cc_returned s = None \<Longrightarrow> cc_left s = Suc n \<Longrightarrow> cc_failed s = e # es \<Longrightarrow>
     cc_step res ce s (s\<lparr>cc_left := n, cc_failed := es, cc_err := Some e\<rparr>)"
| receive_done:
    "cc_returned s = None \<Longrightarrow> cc_left s = Suc n \<Longrightarrow> cc_parent s \<Longrightarrow> cc_step res ce s (s\<lparr>cc_left := n\<rparr>)"
| finish:
    "cc_returned s = None \<Longrightarrow> cc_left s = 0 \<Longrightarrow>
     cc_step res ce s (s\<lparr>cc_returned := Some (cc_response s, cc_err s)\<rparr>)"

inductive cc_reach ::
  "(nat \<Rightarrow> (gobj, 'i) response presult) \<Rightarrow> goerror \<Rightarrow> nat \<Rightarrow> 'i cc_state \<Rightarrow> bool"
  for res :: "nat \<Rightarrow> (gobj, 'i) response presult" and ce :: goerror and n :: nat where
  init: "cc_reach res ce n (cc_init n)"
| step: "cc_reach res ce n s \<Longrightarrow> cc_step res ce s s' \<Longrightarrow> cc_reach res ce n s'"

section \<open>The invariant\<close>

text \<open>What the variables \<open>response\<close> and \<open>err\<close> hold after receiving the outcomes in the list.\<close>

fun cc_vars :: "(goerror + 'r) list \<Rightarrow> 'r option \<times> goerror option" where
  "cc_vars [] = (None, None)"
| "cc_vars (out # before) =
     (case cc_vars before of (resp, err) \<Rightarrow>
        (case out of Inl e \<Rightarrow> (resp, Some e) | Inr r \<Rightarrow> (Some r, err)))"

definition cc_inv ::
  "(nat \<Rightarrow> (gobj, 'i) response presult) \<Rightarrow> goerror \<Rightarrow> nat \<Rightarrow> 'i cc_state \<Rightarrow>
   (nat \<times> bool) list \<Rightarrow> (goerror + (gobj, 'i) response) list \<Rightarrow> nat \<Rightarrow> bool" where
  "cc_inv res ce n s served outs skipped \<longleftrightarrow>
     mset (map fst served) + mset (cc_running s) = mset [0..<n] \<and>
     mset outs + image_mset Inr (mset (cc_results s)) + image_mset Inl (mset (cc_failed s)) =
       mset (served_outcomes res ce served) \<and>
     cc_left s + length outs + skipped = n \<and> (skipped \<noteq> 0 \<longrightarrow> cc_parent s) \<and>
     (cc_parent s \<longrightarrow> cc_timedout s) \<and>
     (\<not> cc_timedout s \<longrightarrow> (\<forall>x \<in> set served. \<not> snd x)) \<and>
     (\<forall>r. Inr r \<in> set outs \<longrightarrow> \<not> r_IsComplete r) \<and>
     cc_vars outs = (cc_response s, cc_err s)"

lemma process_concurrent_call_eq: "process_concurrent_call = request_part"
  by (intro ext) (simp add: process_concurrent_call_def request_part_def split: option.split prod.split)

lemma cc_inv_init: "cc_inv res ce n (cc_init n) [] [] 0"
  by (simp add: cc_inv_def cc_init_def served_outcomes_def)

lemma cc_inv_step:
  assumes "cc_step res ce s s'" and "cc_inv res ce n s served outs skipped" and "cc_returned s = None"
    and "cc_returned s' = None"
  shows "\<exists>served' outs' skipped'. cc_inv res ce n s' served' outs' skipped'"
  using assms
proof (induction rule: cc_step.cases)
  case (deliver i s late r)
  then have "cc_inv res ce n s' (served @ [(i, late)]) outs skipped"
    by (auto simp: cc_inv_def served_outcomes_def mset_serve process_concurrent_call_eq cc_local_done_def
        simp del: mset_remove1)
  then show ?case by blast
next
  case (fail i s late e)
  then have "cc_inv res ce n s' (served @ [(i, late)]) outs skipped"
    by (auto simp: cc_inv_def served_outcomes_def mset_serve process_concurrent_call_eq cc_local_done_def
        simp del: mset_remove1)
  then show ?case by blast
next
  case (deadline s)
  then have "cc_inv res ce n s' served outs skipped" by (auto simp: cc_inv_def)
  then show ?case by blast
next
  case (cancel s)
  then have "cc_inv res ce n s' served outs skipped" by (simp add: cc_inv_def)
  then show ?case by blast
next
  case (receive_partial s m r rs)
  then have "cc_inv res ce n s' served (Inr r # outs) skipped"
    by (auto simp: cc_inv_def)
  then show ?case by blast
next
  case (receive_error s m e es)
  then have "cc_inv res ce n s' served (Inl e # outs) skipped"
    by (auto simp: cc_inv_def)
  then show ?case by blast
next
  case (receive_done s m)
  then have "cc_inv res ce n s' served outs (Suc skipped)"
    by (auto simp: cc_inv_def)
  then show ?case by blast
qed auto

text \<open>Once the proxy has returned, its result stays.\<close>

lemma cc_step_returned:
  assumes "cc_step res ce s s'" and "cc_returned s = Some x"
  shows "cc_returned s' = Some x \<and> cc_timedout s' = cc_timedout s \<and> cc_parent s' = cc_parent s"
  using assms by (cases rule: cc_step.cases) auto

lemma cc_step_flags:
  assumes "cc_step res ce s s'" and "cc_returned s = None" and "cc_returned s' \<noteq> None"
  shows "cc_timedout s' = cc_timedout s \<and>
    ((\<exists>n r rs. cc_left s = Suc n \<and> cc_results s = r # rs \<and> r_IsComplete r \<and> cc_returned s' = Some (Some r, None)) \<or>
     cc_left s = 0 \<and> cc_returned s' = Some (cc_response s, cc_err s))"
  using assms by (cases rule: cc_step.cases) auto

text \<open>Every reachable state is before the return and satisfies the invariant, or a state that does
  returned just now or earlier.\<close>

lemma cc_inv_reach:
  "cc_reach res ce n s \<Longrightarrow>
   (case cc_returned s of
      None \<Rightarrow> \<exists>served outs skipped. cc_inv res ce n s served outs skipped
    | Some x \<Rightarrow> \<exists>t served outs skipped. cc_inv res ce n t served outs skipped \<and> cc_returned t = None \<and>
        cc_timedout t = cc_timedout s \<and>
        ((\<exists>m r rs. cc_left t = Suc m \<and> cc_results t = r # rs \<and> r_IsComplete r \<and> x = (Some r, None)) \<or>
         cc_left t = 0 \<and> x = (cc_response t, cc_err t)))"
proof (induction rule: cc_reach.induct)
  case init
  then show ?case using cc_inv_init by (fastforce simp: cc_init_def)
next
  case (step s s')
  show ?case
  proof (cases "cc_returned s")
    case None
    with step.IH obtain served outs skipped where inv: "cc_inv res ce n s served outs skipped" by auto
    show ?thesis
    proof (cases "cc_returned s'")
      case None': None
      from cc_inv_step [OF step.hyps(2) inv None None'] None' show ?thesis by simp
    next
      case (Some x)
      with cc_step_flags [OF step.hyps(2) None] inv None show ?thesis by fastforce
    qed
  next
    case (Some x)
    from cc_step_returned [OF step.hyps(2) Some] step.IH Some show ?thesis by simp
  qed
qed

lemma cc_vars_spec:
  "cc_vars outs = (resp, err) \<Longrightarrow>
   (case resp of None \<Rightarrow> \<forall>r. Inr r \<notin> set outs | Some r \<Rightarrow> Inr r \<in> set outs) \<and>
   (case err of None \<Rightarrow> \<forall>e. Inl e \<notin> set outs | Some e \<Rightarrow> Inl e \<in> set outs)"
proof (induction outs arbitrary: resp err)
  case (Cons out outs)
  obtain a b where ab: "cc_vars outs = (a, b)" by fastforce
  with Cons.prems have "(resp, err) = (case out of Inl e \<Rightarrow> (a, Some e) | Inr r \<Rightarrow> (Some r, b))" by simp
  with Cons.IH [OF ab] show ?case by (cases out) (auto split: option.splits)
qed auto

lemma served_range:
  "mset (map fst served) + mset running = mset [0..<n] \<Longrightarrow> (i, late) \<in> set served \<Longrightarrow> i < n"
proof -
  assume m: "mset (map fst served) + mset running = mset [0..<n]" and i: "(i, late) \<in> set served"
  have "set (map fst served) \<union> set running = {0..<n}"
    using arg_cong [OF m, of set_mset] by simp
  with i show "i < n" by force
qed

lemma cc_outs_calls:
  assumes "cc_inv res ce n s served outs skipped"
    and "Inr r \<in> set outs \<or> r \<in> set (cc_results s)"
  shows "\<exists>i<n. res i = (Some r, None)"
proof -
  have "set outs \<union> Inr ` set (cc_results s) \<union> Inl ` set (cc_failed s) = set (served_outcomes res ce served)"
    using assms(1) arg_cong [of _ _ set_mset] unfolding cc_inv_def
    by (metis set_image_mset set_mset_mset set_mset_union)
  with assms(2) have "Inr r \<in> set (served_outcomes res ce served)" by blast
  then obtain i where "(i, False) \<in> set served" "res i = (Some r, None)" by (auto simp: served_ok)
  with assms(1) served_range [of served "cc_running s" n i] show ?thesis by (auto simp: cc_inv_def)
qed

text \<open>At the end of the loop, with no deadline passed, the outcome of every call has been received.\<close>

lemma cc_all_received:
  assumes inv: "cc_inv res ce n s served outs skipped" and "cc_left s = 0" and "\<not> cc_timedout s"
  shows "set outs = (\<lambda>i. request_part False ce (res i)) ` {0..<n}"
proof -
  have len: "length outs = n" using assms by (auto simp: cc_inv_def)
  have "size (mset (map fst served) + mset (cc_running s)) = n"
    using inv by (metis cc_inv_def size_mset length_upt diff_zero)
  then have a: "length served + length (cc_running s) = n" by simp
  have "size (mset outs + image_mset Inr (mset (cc_results s)) + image_mset Inl (mset (cc_failed s))) =
      length served"
    using inv by (metis cc_inv_def size_mset length_map served_outcomes_def)
  then have "length outs + length (cc_results s) + length (cc_failed s) = length served" by simp
  with a len have "length (cc_running s) = 0 \<and> length (cc_results s) = 0 \<and> length (cc_failed s) = 0"
    by linarith
  then have empty: "cc_running s = [] \<and> cc_results s = [] \<and> cc_failed s = []" by simp
  with inv have "mset outs = mset (served_outcomes res ce served)" by (simp add: cc_inv_def)
  then have "set outs = set (served_outcomes res ce served)" by (rule mset_eq_setD)
  moreover have "\<forall>x \<in> set served. x = (fst x, False)"
    using inv assms(3) by (auto simp: cc_inv_def)
  then have "served_outcomes res ce served = map (\<lambda>i. request_part False ce (res i)) (map fst served)"
    by (auto simp: served_outcomes_def split_beta)
  moreover have "set (map fst served) = {0..<n}"
    using inv empty by (metis cc_inv_def add.right_neutral mset.simps(1) mset_eq_setD set_upt)
  ultimately show ?thesis by (simp only: set_map)
qed

section \<open>Properties\<close>

lemma concurrent_result:
  assumes "cc_reach res ce n s" and "cc_returned s = Some (resp, err)"
  shows "(\<forall>r. resp = Some r \<longrightarrow> (\<exists>i<n. res i = (Some r, None))) \<and>
    (resp \<noteq> None \<and> r_IsComplete (the resp) \<longrightarrow> err = None) \<and>
    (\<not> cc_timedout s \<longrightarrow>
      ((\<exists>r. resp = Some r \<and> r_IsComplete r) \<or>
       (\<forall>i<n. \<forall>r. res i = (Some r, None) \<longrightarrow> \<not> r_IsComplete r) \<and>
       (resp = None \<longleftrightarrow> (\<forall>i<n. \<forall>r. res i \<noteq> (Some r, None))) \<and>
       (case err of None \<Rightarrow> \<forall>i<n. \<exists>r. res i = (Some r, None)
        | Some e \<Rightarrow> \<exists>i<n. request_part False ce (res i) = Inl e)))"
proof -
  from cc_inv_reach [OF assms(1)] assms(2) obtain t served outs skipped where
    inv: "cc_inv res ce n t served outs skipped" and time: "cc_timedout t = cc_timedout s" and
    how: "(\<exists>m r rs. cc_left t = Suc m \<and> cc_results t = r # rs \<and> r_IsComplete r \<and> (resp, err) = (Some r, None)) \<or>
      cc_left t = 0 \<and> (resp, err) = (cc_response t, cc_err t)"
    by auto
  from how show ?thesis
  proof (elim disjE exE conjE)
    fix m r rs
    assume "cc_results t = r # rs" "r_IsComplete r" "(resp, err) = (Some r, None)"
    with cc_outs_calls [OF inv, of r] show ?thesis by auto
  next
    assume left: "cc_left t = 0" and r: "(resp, err) = (cc_response t, cc_err t)"
    have vars: "cc_vars outs = (resp, err)" and part: "\<forall>r. Inr r \<in> set outs \<longrightarrow> \<not> r_IsComplete r"
      using inv r by (auto simp: cc_inv_def)
    note spec = cc_vars_spec [OF vars]
    have origin: "\<forall>r. resp = Some r \<longrightarrow> (\<exists>i<n. res i = (Some r, None)) \<and> \<not> r_IsComplete r"
      using spec part cc_outs_calls [OF inv] by (auto split: option.splits)
    have "\<not> cc_timedout s \<longrightarrow>
       (\<forall>i<n. \<forall>r. res i = (Some r, None) \<longrightarrow> \<not> r_IsComplete r) \<and>
       (resp = None \<longleftrightarrow> (\<forall>i<n. \<forall>r. res i \<noteq> (Some r, None))) \<and>
       (case err of None \<Rightarrow> \<forall>i<n. \<exists>r. res i = (Some r, None)
        | Some e \<Rightarrow> \<exists>i<n. request_part False ce (res i) = Inl e)"
    proof
      assume "\<not> cc_timedout s"
      with time have outs: "set outs = (\<lambda>i. request_part False ce (res i)) ` {0..<n}"
        by (intro cc_all_received [OF inv left]) simp
      have ok: "Inr r \<in> set outs \<longleftrightarrow> (\<exists>i<n. res i = (Some r, None))" for r
        unfolding outs by (auto simp: request_part_Inr image_iff eq_commute [of "Inr r"])
      have bad: "Inl e \<in> set outs \<longleftrightarrow> (\<exists>i<n. request_part False ce (res i) = Inl e)" for e
        unfolding outs by (auto simp: image_iff eq_commute [of "Inl e"])
      have "(\<forall>i<n. \<exists>r. res i = (Some r, None))" if "\<forall>e. Inl e \<notin> set outs"
      proof (intro allI impI)
        fix i assume "i < n"
        with that bad obtain r where "request_part False ce (res i) = Inr r"
          by (cases "request_part False ce (res i)") blast+
        then show "\<exists>r. res i = (Some r, None)" by (auto simp: request_part_Inr)
      qed
      with spec ok bad part show "(\<forall>i<n. \<forall>r. res i = (Some r, None) \<longrightarrow> \<not> r_IsComplete r) \<and>
         (resp = None \<longleftrightarrow> (\<forall>i<n. \<forall>r. res i \<noteq> (Some r, None))) \<and>
         (case err of None \<Rightarrow> \<forall>i<n. \<exists>r. res i = (Some r, None)
          | Some e \<Rightarrow> \<exists>i<n. request_part False ce (res i) = Inl e)"
        by (auto split: option.splits)
    qed
    with origin show ?thesis by auto
  qed
qed

text \<open>C15. The first complete response wins: a response the concurrent middleware returns is one that a
  call returned, and a complete one comes without an error. If no deadline passed, then a complete
  response is returned unless no call gave one; the proxy then returns a response if some call gave
  one, and an error, that of a call, if some call failed.\<close>

theorem concurrent_correct:
  assumes "cc_reach res ce n s" and "cc_returned s = Some (resp, err)"
  shows "(\<forall>r. resp = Some r \<longrightarrow> (\<exists>i<n. res i = (Some r, None))) \<and>
    (resp \<noteq> None \<and> r_IsComplete (the resp) \<longrightarrow> err = None) \<and>
    (\<not> cc_timedout s \<longrightarrow>
      ((\<exists>r. resp = Some r \<and> r_IsComplete r) \<or>
       (\<forall>i<n. \<forall>r. res i = (Some r, None) \<longrightarrow> \<not> r_IsComplete r) \<and>
       (resp = None \<longleftrightarrow> (\<forall>i<n. \<forall>r. res i \<noteq> (Some r, None))) \<and>
       (case err of None \<Rightarrow> \<forall>i<n. \<exists>r. res i = (Some r, None)
        | Some e \<Rightarrow> \<exists>i<n. request_part False ce (res i) = Inl e)))"
  by (rule concurrent_result [OF assms])

text \<open>Two calls, of which the first fails and the second answers.\<close>

definition sample_answer :: vresponse where
  "sample_answer = \<lparr>r_Data = Some [], r_IsComplete = True, r_Headers = [], r_StatusCode = 200, r_Io = None\<rparr>"

definition sample_calls :: "nat \<Rightarrow> vresponse presult" where
  "sample_calls i = (if i = 0 then (None, Some ErrNoHosts) else (Some sample_answer, None))"

lemma sample_race:
  "\<exists>s. cc_reach sample_calls (ErrCtx []) 2 s \<and> cc_returned s = Some (Some sample_answer, None)"
proof -
  let ?s0 = "cc_init 2 :: reader cc_state"
  let ?s1 = "?s0\<lparr>cc_running := [1], cc_failed := [ErrNoHosts]\<rparr>"
  let ?s2 = "?s1\<lparr>cc_running := [], cc_results := [sample_answer]\<rparr>"
  let ?s3 = "?s2\<lparr>cc_left := 1, cc_failed := [], cc_err := Some ErrNoHosts\<rparr>"
  let ?s4 = "?s3\<lparr>cc_results := [], cc_returned := Some (Some sample_answer, None)\<rparr>"
  have up: "[0..<2] = [0, 1 :: nat]" by (simp add: upt_rec)
  have 1: "cc_step sample_calls (ErrCtx []) ?s0 ?s1"
    using cc_step.fail [of 0 ?s0 False "ErrCtx []" sample_calls ErrNoHosts]
    by (simp add: cc_init_def sample_calls_def process_concurrent_call_def up)
  have 2: "cc_step sample_calls (ErrCtx []) ?s1 ?s2"
    using cc_step.deliver [of 1 ?s1 False "ErrCtx []" sample_calls sample_answer]
    by (simp add: cc_init_def sample_calls_def process_concurrent_call_def)
  have 3: "cc_step sample_calls (ErrCtx []) ?s2 ?s3"
    using cc_step.receive_error [of ?s2 1 ErrNoHosts "[]" sample_calls "ErrCtx []"]
    by (simp add: cc_init_def)
  have 4: "cc_step sample_calls (ErrCtx []) ?s3 ?s4"
    using cc_step.receive_complete [of ?s3 0 sample_answer "[]" sample_calls "ErrCtx []"]
    by (simp add: cc_init_def sample_answer_def)
  have reach: "cc_reach sample_calls (ErrCtx []) 2 ?s4"
    by (rule cc_reach.step [OF cc_reach.step [OF cc_reach.step [OF cc_reach.step [OF cc_reach.init 1] 2] 3] 4])
  show ?thesis by (rule exI, rule conjI, rule reach, simp)
qed

theorem concurrent_correct_witness:
  "\<exists>i<2. sample_calls i = (Some sample_answer, None)"
proof -
  from sample_race obtain s where "cc_reach sample_calls (ErrCtx []) 2 s"
    and "cc_returned s = Some (Some sample_answer, None)" by blast
  from concurrent_correct [OF this] show ?thesis by blast
qed

section \<open>Progress\<close>

definition cc_measure :: "'i cc_state \<Rightarrow> nat" where
  "cc_measure s = length (cc_running s) + cc_left s + (if cc_timedout s then 0 else 1) +
     (if cc_parent s then 0 else 1) + (if cc_returned s = None then 1 else 0)"

lemma cc_step_measure: "cc_step res ce s s' \<Longrightarrow> cc_measure s' < cc_measure s"
  by (induction rule: cc_step.induct)
    (auto simp: cc_measure_def length_remove1 dest: length_pos_if_in_set)

lemma cc_progress:
  assumes inv: "cc_inv res ce n s served outs skipped" and none: "cc_returned s = None"
  shows "\<exists>s'. cc_step res ce s s'"
proof (cases "cc_running s")
  case (Cons i rest)
  then have "i \<in> set (cc_running s)" by simp
  then show ?thesis
    by (cases "process_concurrent_call False ce (res i)") (blast intro: cc_step.fail cc_step.deliver)+
next
  case Nil
  show ?thesis
  proof (cases "cc_left s")
    case 0
    with none show ?thesis by (blast intro: cc_step.finish)
  next
    case (Suc m)
    have "size (mset (map fst served) + mset (cc_running s)) = n"
      using inv by (metis cc_inv_def size_mset length_upt diff_zero)
    then have "length served = n" using Nil by simp
    moreover have "size (mset outs + image_mset Inr (mset (cc_results s)) + image_mset Inl (mset (cc_failed s))) =
        length served"
      using inv by (metis cc_inv_def size_mset length_map served_outcomes_def)
    ultimately have "length (cc_results s) + length (cc_failed s) = cc_left s + skipped"
      using inv by (simp add: cc_inv_def)
    with Suc consider r rs where "cc_results s = r # rs" | e es where "cc_failed s = e # es"
      by (cases "cc_results s"; cases "cc_failed s") auto
    then show ?thesis
      by cases (metis none Suc cc_step.receive_complete cc_step.receive_partial,
        metis none Suc cc_step.receive_error)
  qed
qed

lemma cc_sequence:
  assumes "\<forall>k < N. cc_step res ce (f k) (f (Suc k))" and "f 0 = cc_init n"
  shows "cc_reach res ce n (f N) \<and> cc_measure (f N) + N \<le> cc_measure (f 0)"
  using assms(1)
proof (induction N)
  case 0
  show ?case using assms(2) by (simp add: cc_reach.init)
next
  case (Suc N)
  then have "cc_reach res ce n (f N) \<and> cc_measure (f N) + N \<le> cc_measure (f 0)"
    and step: "cc_step res ce (f N) (f (Suc N))" by simp_all
  with cc_step_measure [OF step] show ?case by (auto intro: cc_reach.step)
qed

text \<open>C16. The concurrent middleware always answers: in every schedule, after at most \<open>2 n + 3\<close> steps
  (deliveries of the calls left over included) nothing more happens, and as long as the proxy has
  not returned some step is possible.\<close>

theorem concurrent_answers:
  assumes "\<forall>k < N. cc_step res ce (f k) (f (Suc k))" and "f 0 = cc_init n"
  shows "N \<le> 2 * n + 3 \<and> (cc_returned (f N) \<noteq> None \<or> (\<exists>s'. cc_step res ce (f N) s'))"
proof
  note seq = cc_sequence [OF assms]
  then show "N \<le> 2 * n + 3"
    using assms(2) by (simp add: cc_measure_def cc_init_def)
  show "cc_returned (f N) \<noteq> None \<or> (\<exists>s'. cc_step res ce (f N) s')"
    using cc_inv_reach [of res ce n "f N"] seq cc_progress by (auto split: option.splits)
qed

theorem concurrent_answers_witness:
  "1 \<le> 2 * 2 + (3 :: nat) \<and>
   (\<exists>s'. cc_step sample_calls (ErrCtx []) ((cc_init 2)\<lparr>cc_timedout := True\<rparr>) s')"
proof -
  let ?f = "\<lambda>k. if k = 0 then cc_init 2 else (cc_init 2 :: reader cc_state)\<lparr>cc_timedout := True\<rparr>"
  have "cc_step sample_calls (ErrCtx []) (?f 0) (?f (Suc 0))"
    using cc_step.deadline [of "cc_init 2 :: reader cc_state" sample_calls "ErrCtx []"]
    by (simp add: cc_init_def)
  then show ?thesis
    using concurrent_answers [of 1 sample_calls "ErrCtx []" ?f 2] by (simp add: cc_init_def)
qed

text \<open>A caller that gives up can be told neither a response nor an error.\<close>

lemma cancelled_is_nil:
  "\<exists>s. cc_reach res ce 1 s \<and> cc_returned s = Some (None, None)"
proof -
  let ?s0 = "cc_init 1" and ?s1 = "(cc_init 1)\<lparr>cc_timedout := True, cc_parent := True\<rparr>"
  have 1: "cc_step res ce ?s0 ?s1" by (rule cc_step.cancel) (simp_all add: cc_init_def)
  have 2: "cc_step res ce ?s1 (?s1\<lparr>cc_left := 0\<rparr>)" by (rule cc_step.receive_done) (simp_all add: cc_init_def)
  have 3: "cc_step res ce (?s1\<lparr>cc_left := 0\<rparr>) (?s1\<lparr>cc_left := 0, cc_returned := Some (None, None)\<rparr>)"
    using cc_step.finish [of "?s1\<lparr>cc_left := 0\<rparr>" res ce] by (simp add: cc_init_def)
  let ?s2 = "?s1\<lparr>cc_left := 0\<rparr>"
  have reach: "cc_reach res ce 1 (?s2\<lparr>cc_returned := Some (None, None)\<rparr>)"
    by (rule cc_reach.step [OF cc_reach.step [OF cc_reach.step [OF cc_reach.init 1] 2]]) (use 3 in simp)
  show ?thesis by (rule exI, rule conjI, rule reach, simp)
qed

end
