(* ===== verification/Factory.thy ===== *)
theory Factory
  imports HttpProxy GraphQL Concurrent
begin

text \<open>
  The proxy factories: the stack of middlewares around a backend and around an endpoint
  (\<open>src/proxy/factory.go\<close>) and shadow backends (\<open>src/proxy/shadow.go\<close>). The stack of each backend has
  a balancer of its own; the pipes of an endpoint run in a world with the list of them. Two stages
  are step relations elsewhere and parameters here: \<open>race\<close> runs a proxy the given number of times
  within the given time (\<open>Concurrent\<close>), \<open>merge\<close> is the merging middleware of an endpoint
  (\<open>MergeCore\<close>, \<open>ParallelMerge\<close>, \<open>SequentialMerge\<close>).
\<close>

section \<open>The stack of a backend\<close>

record 'w factory_env =
  fe_request_modifiers :: "string \<Rightarrow> ('w, request) modifier_factory option"
  fe_response_modifiers :: "string \<Rightarrow> ('w, request \<times> vresponse) modifier_factory option"
  fe_graphql :: graphql_env
  fe_rnd :: "nat \<Rightarrow> nat"
  fe_procs :: nat
  fe_parse :: "string \<Rightarrow> goerror + url"

definition bind_built :: "'a built \<Rightarrow> ('a \<Rightarrow> 'b built) \<Rightarrow> 'b built" where
  "bind_built x f = (case x of BFatal \<Rightarrow> BFatal | BPanics \<Rightarrow> BPanics | Built a \<Rightarrow> f a)"

lemma bind_built_simps [simp]:
  "bind_built BFatal f = BFatal" "bind_built BPanics f = BPanics" "bind_built (Built a) f = f a"
  by (simp_all add: bind_built_def)

type_synonym 'w race = "duration \<Rightarrow> int \<Rightarrow> 'w pipe \<Rightarrow> 'w pipe"

text \<open>\<open>newStack\<close>: the balancer of the backend and its pipe, from the innermost stage outwards.\<close>

definition new_stack ::
  "'w factory_env \<Rightarrow> ('w balancer \<times> 'w) race \<Rightarrow> (backend \<Rightarrow> 'w pipe) \<Rightarrow> (backend \<Rightarrow> 'w subscriber) \<Rightarrow>
   backend \<Rightarrow> ('w balancer \<times> ('w balancer \<times> 'w) pipe) built" where
  "new_stack env race bf sf remote =
     bind_built (new_plugin_middleware (fe_request_modifiers env) (fe_response_modifiers env)
       (b_ExtraConfig remote) [bf remote]) (\<lambda>p.
     bind_built (case new_graphql_middleware (fe_graphql env) remote of None \<Rightarrow> BPanics | Some mw \<Rightarrow> mw [p]) (\<lambda>p.
     bind_built (new_filter_headers_middleware remote [p]) (\<lambda>p.
     bind_built (new_load_balanced_middleware (below (fe_rnd env)) (fe_parse env) [p]) (\<lambda>p.
     bind_built (if b_ConcurrentCalls remote > 1
                 then bind_built (new_concurrent_middleware remote [p]) (\<lambda>(t, n, p). Built (race t n p))
                 else Built p) (\<lambda>p.
     bind_built (new_request_builder_middleware remote [p]) (\<lambda>p.
     bind_built (new_filter_query_strings_middleware remote [p]) (\<lambda>p.
       Built (new_balancer (fe_procs env) (fe_rnd env) (sf remote), p))))))))"

text \<open>The stages, each as a function on pipes.\<close>

definition plugin_stage :: "'w factory_env \<Rightarrow> extra_config \<Rightarrow> 'w pipe \<Rightarrow> 'w pipe" where
  "plugin_stage env extra p =
     (case ec_map extra plugin_Namespace of
        None \<Rightarrow> p
      | Some cfg \<Rightarrow>
          (case ec_list cfg ''name'' of
             None \<Rightarrow> p
           | Some names \<Rightarrow>
               (case select_modifiers (fe_request_modifiers env) (fe_response_modifiers env) cfg names of
                  (as, bs) \<Rightarrow> modifier_pipeline as bs p)))"

definition header_stage :: "backend \<Rightarrow> 'w pipe \<Rightarrow> 'w pipe" where
  "header_stage remote p = (if b_HeadersToPass remote = [] then p else filter_headers_call remote p)"

definition query_stage :: "backend \<Rightarrow> 'w pipe \<Rightarrow> 'w pipe" where
  "query_stage remote p = (if b_QueryStringsToPass remote = [] then p else filter_query_strings_call remote p)"

definition race_stage :: "'w race \<Rightarrow> backend \<Rightarrow> 'w pipe \<Rightarrow> 'w pipe" where
  "race_stage race remote p =
     (if b_ConcurrentCalls remote > 1 then race (concurrent_timeout remote) (b_ConcurrentCalls remote) p else p)"

definition graphql_stage :: "graphql_env \<Rightarrow> backend \<Rightarrow> ('w pipe \<Rightarrow> 'w pipe) option" where
  "graphql_stage env remote =
     (case get_options (ge_opts env) (ge_read_file env) (b_ExtraConfig remote) of
        Inl e \<Rightarrow> Some (\<lambda>p. p)
      | Inr opt \<Rightarrow>
          map_option (\<lambda>e. if go_Type opt = ''mutation'' \<or> go_Type opt = ''query''
                          then graphql_call env e (resolve_graphql_http_method opt remote) else (\<lambda>p. p))
            (new_extractor (ge_title env) opt))"

lemma plugin_stage_built:
  "new_plugin_middleware (fe_request_modifiers env) (fe_response_modifiers env) extra [p] =
     Built (plugin_stage env extra p)"
  by (auto simp: plugin_stage_def new_plugin_middleware_single)

lemma graphql_stage_built:
  "(case new_graphql_middleware env remote of None \<Rightarrow> BPanics | Some mw \<Rightarrow> mw [p]) =
     (case graphql_stage env remote of None \<Rightarrow> BPanics | Some f \<Rightarrow> Built (f p))"
  by (simp add: new_graphql_middleware_def graphql_stage_def split: sum.split option.split)

text \<open>The stack is the composition of its stages, and building it goes wrong only where building the
  GraphQL extractor panics.\<close>

lemma new_stack_eq:
  "new_stack env race bf sf remote =
     (case graphql_stage (fe_graphql env) remote of
        None \<Rightarrow> BPanics
      | Some gql \<Rightarrow>
          Built (new_balancer (fe_procs env) (fe_rnd env) (sf remote),
            query_stage remote (request_builder_call remote (race_stage race remote
              (load_balanced_call (balancer_host (below (fe_rnd env))) (fe_parse env)
                (header_stage remote (gql (plugin_stage env (b_ExtraConfig remote) (bf remote)))))))))"
  unfolding new_stack_def plugin_stage_built bind_built_simps graphql_stage_built
  by (simp add: new_filter_headers_middleware_def new_load_balanced_middleware_def
      new_request_builder_middleware_def new_filter_query_strings_middleware_def new_concurrent_middleware_def
      query_stage_def header_stage_def race_stage_def split: option.split)

section \<open>The request that reaches a backend\<close>

text \<open>An empty list of a backend lets everything through.\<close>

definition passed :: "string list \<Rightarrow> 'v gomap \<Rightarrow> 'v gomap \<Rightarrow> bool" where
  "passed ks m h \<longleftrightarrow> (if ks = [] then h = m else restricted ks m h)"

lemma header_stage_outcome:
  assumes "distinct (b_HeadersToPass remote)" and "gomap_ok (q_Headers r)"
  shows "\<exists>h. passed (b_HeadersToPass remote) (q_Headers r) h \<and>
    outcome (header_stage remote p w r) = outcome (p w (r\<lparr>q_Headers := h\<rparr>))"
  using filter_headers_restricts [OF assms, of p w]
  by (cases "b_HeadersToPass remote = []") (auto simp: passed_def header_stage_def)

lemma query_stage_outcome:
  assumes "distinct (b_QueryStringsToPass remote)" and "gomap_ok (q_Query r)"
  shows "\<exists>h. passed (b_QueryStringsToPass remote) (q_Query r) h \<and>
    outcome (query_stage remote p w r) = outcome (p w (r\<lparr>q_Query := h\<rparr>))"
  using filter_query_strings_restricts [OF assms, of p w]
  by (cases "b_QueryStringsToPass remote = []") (auto simp: passed_def query_stage_def)

lemma generate_path_fields [simp]:
  "q_Headers (generate_path u r) = q_Headers r" "q_Query (generate_path u r) = q_Query r"
  "q_Params (generate_path u r) = q_Params r" "q_Body (generate_path u r) = q_Body r"
  "q_Path (generate_path u (r\<lparr>q_Query := q\<rparr>)) = q_Path (generate_path u r)"
  by (simp_all add: generate_path_def)

text \<open>C7. The request that reaches a backend through its stack (without plugins, GraphQL and concurrent
  calls): the configured method; the path of the URL pattern with the request's parameters filled
  in; as URL that path on one of the hosts the subscriber offers, with the query strings that pass;
  exactly the headers and query strings that the backend's lists let through; body and parameters as
  they came. The response, the error and the world afterwards are those of the backend's proxy.\<close>

theorem stack_request:
  assumes plain: "ec_map (b_ExtraConfig remote) plugin_Namespace = None"
      "map_of (b_ExtraConfig remote) graphql_Namespace = None" "b_ConcurrentCalls remote \<le> 1"
    and lists: "distinct (b_HeadersToPass remote)" "distinct (b_QueryStringsToPass remote)"
    and req: "gomap_ok (q_Headers r)" "gomap_ok (q_Query r)"
    and hosts: "subscriber_hosts w (sf remote) = Inr hs" "hs \<noteq> []"
    and parse: "\<And>h. h \<in> set hs \<Longrightarrow>
      fe_parse env (h @ q_Path (generate_path (b_URLPattern remote) r)) = Inr (u h)"
  shows "\<exists>b p h r' b'. new_stack env race bf sf remote = Built (b, p) \<and> h \<in> set hs \<and>
    outcome (p (b, w) r) = map_option (\<lambda>(res, w'). (res, b', w')) (outcome (bf remote w r')) \<and>
    q_Method r' = b_Method remote \<and> q_Path r' = q_Path (generate_path (b_URLPattern remote) r) \<and>
    q_URL r' = Some (append_query (u h) (q_Query r')) \<and> q_Params r' = q_Params r \<and> q_Body r' = q_Body r \<and>
    passed (b_HeadersToPass remote) (q_Headers r) (q_Headers r') \<and>
    passed (b_QueryStringsToPass remote) (q_Query r) (q_Query r')"
proof -
  let ?b = "new_balancer (fe_procs env) (fe_rnd env) (sf remote)"
  let ?heads = "header_stage remote (bf remote)"
  let ?lb = "load_balanced_call (balancer_host (below (fe_rnd env))) (fe_parse env) ?heads"
  have gql: "graphql_stage (fe_graphql env) remote = Some (\<lambda>p. p)"
    using plain(2) by (simp add: graphql_stage_def get_options_def)
  have stack: "new_stack env race bf sf remote =
      Built (?b, query_stage remote (request_builder_call remote ?lb))"
    using plain(1,3) by (simp add: new_stack_eq gql plugin_stage_def race_stage_def)
  from query_stage_outcome [where p = "request_builder_call remote ?lb" and w = "(?b, w)", OF lists(2) req(2)]
  obtain q where
    q: "passed (b_QueryStringsToPass remote) (q_Query r) q"
      "outcome (query_stage remote (request_builder_call remote ?lb) (?b, w) r) =
       outcome (request_builder_call remote ?lb (?b, w) (r\<lparr>q_Query := q\<rparr>))" by blast
  define r2 where "r2 = (generate_path (b_URLPattern remote) (r\<lparr>q_Query := q\<rparr>))\<lparr>q_Method := b_Method remote\<rparr>"
  have path: "q_Path r2 = q_Path (generate_path (b_URLPattern remote) r)" by (simp add: r2_def)
  have view: "balancer_view w ?b = Inr hs" using hosts(1) by (simp add: new_balancer_view)
  have "\<And>h. h \<in> set hs \<Longrightarrow> fe_parse env (h @ q_Path r2) = Inr (u h)"
    unfolding path by (rule parse)
  from lb.load_balanced_ok [where rnd = "fe_rnd env" and p = ?heads and parse = "fe_parse env" and r = r2 and u = u, OF view hosts(2) this]
  obtain h b' where h: "h \<in> set hs" "outcome (?lb (?b, w) r2) =
      map_option (\<lambda>(res, w'). (res, b', w'))
        (outcome (?heads w (r2\<lparr>q_URL := Some (append_query (u h) (q_Query r2))\<rparr>)))"
    by blast
  let ?r3 = "r2\<lparr>q_URL := Some (append_query (u h) (q_Query r2))\<rparr>"
  have "gomap_ok (q_Headers ?r3)" using req(1) by (simp add: r2_def)
  from header_stage_outcome [where p = "bf remote" and w = w, OF lists(1) this] obtain hd where
    hd: "passed (b_HeadersToPass remote) (q_Headers ?r3) hd"
      "outcome (?heads w ?r3) = outcome (bf remote w (?r3\<lparr>q_Headers := hd\<rparr>))" by blast
  have out: "outcome (query_stage remote (request_builder_call remote ?lb) (?b, w) r) =
      map_option (\<lambda>(res, w'). (res, b', w')) (outcome (bf remote w (?r3\<lparr>q_Headers := hd\<rparr>)))"
    using q(2) h(2) hd(2) by (simp add: request_builder_call_def r2_def)
  show ?thesis
    by (rule exI [of _ ?b], rule exI [of _ "query_stage remote (request_builder_call remote ?lb)"],
        rule exI [of _ h], rule exI [of _ "?r3\<lparr>q_Headers := hd\<rparr>"], rule exI [of _ b'])
       (use stack h(1) out path q(1) hd(1) in \<open>auto simp: r2_def\<close>)
qed

text \<open>A backend on one host that is passed the header \<open>A\<close> only, and a proxy that answers with the
  request it got.\<close>

definition sample_env :: "request list factory_env" where
  "sample_env = \<lparr>fe_request_modifiers = \<lambda>n. None, fe_response_modifiers = \<lambda>n. None,
     fe_graphql = \<lparr>ge_unmarshal = \<lambda>s. Inr None, ge_marshal = \<lambda>g. [], ge_marshal_vars = \<lambda>g. [],
       ge_title = \<lambda>s. s, ge_opts = \<lambda>v. Inl ErrNullResult, ge_read_file = \<lambda>s. Inr []\<rparr>,
     fe_rnd = \<lambda>n. 0, fe_procs = 1, fe_parse = \<lambda>s. Inr \<lparr>u_rest = s, u_RawQuery = []\<rparr>\<rparr>"

definition record_request :: "backend \<Rightarrow> request list pipe" where
  "record_request remote w r = Ret (None, None) r (w @ [r])"

definition sample_backend :: backend where
  "sample_backend = backend_zero\<lparr>b_Method := ''GET'', b_Host := [''http://h''], b_URLPattern := ''/x'',
     b_HeadersToPass := [''A'']\<rparr>"

definition sample_get :: request where
  "sample_get = request_zero\<lparr>q_Headers := [(''A'', [''1'']), (''B'', [''2''])]\<rparr>"

theorem stack_request_witness:
  "\<exists>b p r' b'. new_stack sample_env (\<lambda>t n p. p) record_request fixed_subscriber_factory sample_backend = Built (b, p) \<and>
     outcome (p (b, []) sample_get) = Some ((None, None), b', [r']) \<and>
     q_Method r' = ''GET'' \<and> q_Path r' = ''/x'' \<and> map_of (q_Headers r') ''B'' = None \<and>
     map_of (q_Headers r') ''A'' = Some [''1'']"
proof -
  have path: "q_Path (generate_path (b_URLPattern sample_backend) sample_get) = ''/x''"
    by (simp add: generate_path_def sample_backend_def sample_get_def request_zero_def)
  have "\<exists>b p h r' b'. new_stack sample_env (\<lambda>t n p. p) record_request fixed_subscriber_factory sample_backend = Built (b, p) \<and>
      h \<in> set [''http://h''] \<and>
      outcome (p (b, []) sample_get) = map_option (\<lambda>(res, w'). (res, b', w')) (outcome (record_request sample_backend [] r')) \<and>
      q_Method r' = b_Method sample_backend \<and> q_Path r' = q_Path (generate_path (b_URLPattern sample_backend) sample_get) \<and>
      q_URL r' = Some (append_query ((\<lambda>h. \<lparr>u_rest = h @ ''/x'', u_RawQuery = []\<rparr>) h) (q_Query r')) \<and>
      q_Params r' = q_Params sample_get \<and> q_Body r' = q_Body sample_get \<and>
      passed (b_HeadersToPass sample_backend) (q_Headers sample_get) (q_Headers r') \<and>
      passed (b_QueryStringsToPass sample_backend) (q_Query sample_get) (q_Query r')"
    by (rule stack_request)
      (simp_all add: path, simp_all add: sample_backend_def sample_get_def request_zero_def backend_zero_def
        ec_map_def fixed_subscriber_factory_def sample_env_def)
  then show ?thesis
    by (auto simp: path record_request_def passed_def restricted_def) (auto simp: sample_backend_def sample_get_def restricted_def)
qed

section \<open>The proxy of an endpoint\<close>

text \<open>A pipe of one backend, in the world with the balancers of all of them.\<close>

definition at_index :: "nat \<Rightarrow> ('b \<times> 'w) pipe \<Rightarrow> ('b list \<times> 'w) pipe" where
  "at_index i p bw r =
     (case bw of (bs, w) \<Rightarrow>
        (case p (bs ! i, w) r of
           Panic \<Rightarrow> Panic
         | Ret res r' (b', w') \<Rightarrow> Ret res r' (bs[i := b'], w')))"

fun all_built :: "'a built list \<Rightarrow> 'a list built" where
  "all_built [] = Built []"
| "all_built (x # xs) = bind_built x (\<lambda>a. bind_built (all_built xs) (\<lambda>as. Built (a # as)))"

type_synonym 'w stacks = "'w balancer list \<times> ('w balancer list \<times> 'w) pipe list"

definition stacks_of :: "('w balancer \<times> ('w balancer \<times> 'w) pipe) list \<Rightarrow> 'w stacks" where
  "stacks_of xs = (map fst xs, map (\<lambda>i. at_index i (snd (xs ! i))) [0..<length xs])"

type_synonym 'w merge = "endpoint_config \<Rightarrow> 'w pipe list \<Rightarrow> 'w pipe built"

record 'w endpoint_env =
  ee_backend :: "'w factory_env"
  ee_endpoint :: "('w balancer list \<times> 'w) factory_env"  \<comment> \<open>its modifiers only are used\<close>

definition new_single ::
  "'w endpoint_env \<Rightarrow> ('w balancer \<times> 'w) race \<Rightarrow> (backend \<Rightarrow> 'w pipe) \<Rightarrow> (backend \<Rightarrow> 'w subscriber) \<Rightarrow>
   endpoint_config \<Rightarrow> ('w balancer list \<times> ('w balancer list \<times> 'w) pipe) built" where
  "new_single env race bf sf cfg =
     bind_built (new_stack (ee_backend env) race bf sf (e_Backend cfg ! 0)) (\<lambda>(b, p). Built ([b], at_index 0 p))"

definition new_multi ::
  "'w endpoint_env \<Rightarrow> ('w balancer \<times> 'w) race \<Rightarrow> ('w balancer list \<times> 'w) merge \<Rightarrow> 't flat_tree \<Rightarrow>
   (backend \<Rightarrow> 'w pipe) \<Rightarrow> (backend \<Rightarrow> 'w subscriber) \<Rightarrow> endpoint_config \<Rightarrow>
   ('w balancer list \<times> ('w balancer list \<times> 'w) pipe) built" where
  "new_multi env race merge T bf sf cfg =
     bind_built (all_built (map (new_stack (ee_backend env) race bf sf) (e_Backend cfg))) (\<lambda>xs.
     bind_built (merge cfg (snd (stacks_of xs))) (\<lambda>p.
     bind_built (new_flatmap_middleware T cfg [p]) (\<lambda>p. Built (fst (stacks_of xs), p))))"

definition default_factory_new ::
  "'w endpoint_env \<Rightarrow> ('w balancer \<times> 'w) race \<Rightarrow> ('w balancer list \<times> 'w) merge \<Rightarrow> 't flat_tree \<Rightarrow>
   (backend \<Rightarrow> 'w pipe) \<Rightarrow> (backend \<Rightarrow> 'w subscriber) \<Rightarrow> endpoint_config \<Rightarrow>
   goerror + ('w balancer list \<times> ('w balancer list \<times> 'w) pipe) built" where
  "default_factory_new env race merge T bf sf cfg =
     (if length (e_Backend cfg) = 0 then Inl ErrNoBackends
      else Inr (bind_built (if length (e_Backend cfg) = 1 then new_single env race bf sf cfg
                            else new_multi env race merge T bf sf cfg) (\<lambda>(bs, p).
        bind_built (new_plugin_middleware (fe_request_modifiers (ee_endpoint env))
          (fe_response_modifiers (ee_endpoint env)) (e_ExtraConfig cfg) [p]) (\<lambda>p.
        bind_built (new_static_middleware cfg [p]) (\<lambda>p. Built (bs, p))))))"

text \<open>What is around the stack of a single backend: modifiers, then the static data.\<close>

definition static_stage :: "endpoint_config \<Rightarrow> 'w pipe \<Rightarrow> 'w pipe" where
  "static_stage cfg p =
     (case get_static_middleware_cfg (e_ExtraConfig cfg) of None \<Rightarrow> p | Some st \<Rightarrow> static_call st p)"

lemma static_stage_built: "new_static_middleware cfg [p] = Built (static_stage cfg p)"
  by (simp add: new_static_middleware_def static_stage_def split: option.split)

lemma default_factory_single:
  assumes "e_Backend cfg = [remote]" and "new_stack (ee_backend env) race bf sf remote = Built (b, p)"
  shows "default_factory_new env race merge T bf sf cfg =
    Inr (Built ([b], static_stage cfg (plugin_stage (ee_endpoint env) (e_ExtraConfig cfg) (at_index 0 p))))"
  using assms
  by (simp add: default_factory_new_def new_single_def plugin_stage_built static_stage_built)

text \<open>An endpoint with one backend and no plugins answers with the backend's response and error, with the
  static data added when the strategy matches, and keeps the backend's balancer.\<close>

lemma single_endpoint:
  assumes "e_Backend cfg = [remote]" and "ec_map (e_ExtraConfig cfg) plugin_Namespace = None"
    and "new_stack (ee_backend env) race bf sf remote = Built (b, p)"
  shows "\<exists>q. default_factory_new env race merge T bf sf cfg = Inr (Built ([b], q)) \<and>
    outcome (q ([b], w) r) =
      map_option (\<lambda>((x, err), b', w').
        ((case get_static_middleware_cfg (e_ExtraConfig cfg) of
            None \<Rightarrow> x
          | Some st \<Rightarrow> if static_match (st_Strategy st) x err then Some (add_static (st_Data st) x) else x, err),
         [b'], w'))
      (outcome (p (b, w) r))"
  using assms(2)
  by (auto simp: default_factory_single [OF assms(1,3)] plugin_stage_def static_stage_def static_call_def at_index_def
      split: option.split ret.split)

section \<open>Shadow backends\<close>

definition is_shadow_backend :: "(string \<Rightarrow> duration option) \<Rightarrow> backend \<Rightarrow> duration \<times> bool" where
  "is_shadow_backend parse_dur c =
     (case ec_map (b_ExtraConfig c) proxy_Namespace of
        None \<Rightarrow> (b_Timeout c, False)
      | Some e \<Rightarrow>
          (if ec_bool e ''shadow'' \<noteq> Some True then (b_Timeout c, False)
           else case ec_string e ''shadow_timeout'' of
                  None \<Rightarrow> (b_Timeout c, True)
                | Some t \<Rightarrow> (case parse_dur t of Some d \<Rightarrow> (d, True) | None \<Rightarrow> (b_Timeout c, True))))"

text \<open>The loop: the largest timeout, and the two groups.\<close>

fun shadow_loop ::
  "(string \<Rightarrow> duration option) \<Rightarrow> backend list \<Rightarrow> duration \<Rightarrow> backend list \<Rightarrow> backend list \<Rightarrow>
   duration \<times> backend list \<times> backend list" where
  "shadow_loop pd [] maxTimeout shadow regular = (maxTimeout, shadow, regular)"
| "shadow_loop pd (b # bs) maxTimeout shadow regular =
     (case is_shadow_backend pd b of
        (d, True) \<Rightarrow> shadow_loop pd bs (if sint maxTimeout < sint d then d else maxTimeout) (shadow @ [b]) regular
      | (d, False) \<Rightarrow> shadow_loop pd bs maxTimeout shadow (regular @ [b]))"

text \<open>The proxy \<open>NewShadowProxyWithTimeout\<close>: the calls it leaves running are added to the world.\<close>

definition new_shadow_proxy_with_timeout ::
  "(url \<Rightarrow> url option) \<Rightarrow> duration \<Rightarrow> 'w pipe \<Rightarrow> 'p \<Rightarrow> ('w \<times> ('p \<times> request \<times> duration) list) pipe" where
  "new_shadow_proxy_with_timeout reparse timeout p1 p2 wg r =
     (case wg of (w, running) \<Rightarrow>
        (case clone_request reparse r of (shadowRequest, r') \<Rightarrow>
           (case p1 w r' of
              Panic \<Rightarrow> Panic
            | Ret res r'' w' \<Rightarrow> Ret res r'' (w', running @ [(p2, shadowRequest, timeout)]))))"

datatype 'p shadowed = Regular "'p option" | Shadowed duration "'p option" "'p option"

definition shadow_middleware_with_timeout :: "duration \<Rightarrow> 'p option list \<Rightarrow> 'p shadowed built" where
  "shadow_middleware_with_timeout timeout next =
     (case next of
        [p] \<Rightarrow> Built (Regular p)
      | [p1, p2] \<Rightarrow> Built (Shadowed timeout p1 p2)
      | _ \<Rightarrow> BFatal)"

text \<open>\<open>New\<close>, for a factory \<open>f\<close> that returns a proxy (nil or not) and an error.\<close>

definition shadow_factory_new ::
  "(string \<Rightarrow> duration option) \<Rightarrow> (endpoint_config \<Rightarrow> 'p option \<times> goerror option) \<Rightarrow> endpoint_config \<Rightarrow>
   'p shadowed built \<times> goerror option" where
  "shadow_factory_new pd f cfg =
     (if length (e_Backend cfg) = 0 then (Built (Regular None), Some ErrNoBackends)
      else case shadow_loop pd (e_Backend cfg) 0 [] [] of
             (maxTimeout, shadow, regular) \<Rightarrow>
               (case f (cfg\<lparr>e_Backend := regular\<rparr>) of
                  (p, err) \<Rightarrow>
                    (if length shadow > 0 then
                       (shadow_middleware_with_timeout maxTimeout [p, fst (f (cfg\<lparr>e_Backend := shadow\<rparr>))], err)
                     else (Built (Regular p), err))))"

lemma shadow_loop_spec:
  "shadow_loop pd bs m sh re =
     (fold (\<lambda>b m. let d = fst (is_shadow_backend pd b)
                  in if snd (is_shadow_backend pd b) \<and> sint m < sint d then d else m) bs m,
      sh @ filter (\<lambda>b. snd (is_shadow_backend pd b)) bs, re @ filter (\<lambda>b. \<not> snd (is_shadow_backend pd b)) bs)"
  by (induction pd bs m sh re rule: shadow_loop.induct) (auto split: prod.split bool.split simp: Let_def)

text \<open>The chosen timeout is that of a shadow backend (or zero), and none of them has a larger one.\<close>

lemma shadow_timeout_max:
  defines "step pd \<equiv> \<lambda>b m. let d = fst (is_shadow_backend pd b)
                  in if snd (is_shadow_backend pd b) \<and> sint m < sint d then d else m"
  shows "sint m \<le> sint (fold (step pd) bs m) \<and>
    (\<forall>b \<in> set bs. snd (is_shadow_backend pd b) \<longrightarrow> sint (fst (is_shadow_backend pd b)) \<le> sint (fold (step pd) bs m)) \<and>
    (fold (step pd) bs m = m \<or> (\<exists>b \<in> set bs. snd (is_shadow_backend pd b) \<and> fold (step pd) bs m = fst (is_shadow_backend pd b)))"
proof (induction bs arbitrary: m)
  case (Cons b bs)
  have 1: "sint m \<le> sint (step pd b m)" and
    2: "snd (is_shadow_backend pd b) \<Longrightarrow> sint (fst (is_shadow_backend pd b)) \<le> sint (step pd b m)" and
    3: "step pd b m = m \<or> snd (is_shadow_backend pd b) \<and> step pd b m = fst (is_shadow_backend pd b)"
    by (auto simp: step_def Let_def)
  from Cons.IH [of "step pd b m"] 1 2 3 show ?case
    by (auto intro: order_trans)
qed simp

text \<open>C38. The shadow factory splits the backends: the regular ones, in order, go to the proxy that answers
  the client, the shadow ones, in order, to one whose result is dropped and that runs with the largest
  of the shadow timeouts; without shadow backends there is only the first. The error is that of the
  regular part; a failure to build the shadow part is not reported.\<close>

theorem shadow_factory_splits:
  assumes "e_Backend cfg \<noteq> []"
  shows "let isShadow = (\<lambda>b. snd (is_shadow_backend pd b));
      regular = f (cfg\<lparr>e_Backend := filter (\<lambda>b. \<not> isShadow b) (e_Backend cfg)\<rparr>);
      shadow = f (cfg\<lparr>e_Backend := filter isShadow (e_Backend cfg)\<rparr>)
    in if \<exists>b \<in> set (e_Backend cfg). isShadow b
       then \<exists>t. shadow_factory_new pd f cfg = (Built (Shadowed t (fst regular) (fst shadow)), snd regular) \<and>
         (\<forall>b \<in> set (e_Backend cfg). isShadow b \<longrightarrow> sint (fst (is_shadow_backend pd b)) \<le> sint t) \<and>
         (t = 0 \<or> (\<exists>b \<in> set (e_Backend cfg). isShadow b \<and> t = fst (is_shadow_backend pd b)))
       else shadow_factory_new pd f cfg = (Built (Regular (fst (f cfg))), snd (f cfg))"
proof (cases "\<exists>b \<in> set (e_Backend cfg). snd (is_shadow_backend pd b)")
  case True
  then have "filter (\<lambda>b. snd (is_shadow_backend pd b)) (e_Backend cfg) \<noteq> []" by (auto simp: filter_empty_conv)
  with True assms shadow_timeout_max [of 0 pd "e_Backend cfg"] show ?thesis
    by (auto simp: Let_def shadow_factory_new_def shadow_loop_spec shadow_middleware_with_timeout_def
        split: prod.split)
next
  case False
  then have "filter (\<lambda>b. snd (is_shadow_backend pd b)) (e_Backend cfg) = []"
    and "filter (\<lambda>b. \<not> snd (is_shadow_backend pd b)) (e_Backend cfg) = e_Backend cfg"
    by (auto simp: filter_empty_conv filter_id_conv)
  with False assms show ?thesis
    by (auto simp: Let_def shadow_factory_new_def shadow_loop_spec split: prod.split)
qed

theorem shadow_factory_splits_witness:
  "\<exists>t. shadow_factory_new (\<lambda>s. None) (\<lambda>c. (Some (e_Backend c), None))
      (endpoint_zero\<lparr>e_Backend := [sample_backend,
         sample_backend\<lparr>b_Timeout := 5, b_ExtraConfig := [(proxy_Namespace, VMap [(''shadow'', VBool True)])]\<rparr>]\<rparr>) =
      (Built (Shadowed t (Some [sample_backend])
        (Some [sample_backend\<lparr>b_Timeout := 5, b_ExtraConfig := [(proxy_Namespace, VMap [(''shadow'', VBool True)])]\<rparr>])), None)"
proof -
  let ?s = "sample_backend\<lparr>b_Timeout := 5, b_ExtraConfig := [(proxy_Namespace, VMap [(''shadow'', VBool True)])]\<rparr>"
  have "snd (is_shadow_backend (\<lambda>s. None) ?s)" "\<not> snd (is_shadow_backend (\<lambda>s. None) sample_backend)"
    by (simp_all add: is_shadow_backend_def ec_map_def ec_bool_def ec_string_def sample_backend_def backend_zero_def)
  then show ?thesis
    using shadow_factory_splits [where cfg = "endpoint_zero\<lparr>e_Backend := [sample_backend, ?s]\<rparr>"
        and f = "\<lambda>c. (Some (e_Backend c), None)" and pd = "\<lambda>s. None"]
    by (auto simp: Let_def)
qed

text \<open>The client's answer does not depend on the shadow proxy: it is the regular proxy's, called with the
  same request, and the call left behind gets a clone of it.\<close>

lemma shadow_proxy_transparent:
  assumes "gomap_ok (q_Headers r)" and "gomap_ok (q_Params r)" and "\<forall>b. q_Body r = Some b \<longrightarrow> rd_err b = None"
  shows "outcome (new_shadow_proxy_with_timeout reparse t p1 p2 (w, g) r) =
    map_option (\<lambda>(res, w'). (res, w', g @ [(p2, clone reparse r, t)])) (outcome (p1 w r))"
  by (auto simp: new_shadow_proxy_with_timeout_def clone_request_eq [OF assms] split: ret.split)

end
