(* ===== verification/Gateway.thy ===== *)
theory Gateway
  imports Factory MuxRouter Typing
begin

text \<open>
  From a client to a backend: the handler of an endpoint (\<open>src/router/mux/endpoint.go\<close>), the proxy the
  default factory builds for one backend (\<open>src/proxy/factory.go\<close>) and the HTTP proxy at its end
  (\<open>src/proxy/http.go\<close>), run one inside the other. The executor is any, with the requests it is called
  with written down.
\<close>

type_synonym exchange = "http_request \<times> (goerror + http_response)"

definition recording :: "'w executor \<Rightarrow> ('w \<times> exchange list) executor" where
  "recording re wl q =
     (case wl of (w, log) \<Rightarrow> (case re w q of (answer, w') \<Rightarrow> (answer, (w', log @ [(q, answer)]))))"

text \<open>What a call of a pipe returns and the exchanges it makes are related by \<open>R\<close>; \<open>log\<close> reads the
  exchanges out of the world.\<close>

definition calls ::
  "('w \<Rightarrow> exchange list) \<Rightarrow> 'w pipe \<Rightarrow> 'w \<Rightarrow> request \<Rightarrow> (vresponse presult \<Rightarrow> exchange list \<Rightarrow> bool) \<Rightarrow> bool" where
  "calls log p w r R \<longleftrightarrow>
     (case outcome (p w r) of
        None \<Rightarrow> True
      | Some (res, w') \<Rightarrow> \<exists>xs. log w' = log w @ xs \<and> R res xs)"

text \<open>At most one exchange, with a request that has the property, and a response only if the backend
  answered: a complete one only if it answered with status 200 or 201.\<close>

definition honest :: "(http_request \<Rightarrow> bool) \<Rightarrow> vresponse presult \<Rightarrow> exchange list \<Rightarrow> bool" where
  "honest P res xs \<longleftrightarrow> length xs \<le> 1 \<and> list_all (\<lambda>x. P (fst x)) xs \<and>
     (case fst res of
        None \<Rightarrow> True
      | Some x \<Rightarrow> \<exists>q resp. xs = [(q, Inr resp)] \<and> (r_IsComplete x \<longrightarrow> status_ok resp))"

lemma honest_error [simp]: "honest P (None, e) []"
  by (simp add: honest_def)

section \<open>Stage by stage\<close>

lemma calls_http_proxy:
  assumes "\<And>u q. q_URL r = Some u \<Longrightarrow> backend_request check print remote r u = Inr q \<Longrightarrow> P q"
  shows "calls snd (new_http_proxy_with_http_executor T gunzip check print ctx_done remote (recording re) dec)
    (w, log) r (honest P)"
proof -
  let ?p = "new_http_proxy_with_http_executor T gunzip check print ctx_done remote (recording re) dec"
  have sent: "\<exists>xs. snd w' = log @ xs \<and> length xs \<le> 1 \<and> list_all (\<lambda>x. P (fst x)) xs"
    if "new_http_proxy_detailed check print ctx_done remote (recording re) ch rp (w, log) r = Ret res r' w'"
    for ch rp res r' w'
    using that assms
    by (auto simp: new_http_proxy_detailed_def recording_def split: option.splits sum.splits prod.splits)
  show ?thesis
  proof (cases "?p (w, log) r")
    case (Ret res r' w')
    from sent [of _ _ res r' w'] Ret obtain xs where
      xs: "snd w' = log @ xs" "length xs \<le> 1" "list_all (\<lambda>x. P (fst x)) xs"
      by (auto simp: new_http_proxy_with_http_executor_def split: if_splits)
    have "honest P res xs"
    proof (cases "fst res")
      case (Some x)
      with Ret have "?p (w, log) r = Ret (Some x, snd res) r' w'" by (cases res) simp
      from http_proxy_origin [OF this] obtain q resp where
        "recording re (w, log) q = (Inr resp, w')" and "r_IsComplete x \<longrightarrow> status_ok resp"
        by (auto split: if_splits)
      with xs Some show ?thesis by (auto simp: honest_def recording_def split: prod.splits)
    qed (use xs in \<open>simp add: honest_def\<close>)
    with Ret xs(1) show ?thesis by (auto simp: calls_def)
  qed (simp add: calls_def)
qed

lemma calls_headers:
  assumes "distinct (b_HeadersToPass remote)" and "gomap_ok (q_Headers r)"
    and "\<And>h. passed (b_HeadersToPass remote) (q_Headers r) h \<Longrightarrow> calls log p w (r\<lparr>q_Headers := h\<rparr>) R"
  shows "calls log (header_stage remote p) w r R"
  using header_stage_outcome [OF assms(1,2), of p w] assms(3) by (auto simp: calls_def)

lemma calls_query:
  assumes "distinct (b_QueryStringsToPass remote)" and "gomap_ok (q_Query r)"
    and "\<And>h. passed (b_QueryStringsToPass remote) (q_Query r) h \<Longrightarrow> calls log p w (r\<lparr>q_Query := h\<rparr>) R"
  shows "calls log (query_stage remote p) w r R"
  using query_stage_outcome [OF assms(1,2), of p w] assms(3) by (auto simp: calls_def)

lemma calls_balanced:
  assumes "\<And>host b'. pick w b = (Inr host, b') \<Longrightarrow> host \<in> hosts"
    and "\<And>host u. host \<in> hosts \<Longrightarrow> parse (host @ q_Path r) = Inr u \<Longrightarrow>
      calls log p w (r\<lparr>q_URL := Some (append_query u (q_Query r))\<rparr>) R"
    and "\<And>e. R (None, Some e) []"
  shows "calls (\<lambda>bw. log (snd bw)) (load_balanced_call pick parse p) (b, w) r R"
proof -
  obtain host b' where pick: "pick w b = (host, b')" by fastforce
  show ?thesis
  proof (cases host)
    case (Inl e)
    with assms(3) show ?thesis by (simp add: calls_def load_balanced_call_def pick)
  next
    case (Inr h)
    show ?thesis
    proof (cases "parse (h @ q_Path r)")
      case (Inl e)
      with \<open>host = Inr h\<close> assms(3) show ?thesis by (simp add: calls_def load_balanced_call_def pick)
    next
      case (Inr u)
      have "h \<in> hosts" using assms(1) pick \<open>host = Inr h\<close> by simp
      from assms(2) [OF this Inr] Inr \<open>host = Inr h\<close> show ?thesis
        by (auto simp: calls_def load_balanced_call_def pick split: ret.split)
    qed
  qed
qed

text \<open>Static data can be added to no response at all, but is never complete then.\<close>

lemma calls_static:
  assumes "calls log p w r (honest P)"
  shows "calls log (static_stage cfg p) w r (\<lambda>res xs. length xs \<le> 1 \<and> list_all (\<lambda>x. P (fst x)) xs)"
  using assms
  by (auto simp: calls_def honest_def static_stage_def static_call_def split: option.splits ret.splits)

lemma calls_at_index:
  "calls (\<lambda>bw. log (snd bw)) p (bs ! i, w) r R \<Longrightarrow> calls (\<lambda>bw. log (snd bw)) (at_index i p) (bs, w) r R"
  by (auto simp: calls_def at_index_def split: ret.split)

section \<open>The stack and the endpoint\<close>

text \<open>A backend without plugins, GraphQL and concurrent calls.\<close>

definition plain_backend :: "backend \<Rightarrow> bool" where
  "plain_backend remote \<longleftrightarrow>
     ec_map (b_ExtraConfig remote) plugin_Namespace = None \<and>
     map_of (b_ExtraConfig remote) graphql_Namespace = None \<and> b_ConcurrentCalls remote \<le> 1 \<and>
     distinct (b_HeadersToPass remote) \<and> distinct (b_QueryStringsToPass remote)"

text \<open>The hosts a balancer offers in a world.\<close>

definition offered :: "'w \<Rightarrow> 'w balancer \<Rightarrow> string set" where
  "offered w b = (case balancer_view w b of Inl e \<Rightarrow> {} | Inr hs \<Rightarrow> set hs)"

lemma picked_offered: "balancer_host (below rnd) w b = (Inr h, b') \<Longrightarrow> h \<in> offered w b"
  by (auto simp: offered_def dest: lb.pick_host)

text \<open>A balancer over a subscriber: the factory makes one, and a call that picks a host leaves one.\<close>

definition balancer_of :: "'w subscriber \<Rightarrow> 'w balancer \<Rightarrow> bool" where
  "balancer_of s b \<longleftrightarrow> (\<forall>w. balancer_view w b = subscriber_hosts w s)"

lemma balancer_of_new: "balancer_of s (new_balancer procs rnd s)"
  by (simp add: balancer_of_def new_balancer_view)

lemma balancer_of_pick: "balancer_host (below rnd) w b = (res, b') \<Longrightarrow> balancer_of s b' = balancer_of s b"
  by (simp add: balancer_of_def lb.pick_view)

lemma offered_of:
  "balancer_of s b \<Longrightarrow> offered w b = {h. \<exists>hs. subscriber_hosts w s = Inr hs \<and> h \<in> set hs}"
  by (auto simp: offered_def balancer_of_def split: sum.split)

text \<open>What a request to the backend must be, for the request \<open>r\<close> at the top of the stack: its URL is the path
  of the backend's URL pattern, filled in with the parameters of \<open>r\<close>, on one of the hosts, with exactly the
  query strings that pass.\<close>

definition sent_for ::
  "(string \<Rightarrow> goerror + url) \<Rightarrow> (url \<Rightarrow> string) \<Rightarrow> string set \<Rightarrow> backend \<Rightarrow> request \<Rightarrow> http_request \<Rightarrow> bool" where
  "sent_for parse print hosts remote r q \<longleftrightarrow>
     passed (b_HeadersToPass remote) (q_Headers r) (hr_Header q) \<and>
     (\<exists>host u qs. host \<in> hosts \<and> parse (host @ q_Path (generate_path (b_URLPattern remote) r)) = Inr u \<and>
        hr_URL q = print (append_query u qs) \<and> passed (b_QueryStringsToPass remote) (q_Query r) qs) \<and>
     hr_Method q = (if b_Method remote = [] then ''GET'' else to_upper (b_Method remote)) \<and>
     hr_Body q = body_of remote (q_Body r)"

lemma passed_ok: "passed ks m h \<Longrightarrow> gomap_ok m \<Longrightarrow> gomap_ok h"
  by (auto simp: passed_def restricted_def split: if_splits)

lemma plain_stack:
  assumes "plain_backend remote" and "new_stack env race bf sf remote = Built (b, p)"
  shows "p = query_stage remote (request_builder_call remote
    (load_balanced_call (balancer_host (below (fe_rnd env))) (fe_parse env) (header_stage remote (bf remote))))"
proof -
  have gql: "graphql_stage (fe_graphql env) remote = Some (\<lambda>p. p)"
    using assms(1) by (simp add: plain_backend_def graphql_stage_def get_options_def)
  have "\<not> 1 < b_ConcurrentCalls remote" and "ec_map (b_ExtraConfig remote) plugin_Namespace = None"
    using assms(1) by (simp_all add: plain_backend_def)
  with assms(2) show ?thesis
    unfolding new_stack_eq gql by (simp add: plugin_stage_def race_stage_def)
qed

lemma calls_stack:
  assumes "plain_backend remote" and "new_stack env race bf sf remote = Built (b, p)"
    and "bf = (\<lambda>remote. new_http_proxy_with_http_executor T gunzip check print ctx_done remote (recording re) (b_Decoder remote))"
    and "gomap_ok (q_Headers r)" and "gomap_ok (q_Query r)"
  shows "calls (\<lambda>bw. snd (snd bw)) p (b', w, log) r
    (honest (sent_for (fe_parse env) print (offered (w, log) b') remote r))"
proof -
  let ?hosts = "offered (w, log) b'"
  let ?R = "honest (sent_for (fe_parse env) print ?hosts remote r)"
  have lists: "distinct (b_HeadersToPass remote)" "distinct (b_QueryStringsToPass remote)"
    using assms(1) by (simp_all add: plain_backend_def)
  show ?thesis
    unfolding plain_stack [OF assms(1,2)]
  proof (rule calls_query [OF lists(2) assms(5)])
    fix qs assume qs: "passed (b_QueryStringsToPass remote) (q_Query r) qs"
    define r2 where "r2 = (generate_path (b_URLPattern remote) (r\<lparr>q_Query := qs\<rparr>))\<lparr>q_Method := b_Method remote\<rparr>"
    let ?heads = "header_stage remote (bf remote)"
    let ?lb = "load_balanced_call (balancer_host (below (fe_rnd env))) (fe_parse env) ?heads"
    have path: "q_Path r2 = q_Path (generate_path (b_URLPattern remote) r)" by (simp add: r2_def)
    have heads: "calls snd ?heads (w, log) (r2\<lparr>q_URL := Some (append_query u qs)\<rparr>) ?R"
      if host: "host \<in> ?hosts" "fe_parse env (host @ q_Path r2) = Inr u" for host u
    proof (rule calls_headers [OF lists(1)])
      show "gomap_ok (q_Headers (r2\<lparr>q_URL := Some (append_query u qs)\<rparr>))" using assms(4) by (simp add: r2_def)
    next
      fix h assume "passed (b_HeadersToPass remote) (q_Headers (r2\<lparr>q_URL := Some (append_query u qs)\<rparr>)) h"
      then have h: "passed (b_HeadersToPass remote) (q_Headers r) h" by (simp add: r2_def)
      show "calls snd (bf remote) (w, log) (r2\<lparr>q_URL := Some (append_query u qs), q_Headers := h\<rparr>) ?R"
        unfolding assms(3)
      proof (rule calls_http_proxy)
        fix v q assume "q_URL (r2\<lparr>q_URL := Some (append_query u qs), q_Headers := h\<rparr>) = Some v"
          and "backend_request check print remote (r2\<lparr>q_URL := Some (append_query u qs), q_Headers := h\<rparr>) v = Inr q"
        with backend_request_spec [of check print remote _ v q] passed_ok [OF h assms(4)]
        have "hr_URL q = print (append_query u qs)" "hr_Header q = h" "hr_Body q = body_of remote (q_Body r)"
          "hr_Method q = (if b_Method remote = [] then ''GET'' else to_upper (b_Method remote))"
          by (auto simp: r2_def)
        with host [unfolded path] h qs show "sent_for (fe_parse env) print ?hosts remote r q"
          unfolding sent_for_def by blast
      qed
    qed
    have "calls (\<lambda>bw. snd (snd bw)) ?lb (b', w, log) r2 ?R"
    proof (rule calls_balanced)
      show "\<And>host b. balancer_host (below (fe_rnd env)) (w, log) b' = (Inr host, b) \<Longrightarrow> host \<in> ?hosts"
        by (rule picked_offered)
    next
      fix host u assume "host \<in> ?hosts" "fe_parse env (host @ q_Path r2) = Inr u"
      from heads [OF this] show "calls snd ?heads (w, log) (r2\<lparr>q_URL := Some (append_query u (q_Query r2))\<rparr>) ?R"
        by (simp add: r2_def)
    qed simp
    then show "calls (\<lambda>bw. snd (snd bw)) (request_builder_call remote ?lb) (b', w, log) (r\<lparr>q_Query := qs\<rparr>) ?R"
      by (simp add: calls_def request_builder_call_def r2_def)
  qed
qed

text \<open>The proxy of an endpoint with that backend alone.\<close>

lemma calls_endpoint:
  assumes "e_Backend cfg = [remote]" and "plain_backend remote"
    and "ec_map (e_ExtraConfig cfg) plugin_Namespace = None"
    and "default_factory_new env race merge T bf sf cfg = Inr (Built (bs, p))"
    and "bf = (\<lambda>remote. new_http_proxy_with_http_executor T' gunzip check print ctx_done remote (recording re) (b_Decoder remote))"
    and "gomap_ok (q_Headers r)" and "gomap_ok (q_Query r)"
  shows "calls (\<lambda>bw. snd (snd bw)) p (bs', w, log) r
    (\<lambda>res xs. length xs \<le> 1 \<and>
      list_all (\<lambda>x. sent_for (fe_parse (ee_backend env)) print (offered (w, log) (bs' ! 0)) remote r (fst x)) xs)"
proof -
  from assms(1,4) obtain b q where stack: "new_stack (ee_backend env) race bf sf remote = Built (b, q)"
    by (cases "new_stack (ee_backend env) race bf sf remote")
       (auto simp: default_factory_new_def new_single_def)
  have "p = static_stage cfg (at_index 0 q)"
    using assms(3,4) by (simp add: default_factory_single [OF assms(1) stack] plugin_stage_def)
  moreover have "calls (\<lambda>bw. snd (snd bw)) (at_index 0 q) (bs', w, log) r
      (honest (sent_for (fe_parse (ee_backend env)) print (offered (w, log) (bs' ! 0)) remote r))"
    using calls_at_index [of snd q bs' 0 "(w, log)"] calls_stack [OF assms(2) stack assms(5-7)] by simp
  ultimately show ?thesis by (simp only: calls_static)
qed

section \<open>What the router took from the client\<close>

lemma gomap_ok_forward: "gomap_ok hdr \<Longrightarrow> gomap_ok acc \<Longrightarrow> gomap_ok (forward_headers ks hdr acc)"
  by (induction ks hdr acc rule: forward_headers.induct) (auto split: option.split)

lemma gomap_ok_router_query: "gomap_ok qv \<Longrightarrow> gomap_ok acc \<Longrightarrow> gomap_ok (router_query qs qv acc)"
  by (induction qs qv acc rule: router_query.induct) (auto split: option.split)

lemma gomap_ok_request_from:
  assumes "gomap_ok (cr_Header r)" and "gomap_ok (cr_Query r)"
  shows "gomap_ok (q_Headers (request_from r params ip qs ks))" "gomap_ok (q_Query (request_from r params ip qs ks))"
  using assms
  by (simp_all add: request_from_def router_headers_def Let_def gomap_ok_forward gomap_ok_router_query)

definition own_headers :: "string list" where
  "own_headers = [''X-Forwarded-For'', ''X-Forwarded-Host'', ''X-Forwarded-Via'', ''User-Agent'']"

lemma router_header_origin:
  assumes "map_of (q_Headers (request_from r params ip qs ks)) k = Some v" and "k \<notin> set own_headers"
  shows "if ''*'' \<in> set ks then map_of (cr_Header r) k = Some v
    else k \<in> set ks \<and> map_of (cr_Header r) (canonical_mime_header_key k) = Some v"
  using assms map_of_forward_headers [of ks "cr_Header r" "[]" k]
  by (auto simp: request_from_def router_headers_def own_headers_def Let_def gomap_simps forward_headers_all
      split: if_splits)

lemma map_of_request_query:
  "map_of (q_Query (request_from r params ip qs ks)) k =
     (if ''*'' \<in> set qs \<or> k \<in> set qs \<and> map_of (cr_Query r) k \<noteq> Some [] then map_of (cr_Query r) k else None)"
  by (cases "''*'' \<in> set qs")
    (auto simp: request_from_def router_query_all map_of_router_query split: option.split)

lemma map_of_passed:
  "passed ks m h \<Longrightarrow> map_of h k = (if ks = [] \<or> k \<in> set ks then map_of m k else None)"
  by (cases "ks = []") (simp_all add: passed_def restricted_def)

lemma passed_origin:
  "passed ks m h \<Longrightarrow> map_of h k = Some v \<Longrightarrow> map_of m k = Some v \<and> (ks = [] \<or> k \<in> set ks)"
  by (auto simp: passed_def restricted_def split: if_splits)

section \<open>The handler\<close>

text \<open>What may leave the gateway for a client's request: of its headers only those both the endpoint and the
  backend list, and the router's own headers; to a URL that is the path of the backend's URL pattern,
  filled in with the parameters of the route, on one of the hosts, to which exactly the client's query strings
  that both list are added.\<close>

definition only_listed ::
  "(string \<Rightarrow> goerror + url) \<Rightarrow> (url \<Rightarrow> string) \<Rightarrow> string set \<Rightarrow> string gomap \<Rightarrow> endpoint_config \<Rightarrow>
   backend \<Rightarrow> client_request \<Rightarrow> http_request \<Rightarrow> bool" where
  "only_listed parse print hosts params cfg remote r q \<longleftrightarrow>
     (\<forall>k v. map_of (hr_Header q) k = Some v \<longrightarrow>
        (b_HeadersToPass remote = [] \<or> k \<in> set (b_HeadersToPass remote)) \<and>
        (k \<in> set own_headers \<or>
         (if ''*'' \<in> set (endpoint_headers cfg) then map_of (cr_Header r) k = Some v
          else k \<in> set (endpoint_headers cfg) \<and> map_of (cr_Header r) (canonical_mime_header_key k) = Some v))) \<and>
     (\<exists>host u qs. host \<in> hosts \<and>
        parse (host @ q_Path (generate_path (b_URLPattern remote) (request_zero\<lparr>q_Params := params\<rparr>))) = Inr u \<and>
        hr_URL q = print (append_query u qs) \<and> gomap_ok qs \<and>
        (\<forall>k. map_of qs k =
           (if (b_QueryStringsToPass remote = [] \<or> k \<in> set (b_QueryStringsToPass remote)) \<and>
               (''*'' \<in> set (e_QueryString cfg) \<or> k \<in> set (e_QueryString cfg) \<and> map_of (cr_Query r) k \<noteq> Some [])
            then map_of (cr_Query r) k else None))) \<and>
     hr_Method q = (if b_Method remote = [] then ''GET'' else to_upper (b_Method remote)) \<and>
     hr_Body q = body_of remote (cr_Body r)"

lemma generated_path:
  "q_Path (generate_path u (request_from r params ip qs ks)) = q_Path (generate_path u (request_zero\<lparr>q_Params := params\<rparr>))"
  by (simp add: generate_path_def request_from_def)

lemma sent_only_listed:
  assumes "sent_for parse print hosts remote (request_from r params ip (e_QueryString cfg) (endpoint_headers cfg)) q"
    and "gomap_ok (cr_Header r)" and "gomap_ok (cr_Query r)"
  shows "only_listed parse print hosts params cfg remote r q"
proof -
  let ?r = "request_from r params ip (e_QueryString cfg) (endpoint_headers cfg)"
  from assms(1) obtain host u qs where h: "passed (b_HeadersToPass remote) (q_Headers ?r) (hr_Header q)"
    and host: "host \<in> hosts" "parse (host @ q_Path (generate_path (b_URLPattern remote) ?r)) = Inr u"
    and u: "hr_URL q = print (append_query u qs)" and qs: "passed (b_QueryStringsToPass remote) (q_Query ?r) qs"
    and rest: "hr_Method q = (if b_Method remote = [] then ''GET'' else to_upper (b_Method remote))"
      "hr_Body q = body_of remote (q_Body ?r)"
    unfolding sent_for_def by blast
  have "\<forall>k v. map_of (hr_Header q) k = Some v \<longrightarrow>
      (b_HeadersToPass remote = [] \<or> k \<in> set (b_HeadersToPass remote)) \<and>
      (k \<in> set own_headers \<or>
       (if ''*'' \<in> set (endpoint_headers cfg) then map_of (cr_Header r) k = Some v
        else k \<in> set (endpoint_headers cfg) \<and> map_of (cr_Header r) (canonical_mime_header_key k) = Some v))"
    using passed_origin [OF h] router_header_origin by blast
  moreover have "map_of qs k =
      (if (b_QueryStringsToPass remote = [] \<or> k \<in> set (b_QueryStringsToPass remote)) \<and>
          (''*'' \<in> set (e_QueryString cfg) \<or> k \<in> set (e_QueryString cfg) \<and> map_of (cr_Query r) k \<noteq> Some [])
       then map_of (cr_Query r) k else None)" for k
    unfolding map_of_passed [OF qs] map_of_request_query by auto
  moreover have "gomap_ok qs" using passed_ok [OF qs] gomap_ok_request_from [OF assms(2,3)] by blast
  moreover have "hr_Body q = body_of remote (cr_Body r)" using rest(2) by (simp add: request_from_def)
  ultimately show ?thesis unfolding only_listed_def using u rest(1) host [unfolded generated_path] by blast
qed

text \<open>The handler sends what its proxy sends, which is nothing for another method.\<close>

lemma handler_calls:
  assumes "endpoint_handler W renders json rb errF ctx_done cfg prxy r (w, v) = Some (w', v')"
    and "calls log (prxy (endpoint_deadline cfg)) v (rb r (e_QueryString cfg) (endpoint_headers cfg))
      (\<lambda>res xs. length xs \<le> 1 \<and> list_all P xs)"
  shows "\<exists>xs. log v' = log v @ xs \<and> length xs \<le> 1 \<and> list_all P xs \<and>
    (cr_Method r \<noteq> to_upper (e_Method cfg) \<longrightarrow> xs = [])"
  using assms
  by (auto simp: endpoint_handler_def calls_def Let_def split: if_splits ret.splits)

text \<open>Nothing that is not listed leaves the gateway: for a client's request to an endpoint with one
  backend (without plugins, GraphQL or concurrent calls), whatever the transport, the balancer, the parser
  of hosts, the deadline and the executor do, the handler sends at most one request to the backend, and
  none when the method is not the endpoint's. That request has the backend's method and the client's body
  and goes to the path of the backend's URL pattern on a host the balancer offers; each of its headers is the
  router's own or has the client's values under a name that both the endpoint and the backend list, and the
  query strings added to its URL are exactly those of the client that both list.\<close>

theorem gateway_forwards_only_listed:
  assumes "e_Backend cfg = [remote]" and "plain_backend remote"
    and "ec_map (e_ExtraConfig cfg) plugin_Namespace = None"
    and "default_factory_new env race merge T
      (\<lambda>remote. new_http_proxy_with_http_executor T' gunzip check print done remote (recording re) (b_Decoder remote))
      sf cfg = Inr (Built (bs, p))"
    and "gomap_ok (cr_Header r)" and "gomap_ok (cr_Query r)"
    and "endpoint_handler W renders json (mux_new_request split params) errF ctx_done cfg (\<lambda>d. p) r
      (w, bs', v, log) = Some (w', bs'', v', log')"
  shows "\<exists>xs. log' = log @ xs \<and> length xs \<le> 1 \<and> 
      list_all (\<lambda>x. only_listed (fe_parse (ee_backend env)) print (offered (v, log) (bs' ! 0)) (params r) cfg remote r (fst x)) xs \<and>
    (cr_Method r \<noteq> to_upper (e_Method cfg) \<longrightarrow> xs = [])"
proof -
  let ?r = "request_from r (params r) (mux_client_ip split r) (e_QueryString cfg) (endpoint_headers cfg)"
  let ?hosts = "offered (v, log) (bs' ! 0)"
  let ?P = "sent_for (fe_parse (ee_backend env)) print ?hosts remote ?r"
  have "calls (\<lambda>bw. snd (snd bw)) p (bs', v, log) ?r (\<lambda>res xs. length xs \<le> 1 \<and> list_all (\<lambda>x. ?P (fst x)) xs)"
    by (rule calls_endpoint [OF assms(1-4) refl gomap_ok_request_from [OF assms(5,6)]])
  then have "\<exists>xs. log' = log @ xs \<and> length xs \<le> 1 \<and> list_all (\<lambda>x. ?P (fst x)) xs \<and>
      (cr_Method r \<noteq> to_upper (e_Method cfg) \<longrightarrow> xs = [])"
    using handler_calls [OF assms(7), of "\<lambda>bw. snd (snd bw)" "\<lambda>x. ?P (fst x)"] by (simp add: mux_new_request_def)
  moreover have "?P q \<Longrightarrow> only_listed (fe_parse (ee_backend env)) print ?hosts (params r) cfg remote r q" for q
    by (rule sent_only_listed [OF _ assms(5,6)])
  ultimately show ?thesis by (fastforce simp: list_all_iff)
qed

text \<open>An endpoint that forwards \<open>A\<close> and \<open>B\<close> to a backend that is passed \<open>A\<close> only, and a client that
  sends \<open>A\<close>, \<open>B\<close> and \<open>C\<close>.\<close>

definition sample_endpoint :: endpoint_config where
  "sample_endpoint = endpoint_zero\<lparr>e_Method := ''GET'', e_Backend := [sample_backend\<lparr>b_Decoder := Some string_decoder\<rparr>],
     e_HeadersToPass := [''A'', ''B'']\<rparr>"

definition sample_factory_env :: "(unit \<times> exchange list) factory_env" where
  "sample_factory_env = \<lparr>fe_request_modifiers = \<lambda>n. None, fe_response_modifiers = \<lambda>n. None,
     fe_graphql = fe_graphql sample_env, fe_rnd = \<lambda>n. 0, fe_procs = 1,
     fe_parse = \<lambda>s. Inr \<lparr>u_rest = s, u_RawQuery = []\<rparr>\<rparr>"

definition sample_outer_env ::
  "((unit \<times> exchange list) balancer list \<times> unit \<times> exchange list) factory_env" where
  "sample_outer_env = \<lparr>fe_request_modifiers = \<lambda>n. None, fe_response_modifiers = \<lambda>n. None,
     fe_graphql = fe_graphql sample_env, fe_rnd = \<lambda>n. 0, fe_procs = 1,
     fe_parse = \<lambda>s. Inr \<lparr>u_rest = s, u_RawQuery = []\<rparr>\<rparr>"

definition sample_client_request :: client_request where
  "sample_client_request = \<lparr>cr_Method = ''GET'', cr_Path = ''/e'', cr_Query = [(''q'', [''1''])],
     cr_RequestURI = ''/e'', cr_User = [], cr_Fragment = [], cr_Host = ''me'',
     cr_Header = [(''A'', [''1'']), (''B'', [''2'']), (''C'', [''3''])], cr_Body = None,
     cr_RemoteAddr = ''1.1.1.1:1'', cr_ClientIP = [], cr_Params = []\<rparr>"

definition sample_executor :: "unit executor" where
  "sample_executor w q = (Inr sample_http_response, w)"

abbreviation sample_gateway where
  "sample_gateway \<equiv> default_factory_new \<lparr>ee_backend = sample_factory_env, ee_endpoint = sample_outer_env\<rparr>
     (\<lambda>t n p. p) (\<lambda>c ps. BFatal) sample_flat
     (\<lambda>remote. new_http_proxy_with_http_executor sample_flat Inr (\<lambda>m u. None) u_rest (\<lambda>w. None) remote
        (recording sample_executor) (b_Decoder remote))
     fixed_subscriber_factory sample_endpoint"

lemma sample_hosts: "bs = [NopBalancer ''http://h''] \<Longrightarrow> offered w (bs ! 0) = {''http://h''}"
  by (simp add: offered_def balancer_view_def)

lemma sample_gateway_balancers: "sample_gateway = Inr (Built (bs, p)) \<Longrightarrow> bs = [NopBalancer ''http://h'']"
proof -
  assume built: "sample_gateway = Inr (Built (bs, p))"
  have "case sample_gateway of Inr (Built (bs, p)) \<Rightarrow>
      (case bs of [NopBalancer h] \<Rightarrow> h = ''http://h'' | _ \<Rightarrow> False) | _ \<Rightarrow> False" by code_simp
  with built show ?thesis by (cases bs; cases "tl bs"; cases "hd bs") auto
qed

definition sample_sent :: "exchange list option" where
  "sample_sent =
     (case sample_gateway of
        Inr (Built (bs, p)) \<Rightarrow>
          map_option (\<lambda>(w, bs, v, log). log)
            (endpoint_handler net_http [] (\<lambda>w r. Some w) (mux_new_request (\<lambda>s. Some s) (\<lambda>r. [])) default_to_http_error
              (\<lambda>d v. False) sample_endpoint (\<lambda>d. p) sample_client_request (new_net_writer, bs, (), []))
      | _ \<Rightarrow> None)"

lemma sample_sent_headers: "map_option (map (\<lambda>x. hr_Header (fst x))) sample_sent = Some [[(''A'', [''1''])]]"
  by code_simp

theorem gateway_forwards_only_listed_witness:
  "\<exists>q answer. sample_sent = Some [(q, answer)] \<and> hr_Header q = [(''A'', [''1''])] \<and>
     only_listed (fe_parse sample_factory_env) u_rest {''http://h''} [] sample_endpoint
       (sample_backend\<lparr>b_Decoder := Some string_decoder\<rparr>) sample_client_request q"
proof -
  let ?remote = "sample_backend\<lparr>b_Decoder := Some string_decoder\<rparr>"
  from sample_sent_headers obtain q answer where q: "sample_sent = Some [(q, answer)]"
    "hr_Header q = [(''A'', [''1''])]" by auto
  then obtain bs p w bs' v where built: "sample_gateway = Inr (Built (bs, p))"
    and run: "endpoint_handler net_http [] (\<lambda>w r. Some w) (mux_new_request (\<lambda>s. Some s) (\<lambda>r. []))
      default_to_http_error (\<lambda>d v. False) sample_endpoint (\<lambda>d. p) sample_client_request
      (new_net_writer, bs, (), []) = Some (w, bs', v, [(q, answer)])"
    unfolding sample_sent_def by (auto split: sum.splits built.splits)
  have one: "e_Backend sample_endpoint = [?remote]" by (simp add: sample_endpoint_def)
  have plain: "plain_backend ?remote"
    by (simp add: plain_backend_def sample_backend_def backend_zero_def ec_map_def)
  have none: "ec_map (e_ExtraConfig sample_endpoint) plugin_Namespace = None"
    by (simp add: sample_endpoint_def endpoint_zero_def ec_map_def)
  have maps: "gomap_ok (cr_Header sample_client_request)" "gomap_ok (cr_Query sample_client_request)"
    by (simp_all add: sample_client_request_def)
  from gateway_forwards_only_listed [OF one plain none built maps run] q show ?thesis
    by (auto simp: sample_hosts [OF sample_gateway_balancers [OF built]])
qed

section \<open>From the backends to the client\<close>


text \<open>The endpoint above, its one backend behind the merger.\<close>

abbreviation sample_stack where
  "sample_stack \<equiv> new_stack sample_factory_env (\<lambda>t n p. p)
     (\<lambda>remote. new_http_proxy_with_http_executor sample_flat Inr (\<lambda>m u. None) u_rest (\<lambda>w. None) remote
        (recording sample_executor) (b_Decoder remote))
     fixed_subscriber_factory (sample_backend\<lparr>b_Decoder := Some string_decoder\<rparr>)"

definition sample_exchange :: "(vresponse presult \<times> exchange list) option" where
  "sample_exchange =
     (case sample_stack of
        Built (b, p) \<Rightarrow> map_option (\<lambda>(res, b, v, log). (res, log)) (outcome (p (b, (), []) sample_get))
      | _ \<Rightarrow> None)"

lemma sample_exchange_result: "map_option fst sample_exchange = Some (Some sample_http_answer, None)"
  by code_simp

definition sample_page :: "(net_writer \<times> unit) option" where
  "sample_page = endpoint_handler net_http (render_register net_http \<lparr>re_marshal = \<lambda>v. Inr ''{}'', re_reads = \<lambda>b. []\<rparr>)
     (json_render net_http \<lparr>re_marshal = \<lambda>v. Inr ''{}'', re_reads = \<lambda>b. []\<rparr>)
     (\<lambda>r qs hs. sample_get) default_to_http_error (\<lambda>d v. False) sample_endpoint
     (\<lambda>d v r. Ret (Some sample_http_answer, None) r v) sample_client_request (new_net_writer, ())"

lemma sample_page_told:
  "map_option (\<lambda>(w, v). header_get (snd (sent_response w)) CompleteResponseHeaderName) sample_page =
     Some HeaderCompleteResponseValue"
  by code_simp


end
