(* ===== verification/GinGateway.thy ===== *)
theory GinGateway
  imports Gateway GinRouter
begin

text \<open>
  From a client to a backend and back behind gin: the handler of \<open>src/router/gin/endpoint.go\<close> around the
  same proxies as in \<open>Gateway\<close>. A handler leaves the trace of its calls on gin's context; which method it is
  asked for is gin's business.
\<close>

section \<open>The handler around its proxy\<close>

lemma gin_request_eq:
  "gin_new_request (e_HeadersToPass cfg) c (e_QueryString cfg) =
     request_from c (extract_params gin_param_key (cr_Params c)) (cr_ClientIP c) (e_QueryString cfg) (endpoint_headers cfg)"
  by (simp add: gin_new_request_def endpoint_headers_def)

lemma gin_handler_calls:
  assumes "gin_endpoint_handler renders json hv eh msg errF ctx_done cfg prxy c (t, v) = Some (t', v')"
    and "calls log (prxy (endpoint_deadline cfg)) v (gin_new_request (e_HeadersToPass cfg) c (e_QueryString cfg)) R"
  shows "\<exists>xs res. log v' = log v @ xs \<and> R res xs"
  using assms by (auto simp: gin_endpoint_handler_def calls_def Let_def split: ret.splits)

text \<open>The counterpart of \<open>told_complete\<close>.\<close>

lemma gin_told_complete:
  assumes "gin_endpoint_handler (gin_render_register env) (gin_json_render env) hv eh msg errF ctx_done cfg prxy c ([], v) =
      Some (t, v')"
    and "prxy (endpoint_deadline cfg) v (gin_new_request (e_HeadersToPass cfg) c (e_QueryString cfg)) = Ret res q v''"
    and "HeaderCompleteResponseValue \<in> set (set_headers CompleteResponseHeaderName t)"
  shows "\<exists>x e. res = (Some x, e) \<and> r_IsComplete x"
proof -
  let ?rend = "gin_get_render (gin_render_register env) (gin_json_render env) cfg"
  obtain response err where res: "after_proxy (ctx_done (endpoint_deadline cfg) v'') res = (response, err)"
    by (metis prod.exhaust)
  have t: "t = gin_answer eh msg errF cfg ?rend (response, err) [GHeader PucoraHeaderName hv]"
    using assms(1,2) res by (simp add: gin_endpoint_handler_def Let_def)
  have "set_headers CompleteResponseHeaderName t =
      [if has_data response \<and> r_IsComplete (the response) then HeaderCompleteResponseValue else HeaderIncompleteResponseValue]"
    unfolding t by (rule gin_answer_reads [OF quiet_gin_render, unfolded Let_def, THEN conjunct2, THEN conjunct1])
  with assms(3) have "HeaderCompleteResponseValue =
      (if has_data response \<and> r_IsComplete (the response) then HeaderCompleteResponseValue else HeaderIncompleteResponseValue)"
    by (simp only: list.set singleton_iff)
  moreover have "HeaderCompleteResponseValue \<noteq> HeaderIncompleteResponseValue"
    by (simp add: HeaderCompleteResponseValue_def HeaderIncompleteResponseValue_def)
  ultimately have "has_data response \<and> r_IsComplete (the response)" by (meson)
  with res show ?thesis
    by (cases res) (auto simp: after_proxy_def has_data_def split: option.splits)
qed

section \<open>Towards the backend\<close>

text \<open>Nothing that is not listed leaves the gateway behind gin either: for a client's request to an
  endpoint with one backend (without plugins, GraphQL or concurrent calls), whatever gin hands the handler,
  and whatever the transport, the balancer, the parser of hosts, the deadline and the executor do, at
  most one request is sent to the backend, to the path of its URL pattern on a host the balancer offers, with
  the backend's method and the client's body, with headers that are the router's own or listed by both the
  endpoint and the backend with the client's values, and with exactly the query strings that both list.\<close>

theorem gin_forwards_only_listed:
  assumes "e_Backend cfg = [remote]" and "plain_backend remote"
    and "ec_map (e_ExtraConfig cfg) plugin_Namespace = None"
    and "default_factory_new env race merge T
      (\<lambda>remote. new_http_proxy_with_http_executor T' gunzip check print done remote (recording re) (b_Decoder remote))
      sf cfg = Inr (Built (bs, p))"
    and "gomap_ok (cr_Header c)" and "gomap_ok (cr_Query c)"
    and "gin_endpoint_handler renders json hv eh msg errF ctx_done cfg (\<lambda>d. p) c (t, bs', v, log) =
      Some (t', bs'', v', log')"
  shows "\<exists>xs. log' = log @ xs \<and> length xs \<le> 1 \<and> 
    list_all (\<lambda>x. only_listed (fe_parse (ee_backend env)) print (offered (v, log) (bs' ! 0))
      (extract_params gin_param_key (cr_Params c)) cfg remote c (fst x)) xs"
proof -
  let ?r = "request_from c (extract_params gin_param_key (cr_Params c)) (cr_ClientIP c) (e_QueryString cfg) (endpoint_headers cfg)"
  let ?hosts = "offered (v, log) (bs' ! 0)"
  let ?P = "sent_for (fe_parse (ee_backend env)) print ?hosts remote ?r"
  have "calls (\<lambda>bw. snd (snd bw)) p (bs', v, log) ?r (\<lambda>res xs. length xs \<le> 1 \<and> list_all (\<lambda>x. ?P (fst x)) xs)"
    by (rule calls_endpoint [OF assms(1-4) refl gomap_ok_request_from [OF assms(5,6)]])
  then have "\<exists>xs. log' = log @ xs \<and> length xs \<le> 1 \<and> list_all (\<lambda>x. ?P (fst x)) xs"
    using gin_handler_calls [OF assms(7), of "\<lambda>bw. snd (snd bw)"
        "\<lambda>res xs. length xs \<le> 1 \<and> list_all (\<lambda>x. ?P (fst x)) xs"] by (simp add: gin_request_eq)
  moreover have "?P q \<Longrightarrow> only_listed (fe_parse (ee_backend env)) print ?hosts
      (extract_params gin_param_key (cr_Params c)) cfg remote c q" for q
    by (rule sent_only_listed [OF _ assms(5,6)])
  ultimately show ?thesis by (fastforce simp: list_all_iff)
qed

text \<open>The endpoint of \<open>Gateway\<close> that forwards \<open>A\<close> and \<open>B\<close> to a backend that is passed \<open>A\<close> only.\<close>

definition gin_sample_sent :: "exchange list option" where
  "gin_sample_sent =
     (case sample_gateway of
        Inr (Built (bs, p)) \<Rightarrow>
          map_option (\<lambda>(t, bs, v, log). log)
            (gin_endpoint_handler [] (\<lambda>t r. t) ''v'' (\<lambda>e. None) False default_to_http_error
              (\<lambda>d v. False) sample_endpoint (\<lambda>d. p) sample_client_request ([], bs, (), []))
      | _ \<Rightarrow> None)"

lemma gin_sample_sent_headers: "map_option (map (\<lambda>x. hr_Header (fst x))) gin_sample_sent = Some [[(''A'', [''1''])]]"
  by code_simp

theorem gin_forwards_only_listed_witness:
  "\<exists>q answer. gin_sample_sent = Some [(q, answer)] \<and> hr_Header q = [(''A'', [''1''])] \<and>
     only_listed (fe_parse sample_factory_env) u_rest {''http://h''} [] sample_endpoint
       (sample_backend\<lparr>b_Decoder := Some string_decoder\<rparr>) sample_client_request q"
proof -
  let ?remote = "sample_backend\<lparr>b_Decoder := Some string_decoder\<rparr>"
  from gin_sample_sent_headers obtain q answer where q: "gin_sample_sent = Some [(q, answer)]"
    "hr_Header q = [(''A'', [''1''])]" by auto
  then obtain bs p t bs' v where built: "sample_gateway = Inr (Built (bs, p))"
    and run: "gin_endpoint_handler [] (\<lambda>t r. t) ''v'' (\<lambda>e. None) False default_to_http_error
      (\<lambda>d v. False) sample_endpoint (\<lambda>d. p) sample_client_request ([], bs, (), []) = Some (t, bs', v, [(q, answer)])"
    unfolding gin_sample_sent_def by (auto split: sum.splits built.splits)
  have one: "e_Backend sample_endpoint = [?remote]" by (simp add: sample_endpoint_def)
  have plain: "plain_backend ?remote"
    by (simp add: plain_backend_def sample_backend_def backend_zero_def ec_map_def)
  have none: "ec_map (e_ExtraConfig sample_endpoint) plugin_Namespace = None"
    by (simp add: sample_endpoint_def endpoint_zero_def ec_map_def)
  have maps: "gomap_ok (cr_Header sample_client_request)" "gomap_ok (cr_Query sample_client_request)"
    by (simp_all add: sample_client_request_def)
  from gin_forwards_only_listed [OF one plain none built maps run] q show ?thesis
    by (auto simp: sample_hosts [OF sample_gateway_balancers [OF built]] extract_params_def sample_client_request_def)
qed

section \<open>Towards the client\<close>

text \<open>Behind gin, too, a client that is told a merged response is complete got it from backends that all
  answered their one request with status 200 or 201.\<close>

lemma gin_complete_means_answered:
  assumes "par_reach res ce is s" and "par_returns s"
    and "\<forall>i \<in> set is. \<forall>x e. res i = (Some x, e) \<longrightarrow> gomap_ok (data_of x)"
    and "\<forall>i \<in> set is. calls (log i) (p i) (w i) (req i) (honest (P i)) \<and> outcome (p i (w i) (req i)) = Some (res i, w' i)"
    and "prxy (endpoint_deadline cfg) v (gin_new_request (e_HeadersToPass cfg) c (e_QueryString cfg)) = Ret (par_result s) r' v'"
    and "gin_endpoint_handler (gin_render_register env) (gin_json_render env) hv eh msg errF ctx_done cfg prxy c ([], v) =
      Some (t, v'')"
    and "HeaderCompleteResponseValue \<in> set (set_headers CompleteResponseHeaderName t)"
  shows "\<forall>i \<in> set is. \<exists>q resp. log i (w' i) = log i (w i) @ [(q, Inr resp)] \<and> status_ok resp \<and> P i q"
proof
  fix i assume i: "i \<in> set is"
  from gin_told_complete [OF assms(6,5,7)] obtain d e where "par_result s = (Some d, e)" "r_IsComplete d" by blast
  from par_complete [OF assms(1-3) this i] obtain x where x: "res i = (Some x, None)" "r_IsComplete x" by blast
  from assms(4) i have "calls (log i) (p i) (w i) (req i) (honest (P i))"
    "outcome (p i (w i) (req i)) = Some (res i, w' i)" by blast+
  with x show "\<exists>q resp. log i (w' i) = log i (w i) @ [(q, Inr resp)] \<and> status_ok resp \<and> P i q"
    by (auto simp: calls_def honest_def)
qed

end
