(* ===== verification/RouterFlavours.thy ===== *)
theory RouterFlavours
  imports MuxEngine
begin

text \<open>
  The routers over other engines: chi (\<open>src/router/chi/router.go\<close>), which registers endpoints itself,
  and gorilla, httptreemux and negroni (\<open>src/router/gorilla/router.go\<close>,
  \<open>src/router/httptreemux/router.go\<close>, \<open>src/router/negroni/router.go\<close>), which hand an engine and a
  configuration to the \<open>net/http\<close> router of \<open>MuxEngine\<close>. The engines are third-party code: what they do
  with a registration is a parameter, \<open>None\<close> where they panic.
\<close>

section \<open>Chi\<close>

record ('e, 'h) chi_ops =
  ch_Use :: "('h \<Rightarrow> 'h) list \<Rightarrow> 'e \<Rightarrow> 'e option"
  ch_Route :: "string \<Rightarrow> string \<Rightarrow> 'h \<Rightarrow> 'e \<Rightarrow> 'e option"  \<comment> \<open>\<open>Get\<close>, \<open>Post\<close>, \<dots>: method and pattern\<close>
  ch_NotFound :: "'h \<Rightarrow> 'e \<Rightarrow> 'e option"

record ('e, 'h, 'p) chi_config =
  xc_Engine :: "('e, 'h) chi_ops"
  xc_Middlewares :: "('h \<Rightarrow> 'h) list"
  xc_HandlerFactory :: "endpoint_config \<Rightarrow> 'p \<Rightarrow> 'h"
  xc_ProxyFactory :: "endpoint_config \<Rightarrow> goerror + 'p"
  xc_DebugPattern :: string

definition ChiDefaultDebugPattern :: string where "ChiDefaultDebugPattern = ''/__debug/''"

definition chi_new_factory :: "('e, 'h, 'p) chi_config \<Rightarrow> ('e, 'h, 'p) chi_config" where
  "chi_new_factory cfg =
     (if xc_DebugPattern cfg = [] then cfg\<lparr>xc_DebugPattern := ChiDefaultDebugPattern\<rparr> else cfg)"

definition chi_default_factory ::
  "('e, 'h) chi_ops \<Rightarrow> ('h \<Rightarrow> 'h) \<Rightarrow> (endpoint_config \<Rightarrow> 'p \<Rightarrow> 'h) \<Rightarrow> (endpoint_config \<Rightarrow> goerror + 'p) \<Rightarrow>
   ('e, 'h, 'p) chi_config" where
  "chi_default_factory ops middleware_Logger newEndpointHandler proxyFactory =
     chi_new_factory \<lparr>xc_Engine = ops, xc_Middlewares = [middleware_Logger],
       xc_HandlerFactory = newEndpointHandler, xc_ProxyFactory = proxyFactory,
       xc_DebugPattern = ChiDefaultDebugPattern\<rparr>"

definition chi_register_debug_endpoints :: "('e, 'h, 'p) chi_config \<Rightarrow> 'h \<Rightarrow> 'e \<Rightarrow> 'e option" where
  "chi_register_debug_endpoints rc debugHandler e =
     (let route = (\<lambda>m e. ch_Route (xc_Engine rc) m (xc_DebugPattern rc) debugHandler e)
      in Option.bind (route ''GET'' e) (\<lambda>e. Option.bind (route ''POST'' e) (\<lambda>e.
         Option.bind (route ''PUT'' e) (\<lambda>e. Option.bind (route ''PATCH'' e) (route ''DELETE'')))))"

definition chi_register_pucora_endpoint ::
  "('e, 'h) chi_ops \<Rightarrow> string \<Rightarrow> endpoint_config \<Rightarrow> 'h \<Rightarrow> nat \<Rightarrow> 'e \<Rightarrow> 'e option" where
  "chi_register_pucora_endpoint ops method endpoint h totBackends e =
     (let method = to_upper method; path = e_Endpoint endpoint
      in if method \<noteq> ''GET'' \<and> totBackends > 1 \<and> \<not> is_valid_sequential_endpoint endpoint then Some e
         else if method = ''GET'' then ch_Route ops ''GET'' path h e
         else if method = ''POST'' then ch_Route ops ''POST'' path h e
         else if method = ''PUT'' then ch_Route ops ''PUT'' path h e
         else if method = ''PATCH'' then ch_Route ops ''PATCH'' path h e
         else if method = ''DELETE'' then ch_Route ops ''DELETE'' path h e
         else Some e)"

fun chi_register_pucora_endpoints ::
  "('e, 'h, 'p) chi_config \<Rightarrow> endpoint_config list \<Rightarrow> 'e \<Rightarrow> 'e option" where
  "chi_register_pucora_endpoints rc [] e = Some e"
| "chi_register_pucora_endpoints rc (c # cs) e =
     (case xc_ProxyFactory rc c of
        Inl err \<Rightarrow> chi_register_pucora_endpoints rc cs e
      | Inr proxyStack \<Rightarrow>
          (case chi_register_pucora_endpoint (xc_Engine rc) (e_Method c) c (xc_HandlerFactory rc c proxyStack)
                  (length (e_Backend c)) e of
             None \<Rightarrow> None
           | Some e' \<Rightarrow> chi_register_pucora_endpoints rc cs e'))"

text \<open>The answer where no route matches.\<close>

definition chi_not_found_handler :: "'w writer \<Rightarrow> ('w, 'v) handler" where
  "chi_not_found_handler W r wv =
     (case wv of (w, v) \<Rightarrow>
        map_option (\<lambda>w. (w, v)) (http_error W ''404 page not found'' 404
          (header_set W CompleteResponseHeaderName HeaderIncompleteResponseValue w)))"

text \<open>\<open>chiRouter.Run\<close> up to the call of \<open>RunServer\<close>; \<open>Use\<close> panics when there are routes already, so it
  comes first.\<close>

definition chi_run ::
  "('e, 'h, 'p) chi_config \<Rightarrow> 'h \<Rightarrow> 'h \<Rightarrow> 'h \<Rightarrow> service_config \<Rightarrow> 'e \<Rightarrow> 'e option" where
  "chi_run rc debugH healthH notFoundH cfg e =
     Option.bind (ch_Use (xc_Engine rc) (xc_Middlewares rc) e) (\<lambda>e.
     Option.bind (if s_Debug cfg then chi_register_debug_endpoints rc debugH e else Some e) (\<lambda>e.
     Option.bind (ch_Route (xc_Engine rc) ''GET'' ''/__health'' healthH e) (\<lambda>e.
     Option.bind (chi_register_pucora_endpoints rc (s_Endpoints cfg) e) (\<lambda>e.
       ch_NotFound (xc_Engine rc) notFoundH e))))"

section \<open>Gorilla, httptreemux and negroni\<close>

text \<open>First the default configuration of the \<open>net/http\<close> router itself.\<close>

definition mux_default_factory ::
  "(string \<Rightarrow> string \<Rightarrow> 'h \<Rightarrow> 'e \<Rightarrow> 'e option) \<Rightarrow> (endpoint_config \<Rightarrow> 'p \<Rightarrow> 'h) \<Rightarrow>
   (endpoint_config \<Rightarrow> goerror + 'p) \<Rightarrow> ('e, 'h, 'p) router_config" where
  "mux_default_factory defaultEngine_Handle endpointHandler pf =
     \<lparr>rc_handle = defaultEngine_Handle, rc_HandlerFactory = endpointHandler, rc_ProxyFactory = pf,
      rc_DebugPattern = DefaultDebugPattern, rc_EchoPattern = DefaultEchoPattern\<rparr>"

text \<open>The engines: \<open>route\<close> is gorilla's \<open>Handle(pattern, handler).Methods(methods)\<close> and httptreemux's
  \<open>Handle(method, pattern, handler)\<close>. Every handler the router registers is a \<open>http.HandlerFunc\<close>, as
  httptreemux's engine asserts.\<close>

definition gorilla_handle ::
  "(string \<Rightarrow> 'h \<Rightarrow> string list \<Rightarrow> 'e \<Rightarrow> 'e option) \<Rightarrow> string \<Rightarrow> string \<Rightarrow> 'h \<Rightarrow> 'e \<Rightarrow> 'e option" where
  "gorilla_handle route pattern method h e = route pattern h [method] e"

definition tree_handle ::
  "(string \<Rightarrow> string \<Rightarrow> 'h \<Rightarrow> 'e \<Rightarrow> 'e option) \<Rightarrow> string \<Rightarrow> string \<Rightarrow> 'h \<Rightarrow> 'e \<Rightarrow> 'e option" where
  "tree_handle route pattern method h e = route method pattern h e"

text \<open>\<open>ServeHTTP\<close> of the three: the engine's own, behind the interceptor.\<close>

definition gorilla_serve :: "('w \<times> bool, 'v) handler \<Rightarrow> ('w, 'v) handler" where
  "gorilla_serve serve r wv =
     (case wv of (w, v) \<Rightarrow>
        map_option (\<lambda>(i, v'). (fst i, v')) (serve r (new_http_error_interceptor w, v)))"

definition tree_serve :: "('w \<times> bool, 'v) handler \<Rightarrow> ('w, 'v) handler" where
  "tree_serve serve r wv =
     (case wv of (w, v) \<Rightarrow>
        map_option (\<lambda>(i, v'). (fst i, v')) (serve r (new_http_error_interceptor w, v)))"

definition gorilla_default_config ::
  "(string \<Rightarrow> 'h \<Rightarrow> string list \<Rightarrow> 'e \<Rightarrow> 'e option) \<Rightarrow> ((client_request \<Rightarrow> string gomap) \<Rightarrow> endpoint_config \<Rightarrow> 'p \<Rightarrow> 'h) \<Rightarrow>
   (client_request \<Rightarrow> string gomap) \<Rightarrow> (endpoint_config \<Rightarrow> goerror + 'p) \<Rightarrow> ('e, 'h, 'p) router_config" where
  "gorilla_default_config route customEndpointHandler paramsExtractor pf =
     \<lparr>rc_handle = gorilla_handle route, rc_HandlerFactory = customEndpointHandler paramsExtractor,
      rc_ProxyFactory = pf, rc_DebugPattern = ''/__debug/{params}'', rc_EchoPattern = ''/__echo/{params}''\<rparr>"

definition tree_default_config ::
  "(string \<Rightarrow> string \<Rightarrow> 'h \<Rightarrow> 'e \<Rightarrow> 'e option) \<Rightarrow> ((client_request \<Rightarrow> string gomap) \<Rightarrow> endpoint_config \<Rightarrow> 'p \<Rightarrow> 'h) \<Rightarrow>
   (client_request \<Rightarrow> string gomap) \<Rightarrow> (endpoint_config \<Rightarrow> goerror + 'p) \<Rightarrow> ('e, 'h, 'p) router_config" where
  "tree_default_config route customEndpointHandler paramsExtractor pf =
     \<lparr>rc_handle = tree_handle route, rc_HandlerFactory = customEndpointHandler paramsExtractor,
      rc_ProxyFactory = pf, rc_DebugPattern = ''/__debug/{params}'', rc_EchoPattern = []\<rparr>"

definition gorilla_default_factory where
  "gorilla_default_factory route customEndpointHandler paramsExtractor pf =
     new_factory (gorilla_default_config route customEndpointHandler paramsExtractor pf)"

definition tree_default_factory where
  "tree_default_factory route customEndpointHandler paramsExtractor pf =
     new_factory (tree_default_config route customEndpointHandler paramsExtractor pf)"

text \<open>Negroni: a chain of handlers that ends in a gorilla router, which registrations go to.\<close>

datatype 'm negroni_handler = Foreign 'm | GorillaRouter

record ('e, 'm) negroni_engine =
  ng_r :: 'e
  ng_n :: "'m negroni_handler list"

definition new_negroni_engine :: "'m list \<Rightarrow> 'e \<Rightarrow> 'm list \<Rightarrow> ('e, 'm) negroni_engine" where
  "new_negroni_engine classic muxEngine middlewares =
     \<lparr>ng_r = muxEngine, ng_n = foldl (\<lambda>ms m. ms @ [Foreign m]) (map Foreign classic) middlewares @ [GorillaRouter]\<rparr>"

definition negroni_handle ::
  "(string \<Rightarrow> 'h \<Rightarrow> string list \<Rightarrow> 'e \<Rightarrow> 'e option) \<Rightarrow> string \<Rightarrow> string \<Rightarrow> 'h \<Rightarrow> ('e, 'm) negroni_engine \<Rightarrow>
   ('e, 'm) negroni_engine option" where
  "negroni_handle route pattern method h e = map_option (\<lambda>r. e\<lparr>ng_r := r\<rparr>) (route pattern h [method] (ng_r e))"

text \<open>\<open>serve\<close> is negroni's: it runs the chain over the registrations.\<close>

definition negroni_serve ::
  "('e \<Rightarrow> 'm negroni_handler list \<Rightarrow> ('w \<times> bool, 'v) handler) \<Rightarrow> ('e, 'm) negroni_engine \<Rightarrow> ('w, 'v) handler" where
  "negroni_serve serve e r wv =
     (case wv of (w, v) \<Rightarrow>
        map_option (\<lambda>(i, v'). (fst i, v')) (serve (ng_r e) (ng_n e) r (new_http_error_interceptor w, v)))"

definition negroni_default_config ::
  "(string \<Rightarrow> 'h \<Rightarrow> string list \<Rightarrow> 'e \<Rightarrow> 'e option) \<Rightarrow> ((client_request \<Rightarrow> string gomap) \<Rightarrow> endpoint_config \<Rightarrow> 'p \<Rightarrow> 'h) \<Rightarrow>
   (client_request \<Rightarrow> string gomap) \<Rightarrow> (endpoint_config \<Rightarrow> goerror + 'p) \<Rightarrow>
   (('e, 'm) negroni_engine, 'h, 'p) router_config" where
  "negroni_default_config route customEndpointHandler paramsExtractor pf =
     (case gorilla_default_config route customEndpointHandler paramsExtractor pf of
        cfg \<Rightarrow> \<lparr>rc_handle = negroni_handle route, rc_HandlerFactory = rc_HandlerFactory cfg,
                rc_ProxyFactory = rc_ProxyFactory cfg, rc_DebugPattern = rc_DebugPattern cfg,
                rc_EchoPattern = rc_EchoPattern cfg\<rparr>)"

definition negroni_default_factory where
  "negroni_default_factory route customEndpointHandler paramsExtractor pf =
     new_factory (negroni_default_config route customEndpointHandler paramsExtractor pf)"

section \<open>What they serve\<close>

text \<open>Chi's registration is that of the \<open>net/http\<close> router, method and pattern swapped.\<close>

definition chi_handle :: "('e, 'h) chi_ops \<Rightarrow> string \<Rightarrow> string \<Rightarrow> 'h \<Rightarrow> 'e \<Rightarrow> 'e option" where
  "chi_handle ops pattern method h e = ch_Route ops method pattern h e"

lemma chi_register_endpoint_eq:
  "chi_register_pucora_endpoint ops m c h n e = register_pucora_endpoint (chi_handle ops) m c h n e"
  unfolding chi_register_pucora_endpoint_def register_pucora_endpoint_def Let_def chi_handle_def by simp

lemma chi_register_endpoints_eq:
  "chi_register_pucora_endpoints rc cs e =
     register_pucora_endpoints (chi_handle (xc_Engine rc)) (xc_ProxyFactory rc) (xc_HandlerFactory rc) cs e"
  by (induction cs arbitrary: e) (auto simp: chi_register_endpoint_eq split: sum.split option.split)

lemma chi_register_debug_eq:
  "chi_register_debug_endpoints rc h e =
     handle_methods (chi_handle (xc_Engine rc)) (xc_DebugPattern rc) routable_methods h e"
  by (simp add: chi_register_debug_endpoints_def routable_methods_def chi_handle_def Let_def bind_eq_Some_conv
      split: option.split)

text \<open>The chi router over an engine that keeps one handler per pattern and method, whatever middlewares
  and whatever handler of unknown routes it is given: like the router over the basic engine, without
  the echo endpoint and with the debug endpoint at five methods.\<close>

lemma chi_dispatch:
  assumes route: "\<And>p m h e e' k. ch_Route (xc_Engine rc) m p h e = Some e' \<Longrightarrow>
      look e' k = (if k = (p, m) then Some h else look e k)"
    and keep: "\<And>ms e e' k. ch_Use (xc_Engine rc) ms e = Some e' \<Longrightarrow> look e' k = look e k"
      "\<And>h e e' k. ch_NotFound (xc_Engine rc) h e = Some e' \<Longrightarrow> look e' k = look e k"
    and run: "chi_run rc dh hh nf cfg e = Some e'"
  shows "look e' k =
    (case endpoint_serving (xc_ProxyFactory rc) (xc_HandlerFactory rc) k (s_Endpoints cfg) of
       Some h \<Rightarrow> Some h
     | None \<Rightarrow>
         if k = (''/__health'', ''GET'') then Some hh
         else if s_Debug cfg \<and> fst k = xc_DebugPattern rc \<and> snd k \<in> set routable_methods then Some dh
         else look e k)"
proof -
  have laws: "dispatching_engine (chi_handle (xc_Engine rc)) look"
    by unfold_locales (use route in \<open>auto simp: chi_handle_def\<close>)
  note methods = dispatching_engine.look_handle_methods [OF laws]
  note endpoints = dispatching_engine.look_register_endpoints [OF laws]
  from run obtain e1 e2 e3 e4 where
    one: "ch_Use (xc_Engine rc) (xc_Middlewares rc) e = Some e1"
    and two: "(if s_Debug cfg then handle_methods (chi_handle (xc_Engine rc)) (xc_DebugPattern rc) routable_methods dh e1
               else Some e1) = Some e2"
    and three: "ch_Route (xc_Engine rc) ''GET'' ''/__health'' hh e2 = Some e3"
    and four: "register_pucora_endpoints (chi_handle (xc_Engine rc)) (xc_ProxyFactory rc) (xc_HandlerFactory rc)
                 (s_Endpoints cfg) e3 = Some e4"
    and five: "ch_NotFound (xc_Engine rc) nf e4 = Some e'"
    unfolding chi_run_def chi_register_endpoints_eq chi_register_debug_eq bind_eq_Some_conv by blast
  have "look e2 k = (if s_Debug cfg \<and> fst k = xc_DebugPattern rc \<and> snd k \<in> set routable_methods then Some dh else look e1 k)"
    using two methods [of "xc_DebugPattern rc" routable_methods dh e1 e2 k] by (simp split: if_splits)
  then show ?thesis
    using keep(1) [OF one, of k] route [OF three, of k] endpoints [OF four, of k] keep(2) [OF five, of k]
    by (simp only:)
qed

text \<open>The default configuration of the httptreemux router names no echo pattern, and its factory only fills
  in the debug pattern: with the echo endpoint on, the router asks the engine for the empty pattern, on
  which httptreemux panics.\<close>

lemma tree_echo_panics:
  assumes "\<And>m h e. route m [] h e = None" and "s_Echo cfg"
  shows "run_registrations (tree_default_factory route hf ex pf) dh eh hh cfg e = None"
  using assms
  by (auto simp: run_registrations_def tree_default_factory_def new_factory_def tree_default_config_def
      tree_handle_def http_methods_def bind_eq_None_conv)

text \<open>Negroni runs its classic middlewares, then the given ones, then the router.\<close>

lemma negroni_chain:
  "ng_n (new_negroni_engine classic e ms) = map Foreign (classic @ ms) @ [GorillaRouter]"
proof -
  have "foldl (\<lambda>ms m. ms @ [Foreign m]) xs ms = xs @ map Foreign ms" for xs
    by (induction ms arbitrary: xs) auto
  then show ?thesis by (simp add: new_negroni_engine_def)
qed

end
