(* ===== verification/RouterRuns.thy ===== *)
theory RouterRuns
  imports RouterFlavours GinEngine Server Logging
begin

text \<open>
  Running a router: \<open>Run\<close> of \<open>src/router/mux/router.go\<close>, \<open>src/router/chi/router.go\<close> and
  \<open>src/router/gin/router.go\<close>, from the registration to the end of the server, with what they log on the
  way. The server is a parameter, \<open>runServer\<close>; \<open>Server\<close> models the one the routers are given.
\<close>

section \<open>What the registration logs\<close>

definition ErrServerClosed :: goerror where "ErrServerClosed = ErrMsg ''http: Server closed''"

definition mux_logPrefix :: string where "mux_logPrefix = ''[SERVICE: Mux]''"
definition gin_logPrefix :: string where "gin_logPrefix = ''[SERVICE: Gin]''"
definition chi_logPrefix :: string where "chi_logPrefix = ''[SERVICE: Chi]''"

definition sequential_refused :: string where
  "sequential_refused = ''endpoints with sequential proxy enabled only allow a non-GET in the last backend! Ignoring''"

definition mux_endpoint_log :: "(endpoint_config \<Rightarrow> goerror + 'p) \<Rightarrow> endpoint_config \<Rightarrow> messages" where
  "mux_endpoint_log pf c =
     (case pf c of
        Inl err \<Rightarrow> [(LError, [mux_logPrefix, ''Calling the ProxyFactory'', error_text err])]
      | Inr proxyStack \<Rightarrow>
          (let method = to_upper (e_Method c)
           in if method \<noteq> ''GET'' \<and> length (e_Backend c) > 1 \<and> \<not> is_valid_sequential_endpoint c
              then [(LError, [mux_logPrefix, method, '' '' @ sequential_refused, e_Endpoint c])]
              else if method \<in> {''GET'', ''POST'', ''PUT'', ''PATCH'', ''DELETE''}
              then [(LDebug, [mux_logPrefix, ''Registering the endpoint'', method, e_Endpoint c])]
              else [(LError, [mux_logPrefix, ''Unsupported method'', method])]))"

definition chi_endpoint_log :: "(endpoint_config \<Rightarrow> goerror + 'p) \<Rightarrow> endpoint_config \<Rightarrow> messages" where
  "chi_endpoint_log pf c =
     (case pf c of
        Inl err \<Rightarrow> [(LError, [chi_logPrefix, ''calling the ProxyFactory'', error_text err])]
      | Inr proxyStack \<Rightarrow>
          (let method = to_upper (e_Method c)
           in if method \<noteq> ''GET'' \<and> length (e_Backend c) > 1 \<and> \<not> is_valid_sequential_endpoint c
              then [(LError, [chi_logPrefix, method, sequential_refused, e_Endpoint c])]
              else if method \<in> {''GET'', ''POST'', ''PUT'', ''PATCH'', ''DELETE''}
              then [(LDebug, [chi_logPrefix, ''registering the endpoint'', method, e_Endpoint c])]
              else [(LError, [chi_logPrefix, ''Unsupported method'', method])]))"

text \<open>gin's router says nothing of an endpoint it registers, and registers one whose proxy it could not
  build all the same, with the handler that fails.\<close>

definition gin_method_log :: "string \<Rightarrow> nat \<Rightarrow> endpoint_config \<Rightarrow> messages" where
  "gin_method_log method totBackends c =
     (let method = to_upper method
      in if method \<noteq> ''GET'' \<and> totBackends > 1 \<and> \<not> is_valid_sequential_endpoint c
         then [(LError, [gin_logPrefix, method, sequential_refused, e_Endpoint c])]
         else if method \<in> set routable_methods then []
         else [(LError, [gin_logPrefix, ''[ENDPOINT:'', e_Endpoint c, ''] Unsupported method'', method])])"

definition gin_endpoint_log :: "(endpoint_config \<Rightarrow> goerror + 'p) \<Rightarrow> endpoint_config \<Rightarrow> messages" where
  "gin_endpoint_log pf c =
     (if is_websocket_endpoint c then gin_method_log ''GET'' (length (e_Backend c)) c
      else case pf c of
             Inl err \<Rightarrow>
               (LError, [gin_logPrefix, ''Calling the ProxyFactory'', error_text err]) # gin_method_log (e_Method c) 1 c
           | Inr proxyStack \<Rightarrow> gin_method_log (e_Method c) (length (e_Backend c)) c)"

definition gin_registration_log :: "(endpoint_config \<Rightarrow> goerror + 'p) \<Rightarrow> service_config \<Rightarrow> messages" where
  "gin_registration_log pf cfg =
     concat (map (gin_endpoint_log pf) (s_Endpoints cfg)) @
     (if auto_options cfg then [(LDebug, [gin_logPrefix, ''Enabling the auto options endpoints''])] else [])"

section \<open>Running\<close>

text \<open>\<open>Run\<close> of the three kinds of routers: the engine is configured, which can panic (\<open>None\<close>), then
  \<open>runServer\<close> serves and returns. The result is all that is logged. A middleware is what it does to a
  handler, with how it prints. The gin router does not report the error of a server that was closed.\<close>

definition mux_router_run ::
  "('e, 'h, 'p) router_config \<Rightarrow> (string \<times> ('h \<Rightarrow> 'h)) list \<Rightarrow> ('e \<Rightarrow> 'h) \<Rightarrow> 'h \<Rightarrow> 'h \<Rightarrow> 'h \<Rightarrow>
   (service_config \<Rightarrow> 'h \<Rightarrow> goerror option) \<Rightarrow> service_config \<Rightarrow> 'e \<Rightarrow> messages option" where
  "mux_router_run rc middlewares serve debugH echoH healthH runServer cfg e =
     (case run_registrations rc debugH echoH healthH cfg e of
        None \<Rightarrow> None
      | Some e \<Rightarrow>
          Some (concat (map (mux_endpoint_log (rc_ProxyFactory rc)) (s_Endpoints cfg)) @
                map (\<lambda>m. (LDebug, [mux_logPrefix, ''Adding the middleware'', fst m])) middlewares @
                (case runServer cfg (router_handler (map snd middlewares) (serve e)) of
                   None \<Rightarrow> []
                 | Some err \<Rightarrow> [(LError, [mux_logPrefix, error_text err])]) @
                [(LInfo, [mux_logPrefix, ''Router execution ended''])]))"

definition chi_router_run ::
  "('e, 'h, 'p) chi_config \<Rightarrow> 'h \<Rightarrow> 'h \<Rightarrow> 'h \<Rightarrow> (service_config \<Rightarrow> 'e \<Rightarrow> goerror option) \<Rightarrow>
   service_config \<Rightarrow> 'e \<Rightarrow> messages option" where
  "chi_router_run rc debugH healthH notFoundH runServer cfg e =
     (case chi_run rc debugH healthH notFoundH cfg e of
        None \<Rightarrow> None
      | Some e \<Rightarrow>
          Some (concat (map (chi_endpoint_log (xc_ProxyFactory rc)) (s_Endpoints cfg)) @
                (case runServer cfg e of
                   None \<Rightarrow> []
                 | Some err \<Rightarrow> [(LError, [chi_logPrefix, error_text err])]) @
                [(LInfo, [chi_logPrefix, ''Router execution ended''])]))"

text \<open>The parts of a gin router. The engine and the middlewares are gin's: \<open>handler\<close> is
  \<open>gin.Engine.Handler\<close>, which the router wraps in a \<open>safeCaster\<close> (\<open>wrap\<close>).\<close>

record ('g, 'm, 'h, 'p, 'x) gin_config =
  gf_Engine :: 'g
  gf_Middlewares :: "'m list"
  gf_HandlerFactory :: "endpoint_config \<Rightarrow> 'p \<Rightarrow> 'h"
  gf_ProxyFactory :: "endpoint_config \<Rightarrow> goerror + 'p"
  gf_RunServer :: "service_config \<Rightarrow> 'x \<Rightarrow> goerror option"

definition gin_new_factory :: "('g, 'm, 'h, 'p, 'x) gin_config \<Rightarrow> ('g, 'm, 'h, 'p, 'x) gin_config" where
  "gin_new_factory cfg = cfg"

definition gin_default_factory ::
  "'g \<Rightarrow> (endpoint_config \<Rightarrow> 'p \<Rightarrow> 'h) \<Rightarrow> (service_config \<Rightarrow> 'x \<Rightarrow> goerror option) \<Rightarrow>
   (endpoint_config \<Rightarrow> goerror + 'p) \<Rightarrow> ('g, 'm, 'h, 'p, 'x) gin_config" where
  "gin_default_factory gin_Default endpointHandler runServer proxyFactory =
     gin_new_factory \<lparr>gf_Engine = gin_Default, gf_Middlewares = [], gf_HandlerFactory = endpointHandler,
       gf_ProxyFactory = proxyFactory, gf_RunServer = runServer\<rparr>"

definition gin_router_run ::
  "('h route_call list \<Rightarrow> 'h route_call \<Rightarrow> bool) \<Rightarrow> 'h \<Rightarrow> 'h \<Rightarrow> 'h \<Rightarrow> 'p \<Rightarrow>
   ('g \<Rightarrow> 'm list \<Rightarrow> 'h gin_router \<Rightarrow> 'x) \<Rightarrow> ('x \<Rightarrow> 'x) \<Rightarrow> ('g, 'm, 'h, 'p, 'x) gin_config \<Rightarrow>
   service_config \<Rightarrow> messages option" where
  "gin_router_run refuses debugH echoH failed noop handler wrap rc cfg =
     (case register_endpoints_and_middlewares refuses debugH echoH failed noop (gf_ProxyFactory rc)
             (gf_HandlerFactory rc) cfg new_gin_router of
        None \<Rightarrow> None
      | Some st \<Rightarrow>
          Some (gin_registration_log (gf_ProxyFactory rc) cfg @
                [(LInfo, [''[SERVICE: Gin] Listening on port:'', show_int (s_Port cfg)])] @
                (case gf_RunServer rc cfg (wrap (handler (gf_Engine rc) (gf_Middlewares rc) st)) of
                   None \<Rightarrow> []
                 | Some err \<Rightarrow> if err = ErrServerClosed then [] else [(LError, [gin_logPrefix, error_text err])]) @
                [(LInfo, [gin_logPrefix, ''Router execution ended''])]))"

section \<open>No endpoint is dropped silently\<close>

definition errors_in :: "messages \<Rightarrow> messages" where
  "errors_in ms = filter (\<lambda>m. fst m = LError) ms"

lemma read_log [simp]:
  "errors_in [] = []" "errors_in (ms @ ns) = errors_in ms @ errors_in ns"
  "errors_in ((l, v) # ms) = (if l = LError then (l, v) # errors_in ms else errors_in ms)"
  by (simp_all add: errors_in_def)

text \<open>Why an endpoint is not served, as it is reported: the proxy could not be built, or the method is none
  of the five.\<close>

definition unserved :: "(endpoint_config \<Rightarrow> goerror + 'p) \<Rightarrow> endpoint_config \<Rightarrow> string list option" where
  "unserved pf c =
     (case pf c of
        Inl err \<Rightarrow> Some [mux_logPrefix, ''Calling the ProxyFactory'', error_text err]
      | Inr _ \<Rightarrow>
          if to_upper (e_Method c) \<in> {''GET'', ''POST'', ''PUT'', ''PATCH'', ''DELETE''} then None
          else Some [mux_logPrefix, ''Unsupported method'', to_upper (e_Method c)])"

abbreviation route_key :: "endpoint_config \<Rightarrow> string \<times> string" where
  "route_key c \<equiv> (e_Endpoint c, to_upper (e_Method c))"

lemma serves_unserved: "serves pf k c \<longleftrightarrow> k = route_key c \<and> unserved pf c = None"
  by (simp add: serves_def unserved_def routable_methods_def split: sum.split)

lemma mux_endpoint_told:
  "mux_endpoint_log pf c =
     [case unserved pf c of
        None \<Rightarrow> (LDebug, [mux_logPrefix, ''Registering the endpoint'', to_upper (e_Method c), e_Endpoint c])
      | Some v \<Rightarrow> (LError, v)]"
  unfolding mux_endpoint_log_def unserved_def is_valid_sequential_endpoint_def Let_def
  by (simp split: sum.split)

lemma endpoint_serving_last:
  "endpoint_serving pf hf k cs =
     (case filter (\<lambda>c. route_key c = k \<and> unserved pf c = None) (rev cs) of
        [] \<Rightarrow> None
      | c # _ \<Rightarrow> (case pf c of Inl _ \<Rightarrow> None | Inr p \<Rightarrow> Some (hf c p)))"
proof (induction cs)
  case (Cons c cs)
  let ?P = "\<lambda>c. route_key c = k \<and> unserved pf c = None"
  have served: "\<exists>p. pf c = Inr p" if "?P c" for c
    using that by (auto simp: unserved_def split: sum.splits)
  show ?case
  proof (cases "filter ?P (rev cs)")
    case Nil
    with Cons.IH served [of c] show ?thesis by (auto simp: serves_unserved split: sum.split)
  next
    case (Cons c' xs)
    then have "c' \<in> set (filter ?P (rev cs))" by simp
    then obtain p where "pf c' = Inr p" using served by auto
    with Cons.IH Cons show ?thesis by simp
  qed
qed simp

text \<open>C23. What a run of the router over the basic engine logs and serves. The log has one line for each
  configured endpoint, in the order of the configuration: that it is registered with its method and
  path, or an error with the reason why it is not; then the middlewares, the error the server ended with,
  if any, and the end of the run. For every endpoint that is logged as registered the engine has, at its
  path and method, the handler built from the proxy of the last such endpoint with that path and
  method: when it is the only one, its own. An earlier one with the same path and method is replaced
  without another line in the log.\<close>

theorem mux_run_reports:
  assumes "mux_router_run (rc\<lparr>rc_handle := engine_handle refuses\<rparr>) ms serve dh eh hh runServer cfg default_engine = Some log"
  shows "\<exists>e. run_registrations (rc\<lparr>rc_handle := engine_handle refuses\<rparr>) dh eh hh cfg default_engine = Some e \<and>
    log =
      map (\<lambda>c. case unserved (rc_ProxyFactory rc) c of
                 None \<Rightarrow> (LDebug, [mux_logPrefix, ''Registering the endpoint'', to_upper (e_Method c), e_Endpoint c])
               | Some v \<Rightarrow> (LError, v)) (s_Endpoints cfg) @
      map (\<lambda>m. (LDebug, [mux_logPrefix, ''Adding the middleware'', fst m])) ms @
      (case runServer cfg (router_handler (map snd ms) (serve e)) of
         None \<Rightarrow> [] | Some err \<Rightarrow> [(LError, [mux_logPrefix, error_text err])]) @
      [(LInfo, [mux_logPrefix, ''Router execution ended''])] \<and>
    (\<forall>c \<in> set (s_Endpoints cfg). unserved (rc_ProxyFactory rc) c = None \<longrightarrow>
      (let c' = last (filter (\<lambda>c'. route_key c' = route_key c \<and> unserved (rc_ProxyFactory rc) c' = None)
                  (s_Endpoints cfg))
       in \<exists>p. rc_ProxyFactory rc c' = Inr p \<and> engine_lookup e (route_key c) = Some (rc_HandlerFactory rc c' p)))"
proof -
  let ?rc = "rc\<lparr>rc_handle := engine_handle refuses\<rparr>" and ?pf = "rc_ProxyFactory rc"
  from assms obtain e where e: "run_registrations ?rc dh eh hh cfg default_engine = Some e"
    and log: "log = concat (map (mux_endpoint_log ?pf) (s_Endpoints cfg)) @
      map (\<lambda>m. (LDebug, [mux_logPrefix, ''Adding the middleware'', fst m])) ms @
      (case runServer cfg (router_handler (map snd ms) (serve e)) of
         None \<Rightarrow> [] | Some err \<Rightarrow> [(LError, [mux_logPrefix, error_text err])]) @
      [(LInfo, [mux_logPrefix, ''Router execution ended''])]"
    by (auto simp: mux_router_run_def split: option.splits)
  have handler: "\<exists>p. ?pf c' = Inr p \<and> engine_lookup e (route_key c) = Some (rc_HandlerFactory rc c' p)"
    if "c \<in> set (s_Endpoints cfg)" "unserved ?pf c = None"
      and c': "c' = last (filter (\<lambda>c'. route_key c' = route_key c \<and> unserved ?pf c' = None) (s_Endpoints cfg))" for c c'
  proof -
    let ?same = "filter (\<lambda>c'. route_key c' = route_key c \<and> unserved ?pf c' = None) (s_Endpoints cfg)"
    have some: "?same \<noteq> []" using that(1,2) by (auto simp: filter_empty_conv)
    then have "c' \<in> set ?same" unfolding c' by (rule last_in_set)
    then obtain p where p: "?pf c' = Inr p" by (auto simp: unserved_def split: sum.splits)
    have last: "?same = butlast ?same @ [c']"
      unfolding c' by (rule append_butlast_last_id [OF some, symmetric])
    have same: "filter (\<lambda>c'. route_key c' = route_key c \<and> unserved ?pf c' = None) (rev (s_Endpoints cfg)) =
        c' # rev (butlast ?same)"
      unfolding rev_filter [symmetric] by (subst last) simp
    have "endpoint_serving ?pf (rc_HandlerFactory rc) (route_key c) (s_Endpoints cfg) =
        Some (rc_HandlerFactory rc c' p)"
      unfolding endpoint_serving_last same by (simp add: p)
    with p basic.look_run [OF e, of refuses "route_key c"] show ?thesis by simp
  qed
  have told: "concat (map (mux_endpoint_log ?pf) cs) = map (\<lambda>c. case unserved ?pf c of
      None \<Rightarrow> (LDebug, [mux_logPrefix, ''Registering the endpoint'', to_upper (e_Method c), e_Endpoint c])
    | Some v \<Rightarrow> (LError, v)) cs" for cs
    by (induction cs) (simp_all add: mux_endpoint_told)
  show ?thesis
    unfolding Let_def by (intro exI [of _ e] conjI ballI impI e log [unfolded told] handler refl)
qed

text \<open>Three endpoints, the second with a method that is not served and the third at the path of the first, and
  a server that cannot listen.\<close>

definition sample_run_config :: service_config where
  "sample_run_config = service_zero\<lparr>s_Endpoints :=
     [endpoint_zero\<lparr>e_Endpoint := ''/a'', e_Method := ''get'', e_CacheTTL := 1\<rparr>,
      endpoint_zero\<lparr>e_Endpoint := ''/b'', e_Method := ''HEAD''\<rparr>,
      endpoint_zero\<lparr>e_Endpoint := ''/a'', e_Method := ''GET''\<rparr>]\<rparr>"

definition sample_router :: "(nat basic_engine, nat, nat) router_config" where
  "sample_router = \<lparr>rc_handle = \<lambda>_ _ _ _. None, rc_HandlerFactory = (\<lambda>c p. p),
     rc_ProxyFactory = (\<lambda>c. Inr (if e_CacheTTL c = 1 then 1 else 2)), rc_DebugPattern = [], rc_EchoPattern = []\<rparr>"

abbreviation sample_run :: "messages option" where
  "sample_run \<equiv> mux_router_run (sample_router\<lparr>rc_handle := engine_handle (\<lambda>ps p. False)\<rparr>)
     [] (\<lambda>e. 0) 0 0 0 (\<lambda>s h. Some (ErrMsg ''in use'')) sample_run_config default_engine"

theorem mux_run_reports_witness:
  "sample_run = Some
     [(LDebug, [mux_logPrefix, ''Registering the endpoint'', ''GET'', ''/a'']),
      (LError, [mux_logPrefix, ''Unsupported method'', ''HEAD'']),
      (LDebug, [mux_logPrefix, ''Registering the endpoint'', ''GET'', ''/a'']),
      (LError, [mux_logPrefix, ''in use'']), (LInfo, [mux_logPrefix, ''Router execution ended''])] \<and>
   (\<exists>e. run_registrations (sample_router\<lparr>rc_handle := engine_handle (\<lambda>ps p. False)\<rparr>) 0 0 0 sample_run_config
       default_engine = Some e \<and> engine_lookup e (''/a'', ''GET'') = Some 2)"
proof -
  have "sample_run \<noteq> None" by code_simp
  then obtain log where log: "sample_run = Some log" by blast
  have up: "to_upper ''get'' = ''GET''" "to_upper ''HEAD'' = ''HEAD''" "to_upper ''GET'' = ''GET''" by code_simp+
  from mux_run_reports [OF log] log show ?thesis
    by (auto simp: sample_run_config_def sample_router_def service_zero_def endpoint_zero_def unserved_def up)
qed

text \<open>Behind gin an endpoint without an error is registered with the handler of its own proxy.\<close>

lemma gin_quiet_registration:
  assumes "errors_in (gin_endpoint_log pf c) = []"
  shows "endpoint_method c \<in> set routable_methods \<and>
    (is_websocket_endpoint c \<or> (\<exists>p. pf c = Inr p))"
proof -
  have up: "to_upper ''GET'' = ''GET''" by (simp add: to_upper_def upper_char_def)
  have get: "''GET'' \<in> set routable_methods" by (simp add: routable_methods_def)
  show ?thesis
  proof (cases "is_websocket_endpoint c")
    case True
    with get show ?thesis by (simp add: endpoint_method_def)
  next
    case False
    with assms obtain p where p: "pf c = Inr p" and "errors_in (gin_method_log (e_Method c) (length (e_Backend c)) c) = []"
      by (cases "pf c") (simp_all add: gin_endpoint_log_def)
    then have "to_upper (e_Method c) \<in> set routable_methods"
      by (simp add: gin_method_log_def Let_def is_valid_sequential_endpoint_def split: if_splits)
    with p False show ?thesis by (simp add: endpoint_method_def)
  qed
qed

text \<open>A server that is closed is an error to the routers over \<open>net/http\<close> only.\<close>

lemma closed_server_is_reported:
  assumes "mux_router_run rc ms serve dh eh hh runServer cfg e = Some log"
    and "\<And>h. runServer cfg h = Some ErrServerClosed"
  shows "(LError, [mux_logPrefix, ''http: Server closed'']) \<in> set log"
  using assms by (auto simp: mux_router_run_def ErrServerClosed_def split: option.splits)

lemma closed_server_is_no_error:
  assumes "gin_router_run refuses dh eh failed noop handler wrap rc cfg = Some log"
    and "\<And>g. gf_RunServer rc cfg g = Some ErrServerClosed"
  shows "errors_in log = errors_in (gin_registration_log (gf_ProxyFactory rc) cfg)"
  using assms by (auto simp: gin_router_run_def split: option.splits)

end
