(* ===== verification/ClientTls.thy ===== *)
theory ClientTls
  imports Server
begin

text \<open>
  TLS settings of a single backend (\<open>src/transport/http/client/backend_tls.go\<close>). Marshalling and
  unmarshalling JSON are parameters; a round tripper is a transport of \<open>net/http\<close> or something else,
  and \<open>http.DefaultTransport\<close> is a round tripper too.
\<close>

definition BackendHTTPClientNamespace :: string where
  "BackendHTTPClientNamespace = ''backend/http/client''"

text \<open>\<open>ParseBackendHTTPClientTLS\<close>; \<open>None\<close> as the backend is the nil pointer.\<close>

definition parse_backend_http_client_tls ::
  "(gval \<Rightarrow> goerror + string) \<Rightarrow> (string \<Rightarrow> goerror + client_tls) \<Rightarrow> backend option \<Rightarrow> client_tls option" where
  "parse_backend_http_client_tls marshal unmarshal cfg =
     (case cfg of
        None \<Rightarrow> None
      | Some b \<Rightarrow>
          (case ec_map (b_ExtraConfig b) BackendHTTPClientNamespace of
             None \<Rightarrow> None
           | Some v \<Rightarrow>
               (case map_of v ''client_tls'' of
                  None \<Rightarrow> None
                | Some tlsRaw \<Rightarrow>
                    (case marshal tlsRaw of
                       Inl err \<Rightarrow> None
                     | Inr raw \<Rightarrow>
                         (case unmarshal raw of Inl err \<Rightarrow> None | Inr clientTLS \<Rightarrow> Some clientTLS)))))"

datatype ('c, 'x) round_tripper = HttpTransport "'c http_transport" | OtherTripper 'x

record ('c, 'x, 'k) http_client =
  hc_Transport :: "('c, 'x) round_tripper option"
  hc_CheckRedirect :: 'k
  hc_Jar :: 'k
  hc_Timeout :: duration

definition transport_zero :: "'c http_transport" where
  "transport_zero =
     \<lparr>tr_DialerTimeout = 0, tr_DialerKeepAlive = 0, tr_DialerFallbackDelay = 0, tr_DisableCompression = False,
      tr_DisableKeepAlives = False, tr_MaxIdleConns = 0, tr_MaxIdleConnsPerHost = 0, tr_IdleConnTimeout = 0,
      tr_ResponseHeaderTimeout = 0, tr_ExpectContinueTimeout = 0, tr_TLSHandshakeTimeout = 0,
      tr_TLSClientConfig = None\<rparr>"

definition clone_transport ::
  "('c, 'x) round_tripper \<Rightarrow> ('c, 'x) round_tripper option \<Rightarrow> 'c http_transport" where
  "clone_transport defaultTransport rt =
     (case rt of
        None \<Rightarrow> (case defaultTransport of HttpTransport dt \<Rightarrow> dt | _ \<Rightarrow> transport_zero)
      | Some (HttpTransport t) \<Rightarrow> t
      | Some (OtherTripper x) \<Rightarrow> (case defaultTransport of HttpTransport dt \<Rightarrow> dt | _ \<Rightarrow> transport_zero))"

text \<open>\<open>NewHTTPClientWithBackendTLS\<close>: a factory gives a client for a context.\<close>

definition new_http_client_with_backend_tls ::
  "'c server_env \<Rightarrow> (gval \<Rightarrow> goerror + string) \<Rightarrow> (string \<Rightarrow> goerror + client_tls) \<Rightarrow>
   ('c, 'x) round_tripper \<Rightarrow> backend option \<Rightarrow> ('ctx \<Rightarrow> ('c, 'x, 'k) http_client) \<Rightarrow>
   ('ctx \<Rightarrow> ('c, 'x, 'k) http_client)" where
  "new_http_client_with_backend_tls env marshal unmarshal defaultTransport cfg next =
     (case parse_backend_http_client_tls marshal unmarshal cfg of
        None \<Rightarrow> next
      | Some clientTLS \<Rightarrow>
          (case parse_client_tls_config env (Some clientTLS) of
             None \<Rightarrow> next
           | Some tlsConfig \<Rightarrow>
               (\<lambda>ctx. let base = next ctx;
                          transport = (clone_transport defaultTransport (hc_Transport base))
                            \<lparr>tr_TLSClientConfig := Some tlsConfig\<rparr>
                      in \<lparr>hc_Transport = Some (HttpTransport transport), hc_CheckRedirect = hc_CheckRedirect base,
                          hc_Jar = hc_Jar base, hc_Timeout = hc_Timeout base\<rparr>)))"

text \<open>A backend with settings of its own gets a client whose transport has exactly those TLS settings and
  is otherwise that of the client it would have had, or the default one where that is none of
  \<open>net/http\<close>; redirects, cookies and timeout stay. Settings that are missing or do not decode leave
  the clients as they are, without an error.\<close>

lemma backend_client:
  "case parse_backend_http_client_tls marshal unmarshal cfg of
     None \<Rightarrow> new_http_client_with_backend_tls env marshal unmarshal dt cfg next = next
   | Some c \<Rightarrow>
       (let client = new_http_client_with_backend_tls env marshal unmarshal dt cfg next ctx
        in \<exists>t. hc_Transport client = Some (HttpTransport t) \<and>
             tr_TLSClientConfig t = parse_client_tls_config env (Some c) \<and>
             t\<lparr>tr_TLSClientConfig := None\<rparr> =
               (clone_transport dt (hc_Transport (next ctx)))\<lparr>tr_TLSClientConfig := None\<rparr> \<and>
             client\<lparr>hc_Transport := hc_Transport (next ctx)\<rparr> = next ctx)"
  by (simp add: new_http_client_with_backend_tls_def parse_client_tls_config_def Let_def split: option.split)

text \<open>The certificate pool of such a client never has the server certificates of the service: only the
  system's, unless they are switched off, and the listed ones.\<close>

lemma backend_roots:
  "parse_client_tls_config env (Some c) = Some tc \<Longrightarrow>
     tc_RootCAs tc = Some (load_cert_pool env (ct_DisableSystemCaPool c) (ct_CaCerts c)) \<and>
     tc_InsecureSkipVerify tc = ct_AllowInsecureConnections c"
  by (auto simp: parse_client_tls_config_def)

end
