(* ===== verification/SequentialMerge.thy ===== *)
theory SequentialMerge
  imports MergeCore
begin

text \<open>
  \<open>sequentialMerge\<close> of \<open>src/proxy/merging.go\<close>: the parameters a backend takes from the responses
  of the backends before it (\<open>sequentialMergerConfig\<close>), and the loop that fills them in, calls the
  backends one by one and merges what they return. Responses hold references: their data map and
  their body are those that backend \<open>i\<close> returned, kept in a store at address \<open>i\<close>, because the
  combiner writes into the first of these maps while later backends still read from it.
\<close>

section \<open>References to earlier responses\<close>

record replacement =
  sr_backendIndex :: nat
  sr_destination :: string
  sr_source :: "string list"
  sr_fullResponse :: bool

definition is_digit :: "char \<Rightarrow> bool" where
  "is_digit c = (c \<in> set ''0123456789'')"

text \<open>The class \<open>[\w-.]\<close>.\<close>

definition is_word :: "char \<Rightarrow> bool" where
  "is_word c = (is_digit c \<or> c \<in> set ''ABCDEFGHIJKLMNOPQRSTUVWXYZabcdefghijklmnopqrstuvwxyz_-.'')"

text \<open>
  One match at the start of the text, as the two groups and the text behind it, of
  \<open>\{\{\.Resp(\d+)_([\w-.]+)\}\}\<close> and of \<open>[Rr]esp(\d+)_?([\w-.]+)?\<close>. No step of either expression
  can succeed after giving back a character, so the greedy match is the match.
\<close>

definition match_url_ref :: "string \<Rightarrow> (string \<times> string \<times> string) option" where
  "match_url_ref s =
     (if \<not> prefix ''{{.Resp'' s then None
      else let s1 = drop 7 s; ds = takeWhile is_digit s1; s2 = dropWhile is_digit s1
           in if ds = [] \<or> \<not> prefix ''_'' s2 then None
              else let s3 = drop 1 s2; ws = takeWhile is_word s3; s4 = dropWhile is_word s3
                   in if ws = [] \<or> \<not> prefix ''}}'' s4 then None else Some (ds, ws, drop 2 s4))"

definition match_param_ref :: "string \<Rightarrow> (string \<times> string \<times> string) option" where
  "match_param_ref s =
     (if \<not> (prefix ''Resp'' s \<or> prefix ''resp'' s) then None
      else let s1 = drop 4 s; ds = takeWhile is_digit s1; s2 = dropWhile is_digit s1;
               s3 = (if prefix ''_'' s2 then drop 1 s2 else s2)
           in if ds = [] then None else Some (ds, takeWhile is_word s3, dropWhile is_word s3))"

lemma match_url_ref_shorter: "match_url_ref s = Some (d, w, r) \<Longrightarrow> length r < length s"
proof -
  assume m: "match_url_ref s = Some (d, w, r)"
  let ?s2 = "dropWhile is_digit (drop 7 s)"
  have p: "prefix ''{{.Resp'' s" using m by (auto simp: match_url_ref_def split: if_splits)
  then have "length s \<ge> 7" using prefix_length_le by fastforce
  moreover have "length ?s2 \<le> length s - 7" using length_dropWhile_le [of is_digit "drop 7 s"] by simp
  moreover have "length r \<le> length ?s2"
    using m length_dropWhile_le [of is_word "drop 1 ?s2"]
    by (auto simp: match_url_ref_def Let_def split: if_splits)
  ultimately show ?thesis by linarith
qed

lemma match_param_ref_shorter: "match_param_ref s = Some (d, w, r) \<Longrightarrow> length r < length s"
proof -
  assume m: "match_param_ref s = Some (d, w, r)"
  let ?s2 = "dropWhile is_digit (drop 4 s)"
  have p: "prefix ''Resp'' s \<or> prefix ''resp'' s" using m by (auto simp: match_param_ref_def split: if_splits)
  then have "length s \<ge> 4" using prefix_length_le by fastforce
  moreover have "length ?s2 \<le> length s - 4" using length_dropWhile_le [of is_digit "drop 4 s"] by simp
  moreover have "length r \<le> length ?s2"
    using m length_dropWhile_le [of is_word ?s2] length_dropWhile_le [of is_word "drop 1 ?s2"]
    by (auto simp: match_param_ref_def Let_def split: if_splits)
  ultimately show ?thesis by linarith
qed

text \<open>\<open>FindAllStringSubmatch(s, -1)\<close>: the matches from left to right, without overlaps.\<close>

function find_url_refs :: "string \<Rightarrow> (string \<times> string) list" where
  "find_url_refs s =
     (case match_url_ref s of
        Some (d, w, r) \<Rightarrow> (d, w) # find_url_refs r
      | None \<Rightarrow> (case s of [] \<Rightarrow> [] | c # cs \<Rightarrow> find_url_refs cs))"
  by pat_completeness auto
termination
  by (relation "measure length") (auto dest: match_url_ref_shorter)

function find_param_refs :: "string \<Rightarrow> (string \<times> string) list" where
  "find_param_refs s =
     (case match_param_ref s of
        Some (d, w, r) \<Rightarrow> (d, w) # find_param_refs r
      | None \<Rightarrow> (case s of [] \<Rightarrow> [] | c # cs \<Rightarrow> find_param_refs cs))"
  by pat_completeness auto
termination
  by (relation "measure length") (auto dest: match_param_ref_shorter)

declare find_url_refs.simps [simp del] find_param_refs.simps [simp del]

text \<open>\<open>strconv.Atoi\<close> on digits: an error when the number does not fit an \<open>int\<close>.\<close>

definition digits_value :: "string \<Rightarrow> int" where
  "digits_value ds = foldl (\<lambda>n c. 10 * n + (of_char c - 48)) 0 ds"

definition atoi :: "string \<Rightarrow> nat option" where
  "atoi ds = (if digits_value ds < 2 ^ 63 then Some (nat (digits_value ds)) else None)"

definition dest_key_generator :: "string \<Rightarrow> string \<Rightarrow> string" where
  "dest_key_generator i t = ''Resp'' @ i @ (if t \<noteq> [] then ''_'' @ t else [])"

definition replacement_of :: "string \<times> string \<Rightarrow> nat \<Rightarrow> replacement" where
  "replacement_of m n =
     \<lparr>sr_backendIndex = n, sr_destination = dest_key_generator (fst m) (snd m),
      sr_source = split_on (CHR ''.'') (snd m), sr_fullResponse = (snd m = [])\<rparr>"

definition url_replacements :: "string \<Rightarrow> replacement list" where
  "url_replacements pat =
     concat (map (\<lambda>m. case atoi (fst m) of None \<Rightarrow> [] | Some n \<Rightarrow> [replacement_of m n]) (find_url_refs pat))"

definition param_replacements :: "nat \<Rightarrow> string \<Rightarrow> replacement list" where
  "param_replacements totalBackends p =
     concat (map (\<lambda>m. case atoi (fst m) of
         None \<Rightarrow> []
       | Some n \<Rightarrow> if n \<ge> totalBackends then [] else [replacement_of m n]) (find_param_refs p))"

text \<open>The propagated parameters; \<open>None\<close> is the panic of \<open>p.(string)\<close>.\<close>

fun all_strings :: "gval list \<Rightarrow> string list option" where
  "all_strings [] = Some []"
| "all_strings (v # vs) =
     (case (v, all_strings vs) of (VString s, Some ss) \<Rightarrow> Some (s # ss) | _ \<Rightarrow> None)"

definition propagated_params :: "extra_config \<Rightarrow> string list option" where
  "propagated_params cfg =
     (case proxy_section cfg of
        None \<Rightarrow> Some []
      | Some e \<Rightarrow> (case map_of e sequentialPropagateKey of Some (VList a) \<Rightarrow> all_strings a | _ \<Rightarrow> Some []))"

definition sequential_merger_config :: "endpoint_config \<Rightarrow> replacement list list option" where
  "sequential_merger_config cfg =
     (case propagated_params (e_ExtraConfig cfg) of
        None \<Rightarrow> None
      | Some ps \<Rightarrow>
          Some (map (\<lambda>(i, b). url_replacements (b_URLPattern b) @
              (if i > 0 then concat (map (param_replacements (length (e_Backend cfg))) ps) else []))
            (enumerate 0 (e_Backend cfg))))"

section \<open>Reading a value out of a response\<close>

text \<open>The navigation loop: it stops at the first key that is absent or not a map.\<close>

fun nav :: "gobj \<Rightarrow> string list \<Rightarrow> gobj" where
  "nav d [] = d"
| "nav d (k # ks) = (case map_of d k of Some (VMap m) \<Rightarrow> nav m ks | _ \<Rightarrow> d)"

text \<open>\<open>fe\<close> is \<open>strconv.FormatFloat\<close> with the arguments the code gives it.\<close>

definition param_text :: "(64 word \<Rightarrow> string) \<Rightarrow> (64 word \<Rightarrow> string) \<Rightarrow> gval \<Rightarrow> string" where
  "param_text ff fe v =
     (case v of
        VList clean \<Rightarrow> join_with '','' (map (fmt_v ff) clean)
      | VString s \<Rightarrow> s
      | VInt i \<Rightarrow> show_int i
      | VFloat w \<Rightarrow> fe w
      | VBool b \<Rightarrow> (if b then ''true'' else ''false'')
      | _ \<Rightarrow> fmt_v ff v)"

section \<open>The loop\<close>

record 'w seq_state =
  ss_request :: request
  ss_registry :: "string gomap"
  ss_parts :: "nat \<Rightarrow> rresponse option"
  ss_maps :: mapstore
  ss_ios :: "nat \<Rightarrow> reader"
  ss_acc :: "rresponse accumulator"
  ss_world :: 'w

definition set_param :: "string \<Rightarrow> string \<Rightarrow> 'w seq_state \<Rightarrow> 'w seq_state" where
  "set_param k v s =
     s\<lparr>ss_request := (ss_request s)\<lparr>q_Params := AList.update k v (q_Params (ss_request s))\<rparr>\<rparr>"

definition register_param :: "string \<Rightarrow> string \<Rightarrow> 'w seq_state \<Rightarrow> 'w seq_state" where
  "register_param k v s = s\<lparr>ss_registry := AList.update k v (ss_registry s)\<rparr>"

text \<open>One replacement, before backend \<open>i\<close> is called.\<close>

definition replace_one ::
  "(64 word \<Rightarrow> string) \<Rightarrow> (64 word \<Rightarrow> string) \<Rightarrow> nat \<Rightarrow> replacement \<Rightarrow> 'w seq_state \<Rightarrow> 'w seq_state" where
  "replace_one ff fe i r s =
     (case ss_parts s (sr_backendIndex r) of
        None \<Rightarrow> s
      | Some part \<Rightarrow>
          if sr_backendIndex r \<ge> i then s
          else
            let data = nav (case r_Data part of None \<Rightarrow> [] | Some a \<Rightarrow> ss_maps s a) (butlast (sr_source r));
                dest = sr_destination r;
                found = (case map_of (ss_registry s) dest of None \<Rightarrow> [] | Some f \<Rightarrow> f)
            in if found \<noteq> [] then set_param dest found s
               else if sr_fullResponse r then
                 (case r_Io part of
                    None \<Rightarrow> s
                  | Some a \<Rightarrow>
                      let rd = ss_ios s a; s = s\<lparr>ss_ios := (ss_ios s)(a := rd\<lparr>rd_content := []\<rparr>)\<rparr>
                      in if rd_err rd = None
                         then register_param dest (rd_content rd) (set_param dest (rd_content rd) s) else s)
               else
                 (case map_of data (last (sr_source r)) of
                    None \<Rightarrow> s
                  | Some v \<Rightarrow>
                      register_param dest (param_text ff fe v) (set_param dest (param_text ff fe v) s)))"

definition replace_params_for ::
  "(64 word \<Rightarrow> string) \<Rightarrow> (64 word \<Rightarrow> string) \<Rightarrow> replacement list list \<Rightarrow> nat \<Rightarrow> 'w seq_state \<Rightarrow> 'w seq_state" where
  "replace_params_for ff fe reps i s =
     (if i > 0 then fold (replace_one ff fe i) (reps ! i) s else s)"

text \<open>Storing what backend \<open>i\<close> returned: its map and its body go to address \<open>i\<close>.\<close>

definition store_response :: "nat \<Rightarrow> vresponse \<Rightarrow> 'w seq_state \<Rightarrow> rresponse \<times> 'w seq_state" where
  "store_response i r s =
     (\<lparr>r_Data = (case r_Data r of None \<Rightarrow> None | Some d \<Rightarrow> Some i), r_IsComplete = r_IsComplete r,
       r_Headers = r_Headers r, r_StatusCode = r_StatusCode r,
       r_Io = (case r_Io r of None \<Rightarrow> None | Some b \<Rightarrow> Some i)\<rparr>,
      s\<lparr>ss_maps := (case r_Data r of None \<Rightarrow> ss_maps s | Some d \<Rightarrow> (ss_maps s)(i := d)),
        ss_ios := (case r_Io r of None \<Rightarrow> ss_ios s | Some b \<Rightarrow> (ss_ios s)(i := b))\<rparr>)"

text \<open>Reading a response back.\<close>

definition load_response :: "mapstore \<Rightarrow> (nat \<Rightarrow> reader) \<Rightarrow> rresponse \<Rightarrow> vresponse" where
  "load_response \<sigma> ios r =
     \<lparr>r_Data = map_option \<sigma> (r_Data r), r_IsComplete = r_IsComplete r, r_Headers = r_Headers r,
      r_StatusCode = r_StatusCode r, r_Io = map_option ios (r_Io r)\<rparr>"

definition seq_merge :: "nat \<Rightarrow> rresponse presult \<Rightarrow> 'w seq_state \<Rightarrow> 'w seq_state" where
  "seq_merge fresh p s =
     (case acc_merge (combine_data_ref fresh) (ss_maps s) p (ss_acc s) of
        (acc, \<sigma>) \<Rightarrow> s\<lparr>ss_acc := acc, ss_maps := \<sigma>\<rparr>)"

text \<open>
  How the loop is left: by an early return of the first backend's error, or by its end or a
  \<open>break\<close>. \<open>expired i\<close> tells that backend \<open>i\<close>'s answer lost to \<open>ctx.Done()\<close>; \<open>cl\<close> is the request
  cloner (it may replace the original's body). Backend \<open>i\<close> uses address \<open>i\<close>; a map the combiner
  makes itself goes to the address behind those of the backends.
\<close>

datatype 'w seq_exit = FirstFailed goerror 'w | Ended "'w seq_state"

fun seq_loop ::
  "(64 word \<Rightarrow> string) \<Rightarrow> (64 word \<Rightarrow> string) \<Rightarrow> (request \<Rightarrow> request \<times> request) \<Rightarrow> replacement list list \<Rightarrow>
   (request \<Rightarrow> bool) option list \<Rightarrow> (nat \<Rightarrow> bool) \<Rightarrow> goerror \<Rightarrow> nat \<Rightarrow> (nat \<times> 'w proxy) list \<Rightarrow>
   'w seq_state \<Rightarrow> 'w seq_exit" where
  "seq_loop ff fe cl reps filters expired ce fresh [] s = Ended s"
| "seq_loop ff fe cl reps filters expired ce fresh ((i, n) # rest) s =
     (let s = replace_params_for ff fe reps i s
      in if filtered_out filters (ss_request s) i then
           seq_loop ff fe cl reps filters expired ce fresh rest
             (s\<lparr>ss_parts := (ss_parts s)(i := Some (new_response i True)), ss_maps := (ss_maps s)(i := []),
                ss_acc := (ss_acc s)\<lparr>acc_pending := acc_pending (ss_acc s) - 1\<rparr>\<rparr>)
         else
           (case cl (ss_request s) of (creq, req) \<Rightarrow>
             (case n (ss_world s) creq of (res, w) \<Rightarrow>
               (let s = s\<lparr>ss_request := req, ss_world := w\<rparr>
                in case sequential_request_part (expired i) ce res of
                     Inl err \<Rightarrow>
                       (if i = 0 then FirstFailed err w
                        else Ended (seq_merge fresh (None, Some err) s))
                   | Inr response \<Rightarrow>
                       (case store_response i response s of (r, s) \<Rightarrow>
                         (let s = seq_merge fresh (Some r, None) s
                          in if \<not> r_IsComplete r then Ended s
                             else seq_loop ff fe cl reps filters expired ce fresh rest
                                    (s\<lparr>ss_parts := (ss_parts s)(i := Some r)\<rparr>)))))))"

definition seq_init :: "nat \<Rightarrow> request \<Rightarrow> 'w \<Rightarrow> 'w seq_state" where
  "seq_init n req w =
     \<lparr>ss_request = req, ss_registry = [], ss_parts = (\<lambda>_. None), ss_maps = (\<lambda>_. []),
      ss_ios = (\<lambda>_. \<lparr>rd_content = [], rd_err = None\<rparr>), ss_acc = new_incremental_merge_accumulator n,
      ss_world = w\<rparr>"

definition sequential_merge ::
  "(64 word \<Rightarrow> string) \<Rightarrow> (64 word \<Rightarrow> string) \<Rightarrow> (request \<Rightarrow> request \<times> request) \<Rightarrow> replacement list list \<Rightarrow>
   (request \<Rightarrow> bool) option list \<Rightarrow> (nat \<Rightarrow> bool) \<Rightarrow> goerror \<Rightarrow> 'w proxy list \<Rightarrow> 'w proxy" where
  "sequential_merge ff fe cl reps filters expired ce next w req =
     (case seq_loop ff fe cl reps filters expired ce (length next) (enumerate 0 next)
             (seq_init (length next) req w) of
        FirstFailed err w' \<Rightarrow> ((None, Some err), w')
      | Ended s \<Rightarrow>
          (case acc_result (ss_acc s) of
             (r, err) \<Rightarrow> ((map_option (load_response (ss_maps s) (ss_ios s)) r, err), ss_world s)))"

section \<open>References refine values\<close>

text \<open>A response by reference stands for a value when its map, read in the store, is the value's.\<close>

definition resp_rel :: "mapstore \<Rightarrow> rresponse \<Rightarrow> vresponse \<Rightarrow> bool" where
  "resp_rel \<sigma> r v \<longleftrightarrow> map_option \<sigma> (r_Data r) = r_Data v \<and> r_IsComplete r = r_IsComplete v"

definition acc_rel :: "mapstore \<Rightarrow> rresponse accumulator \<Rightarrow> vresponse accumulator \<Rightarrow> bool" where
  "acc_rel \<sigma> i j \<longleftrightarrow>
     acc_pending i = acc_pending j \<and> acc_errs i = acc_errs j \<and>
     rel_option (resp_rel \<sigma>) (acc_data i) (acc_data j)"

definition acc_addrs :: "rresponse accumulator \<Rightarrow> nat set" where
  "acc_addrs i = (case acc_data i of None \<Rightarrow> {} | Some r \<Rightarrow> set_option (r_Data r))"

lemma resp_rel_new [simp]: "resp_rel \<sigma> (new_response a c) (new_response (\<sigma> a) c)"
  by (simp add: resp_rel_def)

lemma combine_ref_two:
  "combine_data_ref fresh \<sigma> 2 [Some d, Some r] =
     (case (r_Data d, r_Data r) of
        (None, None) \<Rightarrow> (Some (new_response fresh False), \<sigma>(fresh := []))
      | (Some a, None) \<Rightarrow> (Some (new_response a False), \<sigma>)
      | (None, Some b) \<Rightarrow> (Some (new_response b False), \<sigma>)
      | (Some a, Some b) \<Rightarrow>
          (Some (new_response a (r_IsComplete d \<and> r_IsComplete r)), \<sigma>(a := write_all (\<sigma> a) (\<sigma> b))))"
  by (cases "r_Data d"; cases "r_Data r") (simp_all add: combine_data_ref_def new_response_def Let_def)

lemma combine_val_two:
  "combine_data () 2 [Some d, Some r] =
     (case (r_Data d, r_Data r) of
        (None, None) \<Rightarrow> (Some (new_response [] False), ())
      | (Some a, None) \<Rightarrow> (Some (new_response a False), ())
      | (None, Some b) \<Rightarrow> (Some (new_response b False), ())
      | (Some a, Some b) \<Rightarrow> (Some (new_response (write_all a b) (r_IsComplete d \<and> r_IsComplete r)), ()))"
  by (cases "r_Data d"; cases "r_Data r") (simp_all add: combine_data_def new_response_def Let_def)

lemma combine_refines:
  assumes "resp_rel \<sigma> d dv" and "resp_rel \<sigma> r rv"
    and "\<And>a. r_Data d = Some a \<Longrightarrow> r_Data r \<noteq> Some a"
  shows "\<exists>x xv \<sigma>'. combine_data_ref fresh \<sigma> 2 [Some d, Some r] = (Some x, \<sigma>') \<and>
    combine_data () 2 [Some dv, Some rv] = (Some xv, ()) \<and> resp_rel \<sigma>' x xv \<and>
    set_option (r_Data x) \<subseteq> set_option (r_Data d) \<union> set_option (r_Data r) \<union> {fresh}"
proof -
  have "r_Data dv = map_option \<sigma> (r_Data d)" "r_Data rv = map_option \<sigma> (r_Data r)"
    "r_IsComplete dv = r_IsComplete d" "r_IsComplete rv = r_IsComplete r"
    using assms by (simp_all add: resp_rel_def)
  with assms(3) show ?thesis
    unfolding combine_ref_two combine_val_two
    by (cases "r_Data d"; cases "r_Data r") (auto simp: resp_rel_def)
qed

lemma merge_error_refines:
  assumes "acc_rel \<sigma> i j" and "acc_merge (combine_data_ref fresh) \<sigma> (None, Some e) i = (i', \<sigma>')"
  shows "acc_rel \<sigma>' i' (fst (acc_merge combine_data () (None, Some e) j)) \<and> acc_addrs i' = acc_addrs i"
  using assms
  by (auto simp: acc_rel_def acc_merge_def acc_addrs_def Let_def resp_rel_def option_rel_Some1 option_rel_Some2
      split: option.splits)

lemma merge_part_refines:
  assumes "acc_rel \<sigma> i j" and "resp_rel \<sigma> r v" and "set_option (r_Data r) \<inter> acc_addrs i = {}"
    and "acc_merge (combine_data_ref fresh) \<sigma> (Some r, None) i = (i', \<sigma>')"
  shows "acc_rel \<sigma>' i' (fst (acc_merge combine_data () (Some v, None) j)) \<and>
    acc_addrs i' \<subseteq> acc_addrs i \<union> set_option (r_Data r) \<union> {fresh}"
proof (cases "acc_data i")
  case None
  with assms have "acc_data j = None" by (simp add: acc_rel_def)
  with None assms show ?thesis by (auto simp: acc_rel_def acc_merge_def acc_addrs_def Let_def)
next
  case (Some d)
  with assms(1) obtain dv where dv: "acc_data j = Some dv" "resp_rel \<sigma> d dv"
    by (auto simp: acc_rel_def option_rel_Some1)
  have dist: "\<And>a. r_Data d = Some a \<Longrightarrow> r_Data r \<noteq> Some a"
    using assms(3) Some by (auto simp: acc_addrs_def)
  from combine_refines [OF dv(2) assms(2) dist, of fresh] obtain x xv \<sigma>''
    where "combine_data_ref fresh \<sigma> 2 [Some d, Some r] = (Some x, \<sigma>'')"
    and "combine_data () 2 [Some dv, Some v] = (Some xv, ())" and "resp_rel \<sigma>'' x xv"
    and "set_option (r_Data x) \<subseteq> set_option (r_Data d) \<union> set_option (r_Data r) \<union> {fresh}"
    by blast
  with assms(1,4) Some dv show ?thesis
    by (auto simp: acc_rel_def acc_merge_def acc_addrs_def Let_def)
qed

lemma acc_rel_store:
  "acc_rel \<sigma> i j \<Longrightarrow> a \<notin> acc_addrs i \<Longrightarrow> acc_rel (\<sigma>(a := d)) i j"
  by (cases "acc_data i"; cases "acc_data j"; cases "r_Data (the (acc_data i))")
    (auto simp: acc_rel_def resp_rel_def acc_addrs_def)

section \<open>The loop, step by step\<close>

lemma replace_one_frame:
  "ss_maps (replace_one ff fe i r s) = ss_maps s \<and> ss_acc (replace_one ff fe i r s) = ss_acc s \<and>
   ss_world (replace_one ff fe i r s) = ss_world s \<and> ss_parts (replace_one ff fe i r s) = ss_parts s"
  by (auto simp: replace_one_def Let_def set_param_def register_param_def split: option.splits)

lemma fold_replace_frame:
  "ss_maps (fold (replace_one ff fe i) rs s) = ss_maps s \<and> ss_acc (fold (replace_one ff fe i) rs s) = ss_acc s \<and>
   ss_world (fold (replace_one ff fe i) rs s) = ss_world s \<and> ss_parts (fold (replace_one ff fe i) rs s) = ss_parts s"
  by (induction rs arbitrary: s) (simp_all add: replace_one_frame)

lemma replace_params_frame [simp]:
  "ss_maps (replace_params_for ff fe reps i s) = ss_maps s"
  "ss_acc (replace_params_for ff fe reps i s) = ss_acc s"
  "ss_world (replace_params_for ff fe reps i s) = ss_world s"
  "ss_parts (replace_params_for ff fe reps i s) = ss_parts s"
  by (simp_all add: replace_params_for_def fold_replace_frame)

text \<open>The calls made: backend, world and request. Their outcomes are what the proxies answer.\<close>

definition call_outcome :: "(nat \<Rightarrow> bool) \<Rightarrow> goerror \<Rightarrow> 'w proxy list \<Rightarrow> nat \<times> 'w \<times> request \<Rightarrow> goerror + vresponse" where
  "call_outcome expired ce next c =
     (case c of (i, w, req) \<Rightarrow> sequential_request_part (expired i) ce (fst ((next ! i) w req)))"

definition good_outcome :: "goerror + vresponse \<Rightarrow> bool" where
  "good_outcome out = (case out of Inl e \<Rightarrow> False | Inr r \<Rightarrow> r_IsComplete r)"

text \<open>The invariant before backend \<open>i\<close>, with the calls made so far and \<open>m\<close>, the number of backends
  that have not been skipped.\<close>

definition seq_inv :: "(request \<Rightarrow> bool) option list \<Rightarrow> (nat \<Rightarrow> bool) \<Rightarrow> goerror \<Rightarrow> 'w proxy list \<Rightarrow> nat \<Rightarrow> 'w seq_state \<Rightarrow>
    (nat \<times> 'w \<times> request) list \<Rightarrow> nat \<Rightarrow> bool" where
  "seq_inv filters expired ce next i s calls m \<longleftrightarrow>
     acc_rel (ss_maps s) (ss_acc s) (acc_after m (map (call_outcome expired ce next) calls)) \<and>
     (\<forall>a \<in> acc_addrs (ss_acc s). a < i \<or> a = length next) \<and>
     sorted_wrt (<) (map fst calls) \<and> (\<forall>c \<in> set calls. fst c < i) \<and>
     (\<forall>j < i. j \<notin> fst ` set calls \<longrightarrow> (\<exists>req. filtered_out filters req j)) \<and>
     length calls + length next = i + m \<and> m \<le> length next"

text \<open>How the loop ends: the calls it made, at most the last of which failed or was incomplete.\<close>

definition seq_ends :: "(request \<Rightarrow> bool) option list \<Rightarrow> (nat \<Rightarrow> bool) \<Rightarrow> goerror \<Rightarrow> 'w proxy list \<Rightarrow> 'w seq_exit \<Rightarrow> bool" where
  "seq_ends filters expired ce next x \<longleftrightarrow>
     (case x of
        FirstFailed err w' \<Rightarrow> (\<exists>w req. call_outcome expired ce next (0, w, req) = Inl err)
      | Ended s \<Rightarrow>
          (\<exists>i calls m. seq_inv filters expired ce next i s calls m \<and> i \<le> length next \<and>
             (\<forall>c \<in> set (butlast calls). good_outcome (call_outcome expired ce next c)) \<and>
             (i = length next \<or> calls \<noteq> [] \<and> \<not> good_outcome (call_outcome expired ce next (last calls)))))"

lemma acc_merge_pending:
  "fst (acc_merge combine_data () p (i\<lparr>acc_pending := k\<rparr>)) =
     (fst (acc_merge combine_data () p i))\<lparr>acc_pending := k - 1\<rparr>"
  by (auto simp: acc_merge_def Let_def split: option.splits prod.splits)

lemma acc_after_pending: "acc_after m outs = (acc_after n outs)\<lparr>acc_pending := int m - int (length outs)\<rparr>"
proof (induction outs rule: rev_induct)
  case Nil
  then show ?case by (simp add: new_incremental_merge_accumulator_def)
next
  case (snoc out outs)
  show ?case unfolding acc_after_snoc by (subst snoc) (simp add: acc_merge_pending)
qed

lemma acc_rel_skip:
  assumes "acc_rel \<sigma> i (acc_after m outs)" and "m > 0"
  shows "acc_rel \<sigma> (i\<lparr>acc_pending := acc_pending i - 1\<rparr>) (acc_after (m - 1) outs)"
  using assms unfolding acc_after_pending [of "m - 1" outs m] acc_after_pending [of m outs 0]
  by (auto simp: acc_rel_def)

lemma seq_inv_skip:
  assumes "seq_inv filters expired ce next i s calls m" and "i < length next" and "filtered_out filters req i"
  shows "seq_inv filters expired ce next (Suc i)
    (s\<lparr>ss_parts := ps, ss_maps := (ss_maps s)(i := []),
       ss_acc := (ss_acc s)\<lparr>acc_pending := acc_pending (ss_acc s) - 1\<rparr>\<rparr>) calls (m - 1)"
proof -
  have "length calls + length next = i + m" using assms(1) by (simp add: seq_inv_def)
  moreover have "length calls \<le> i"
  proof -
    have "set (map fst calls) \<subseteq> {..<i}" and "distinct (map fst calls)"
      using assms(1) by (auto simp: seq_inv_def strict_sorted_iff)
    then have "length (map fst calls) \<le> card {..<i}"
      by (metis card_mono distinct_card finite_lessThan)
    then show ?thesis by simp
  qed
  ultimately have m: "m > 0" using assms(2) by linarith
  have "i \<notin> acc_addrs (ss_acc s)" using assms by (auto simp: seq_inv_def)
  then have "acc_rel ((ss_maps s)(i := [])) (ss_acc s) (acc_after m (map (call_outcome expired ce next) calls))"
    using assms(1) acc_rel_store by (auto simp: seq_inv_def)
  from acc_rel_skip [OF this m] assms m show ?thesis
    by (auto simp: seq_inv_def acc_addrs_def less_Suc_eq)
qed

lemma seq_inv_frame:
  assumes "seq_inv filters expired ce next i s calls m"
    and "ss_maps s' = ss_maps s" and "ss_acc s' = ss_acc s"
  shows "seq_inv filters expired ce next i s' calls m"
  using assms by (simp add: seq_inv_def)

lemma seq_inv_error:
  assumes "seq_inv filters expired ce next i s calls m" and "call_outcome expired ce next (i, w, req) = Inl err"
  shows "seq_inv filters expired ce next (Suc i) (seq_merge fresh (None, Some err) s) (calls @ [(i, w, req)]) m"
proof -
  obtain acc \<sigma> where m: "acc_merge (combine_data_ref fresh) (ss_maps s) (None, Some err) (ss_acc s) = (acc, \<sigma>)"
    by fastforce
  have "acc_rel (ss_maps s) (ss_acc s) (acc_after m (map (call_outcome expired ce next) calls))"
    using assms(1) by (simp add: seq_inv_def)
  from merge_error_refines [OF this m] assms show ?thesis
    by (auto simp: seq_inv_def seq_merge_def m acc_after_snoc outcome_presult_def sorted_wrt_append less_Suc_eq)
qed

lemma seq_inv_response:
  assumes "seq_inv filters expired ce next i s calls m" and "call_outcome expired ce next (i, w, req) = Inr response"
    and "store_response i response s = (r, s')" and "i < length next"
  shows "seq_inv filters expired ce next (Suc i) (seq_merge (length next) (Some r, None) s') (calls @ [(i, w, req)]) m"
proof -
  have i: "i \<notin> acc_addrs (ss_acc s)" using assms(1,4) by (auto simp: seq_inv_def)
  have s': "ss_acc s' = ss_acc s" and r: "set_option (r_Data r) \<subseteq> {i}"
    and rel: "resp_rel (ss_maps s') r response"
    using assms(3) by (auto simp: store_response_def resp_rel_def split: option.splits)
  obtain acc \<sigma> where m: "acc_merge (combine_data_ref (length next)) (ss_maps s') (Some r, None) (ss_acc s') = (acc, \<sigma>)"
    by fastforce
  have "acc_rel (ss_maps s) (ss_acc s) (acc_after m (map (call_outcome expired ce next) calls))"
    using assms(1) by (simp add: seq_inv_def)
  moreover have "ss_maps s' = ss_maps s \<or> (\<exists>d. ss_maps s' = (ss_maps s)(i := d))"
    using assms(3) by (auto simp: store_response_def split: option.splits)
  ultimately have "acc_rel (ss_maps s') (ss_acc s') (acc_after m (map (call_outcome expired ce next) calls))"
    using i acc_rel_store s' by auto
  from merge_part_refines [OF this rel _ m] i r s'
  have "acc_rel \<sigma> acc (fst (acc_merge combine_data () (Some response, None)
      (acc_after m (map (call_outcome expired ce next) calls))))"
    and "acc_addrs acc \<subseteq> acc_addrs (ss_acc s) \<union> {i} \<union> {length next}"
    by auto
  then have "\<forall>a \<in> acc_addrs acc. a < Suc i \<or> a = length next"
    using assms(1) by (fastforce simp: seq_inv_def)
  with assms(1,2) \<open>acc_rel \<sigma> acc _\<close> show ?thesis
    by (auto simp: seq_inv_def seq_merge_def m acc_after_snoc outcome_presult_def sorted_wrt_append less_Suc_eq)
qed

lemma seq_loop_ends:
  assumes "rest = map (\<lambda>j. (j, next ! j)) [i..<length next]" and "i \<le> length next"
    and "seq_inv filters expired ce next i s calls m"
    and "\<forall>c \<in> set calls. good_outcome (call_outcome expired ce next c)"
  shows "seq_ends filters expired ce next (seq_loop ff fe cl reps filters expired ce (length next) rest s)"
  using assms
proof (induction rest arbitrary: i s calls m)
  case Nil
  then have "i = length next" by (cases "i < length next") auto
  moreover have "\<forall>c \<in> set (butlast calls). good_outcome (call_outcome expired ce next c)"
    using Nil.prems(4) by (auto dest: in_set_butlastD)
  ultimately show ?case using Nil.prems(3) by (auto simp: seq_ends_def)
next
  case (Cons p rest)
  have i: "i < length next"
    using Cons.prems(1) by (cases "i < length next") auto
  with Cons.prems(1) have p: "p = (i, next ! i)"
    and rest: "rest = map (\<lambda>j. (j, next ! j)) [Suc i..<length next]"
    by (simp_all add: upt_conv_Cons)
  let ?s = "replace_params_for ff fe reps i s"
  have inv: "seq_inv filters expired ce next i ?s calls m"
    by (rule seq_inv_frame [OF Cons.prems(3)]) simp_all
  show ?case
  proof (cases "filtered_out filters (ss_request ?s) i")
    case True
    from Cons.IH [OF rest _ seq_inv_skip [OF inv i True] Cons.prems(4)] i True show ?thesis
      by (simp add: p Let_def)
  next
    case False
    obtain creq req where cl: "cl (ss_request ?s) = (creq, req)" by fastforce
    obtain res w where call: "(next ! i) (ss_world s) creq = (res, w)" by fastforce
    let ?s1 = "?s\<lparr>ss_request := req, ss_world := w\<rparr>"
    let ?c = "(i, ss_world s, creq)"
    have inv1: "seq_inv filters expired ce next i ?s1 calls m" by (rule seq_inv_frame [OF inv]) simp_all
    have out: "call_outcome expired ce next ?c = sequential_request_part (expired i) ce res"
      by (simp add: call_outcome_def call)
    show ?thesis
    proof (cases "sequential_request_part (expired i) ce res")
      case (Inl err)
      note inv2 = seq_inv_error [OF inv1 out [unfolded Inl], of "length next"]
      have "\<not> good_outcome (call_outcome expired ce next ?c)" by (simp add: out Inl good_outcome_def)
      with inv2 i False Inl cl call Cons.prems(4) show ?thesis
      proof (cases "i = 0")
        case True
        with out Inl have "call_outcome expired ce next (0, ss_world s, creq) = Inl err" by simp
        with True False Inl cl call show ?thesis by (auto simp: p Let_def seq_ends_def)
      next
        case nz: False
        have "seq_loop ff fe cl reps filters expired ce (length next) (p # rest) s =
            Ended (seq_merge (length next) (None, Some err) ?s1)"
          using False Inl cl call nz by (simp add: p Let_def)
        moreover have "last (calls @ [?c]) = ?c" "butlast (calls @ [?c]) = calls" by simp_all
        ultimately show ?thesis
          using inv2 i Cons.prems(4) \<open>\<not> good_outcome (call_outcome expired ce next ?c)\<close>
          by (simp add: seq_ends_def) (metis Suc_leI last_snoc butlast_snoc snoc_eq_iff_butlast)
      qed
    next
      case (Inr response)
      obtain r s2 where st: "store_response i response ?s1 = (r, s2)" by fastforce
      note inv2 = seq_inv_response [OF inv1 out [unfolded Inr] st i]
      have rc: "r_IsComplete r = r_IsComplete response" using st by (auto simp: store_response_def)
      let ?s3 = "seq_merge (length next) (Some r, None) s2"
      show ?thesis
      proof (cases "r_IsComplete r")
        case True
        have good: "\<forall>c \<in> set (calls @ [?c]). good_outcome (call_outcome expired ce next c)"
          using Cons.prems(4) True rc out Inr by (auto simp: good_outcome_def)
        have inv3: "seq_inv filters expired ce next (Suc i) (?s3\<lparr>ss_parts := (ss_parts ?s3)(i := Some r)\<rparr>) (calls @ [?c]) m"
          by (rule seq_inv_frame [OF inv2]) simp_all
        from Cons.IH [OF rest _ inv3 good] i True False Inr cl call st show ?thesis
          by (simp add: p Let_def)
      next
        case nc: False
        have "seq_loop ff fe cl reps filters expired ce (length next) (p # rest) s = Ended ?s3"
          using False Inr cl call st nc by (simp add: p Let_def)
        moreover have "\<not> good_outcome (call_outcome expired ce next ?c)"
          using nc rc by (simp add: out Inr good_outcome_def)
        ultimately show ?thesis
          using inv2 i Cons.prems(4) by (simp add: seq_ends_def) (metis Suc_leI last_snoc butlast_snoc snoc_eq_iff_butlast)
      qed
    qed
  qed
qed

section \<open>Properties\<close>

lemma oks_good:
  assumes "\<forall>out \<in> set (butlast outs). good_outcome out"
  shows "(failures outs = [] \<and> all_complete (oks outs)) \<longleftrightarrow>
    (\<forall>out \<in> set outs. good_outcome out) \<and>
    (length outs \<ge> 2 \<longrightarrow> (\<forall>out \<in> set outs. \<forall>r. out = Inr r \<longrightarrow> r_Data r \<noteq> None))"
proof (cases "failures outs = []")
  case True
  then have len: "length (oks outs) = length outs" using length_oks_failures [of outs] by simp
  have ok: "out \<in> set outs \<Longrightarrow> \<exists>r. out = Inr r" for out
    using True set_failures [of _ outs] by (cases out) auto
  with True len show ?thesis
    by (fastforce simp: all_complete_def set_oks good_outcome_def split: sum.splits)
next
  case False
  then obtain e where "Inl e \<in> set outs" using set_failures [of _ outs] by (metis list.set_intros(1) neq_Nil_conv)
  with False show ?thesis by (force simp: good_outcome_def)
qed

lemma sequential_request_part_Inr: "sequential_request_part late ce p = Inr r \<longleftrightarrow> p = (Some r, None) \<and> \<not> late"
  by (auto simp: sequential_request_part_def split: option.splits prod.splits)

lemma acc_result_refines:
  assumes "acc_rel \<sigma> i j"
  shows "case (acc_result i, acc_result j) of ((r, e), (v, e')) \<Rightarrow> e = e' \<and> rel_option (resp_rel \<sigma>) r v"
  using assms
  by (cases "acc_data i"; cases "acc_data j") (auto simp: acc_rel_def acc_result_def resp_rel_def)

lemma seq_ended_value:
  assumes inv: "seq_inv filters expired ce next i s calls m"
    and butl: "\<forall>out \<in> set (butlast (map (call_outcome expired ce next) calls)). good_outcome out"
    and stop: "i = length next \<or> calls \<noteq> [] \<and> \<not> good_outcome (call_outcome expired ce next (last calls))"
    and vals: "\<And>r. Inr r \<in> set (map (call_outcome expired ce next) calls) \<Longrightarrow> gomap_ok (data_of r)"
  defines "outs \<equiv> map (call_outcome expired ce next) calls"
  shows "case (case acc_result (ss_acc s) of (r, err) \<Rightarrow> (map_option (load_response (ss_maps s) (ss_ios s)) r, err)) of
       (None, e) \<Rightarrow> oks outs = [] \<and> e = new_merge_error (failures outs)
     | (Some d, e) \<Rightarrow>
         oks outs \<noteq> [] \<and> e = new_merge_error (failures outs) \<and> map_of (data_of d) = merged (oks outs) \<and>
         r_IsComplete d = ((\<forall>out \<in> set outs. good_outcome out) \<and>
           (length outs \<ge> 2 \<longrightarrow> (\<forall>out \<in> set outs. \<forall>r. out = Inr r \<longrightarrow> r_Data r \<noteq> None)))"
proof -
  have rel: "acc_rel (ss_maps s) (ss_acc s) (acc_after m outs)" using inv by (simp add: seq_inv_def outs_def)
  have "failures outs = [] \<and> all_complete (oks outs) \<longrightarrow> m \<le> length outs"
  proof
    assume "failures outs = [] \<and> all_complete (oks outs)"
    then have "\<forall>out \<in> set outs. good_outcome out" using oks_good [of outs] butl by (simp add: outs_def)
    with stop have "i = length next" by (auto simp: outs_def dest: last_in_set)
    with inv show "m \<le> length outs" by (simp add: seq_inv_def outs_def)
  qed
  moreover note oks_good [of outs] butl
  ultimately have c: "(failures outs = [] \<and> m \<le> length outs \<and> all_complete (oks outs)) \<longleftrightarrow>
      (\<forall>out \<in> set outs. good_outcome out) \<and>
      (length outs \<ge> 2 \<longrightarrow> (\<forall>out \<in> set outs. \<forall>r. out = Inr r \<longrightarrow> r_Data r \<noteq> None))"
    by (auto simp: outs_def)
  have spec: "case acc_result (acc_after m outs) of
      (None, e) \<Rightarrow> oks outs = [] \<and> e = new_merge_error (failures outs)
    | (Some d, e) \<Rightarrow>
        oks outs \<noteq> [] \<and> e = new_merge_error (failures outs) \<and>
        map_of (data_of d) = merged (oks outs) \<and>
        r_IsComplete d = (failures outs = [] \<and> m \<le> length outs \<and> all_complete (oks outs))"
    by (rule acc_result_spec) (use vals in \<open>simp add: outs_def\<close>)
  have load: "resp_rel \<sigma> r v \<Longrightarrow> data_of (load_response \<sigma> ios r) = data_of v \<and>
      r_IsComplete (load_response \<sigma> ios r) = r_IsComplete v" for \<sigma> ios r v
    by (simp add: resp_rel_def load_response_def data_of_def)
  obtain r e v e' where r: "acc_result (ss_acc s) = (r, e)" and v: "acc_result (acc_after m outs) = (v, e')"
    by fastforce
  have e: "e = e'" and rv: "rel_option (resp_rel (ss_maps s)) r v"
    using acc_result_refines [OF rel] by (simp_all add: r v)
  show ?thesis
  proof (cases v)
    case None
    with rv spec v e r show ?thesis by simp
  next
    case (Some x)
    with rv obtain y where y: "r = Some y" "resp_rel (ss_maps s) y x" by (auto simp: option_rel_Some2)
    from spec [unfolded v Some c] load [OF y(2)] show ?thesis by (simp add: r y(1) e)
  qed
qed

text \<open>C4. What the client gets from the sequential merger, in terms of the calls it made, each to the
  proxy of a backend in the order of the configuration: a backend that is passed over is one the
  filters reject; the calls stop at the first that fails, is late or is incomplete. When the first
  backend of all fails, its error is returned as it is; otherwise the data is what the answers
  amount to, later ones overriding earlier ones, the error tells whether a call failed, and the
  response is complete exactly when all calls answered completely (and with data, when there are
  several).\<close>

theorem sequential_merge_value:
  assumes ok: "\<forall>n \<in> set next. \<forall>w req r e w'. n w req = ((Some r, e), w') \<longrightarrow> gomap_ok (data_of r)"
  shows "\<exists>calls.
     (let outs = map (call_outcome expired ce next) calls;
          res = fst (sequential_merge ff fe cl reps filters expired ce next w req)
      in sorted_wrt (<) (map fst calls) \<and> (\<forall>c \<in> set calls. fst c < length next) \<and>
         (\<forall>out \<in> set (butlast outs). good_outcome out) \<and>
         (\<forall>j < (if \<forall>out \<in> set outs. good_outcome out then length next else fst (last calls)).
            j \<notin> fst ` set calls \<longrightarrow> (\<exists>req. filtered_out filters req j)) \<and>
         ((\<exists>c err. calls = [c] \<and> fst c = 0 \<and> outs = [Inl err] \<and> res = (None, Some err)) \<or>
          (case res of
             (None, e) \<Rightarrow> oks outs = [] \<and> e = new_merge_error (failures outs)
           | (Some d, e) \<Rightarrow>
               oks outs \<noteq> [] \<and> e = new_merge_error (failures outs) \<and> map_of (data_of d) = merged (oks outs) \<and>
               r_IsComplete d = ((\<forall>out \<in> set outs. good_outcome out) \<and>
                 (length outs \<ge> 2 \<longrightarrow> (\<forall>out \<in> set outs. \<forall>r. out = Inr r \<longrightarrow> r_Data r \<noteq> None))))))"
proof -
  let ?s0 = "seq_init (length next) req w"
  let ?rest = "enumerate 0 next"
  let ?x = "seq_loop ff fe cl reps filters expired ce (length next) ?rest ?s0"
  have rest: "?rest = map (\<lambda>j. (j, next ! j)) [0..<length next]"
    by (rule nth_equalityI) (simp_all add: nth_enumerate_eq)
  have inv0: "seq_inv filters expired ce next 0 ?s0 [] (length next)"
    by (simp add: seq_inv_def seq_init_def acc_rel_def acc_addrs_def new_incremental_merge_accumulator_def)
  have ends: "seq_ends filters expired ce next ?x"
    by (rule seq_loop_ends [OF rest _ inv0]) simp_all
  show ?thesis
  proof (cases ?x)
    case (FirstFailed err w')
    with ends obtain w0 req0 where "call_outcome expired ce next (0, w0, req0) = Inl err"
      by (auto simp: seq_ends_def)
    moreover have "next \<noteq> []" using FirstFailed by auto
    ultimately show ?thesis
      using FirstFailed by (intro exI [of _ "[(0, w0, req0)]"])
        (simp add: sequential_merge_def good_outcome_def)
  next
    case (Ended s)
    with ends obtain i calls m where inv: "seq_inv filters expired ce next i s calls m" and i: "i \<le> length next"
      and butl: "\<forall>c \<in> set (butlast calls). good_outcome (call_outcome expired ce next c)"
      and stop: "i = length next \<or> calls \<noteq> [] \<and> \<not> good_outcome (call_outcome expired ce next (last calls))"
      by (auto simp: seq_ends_def)
    let ?outs = "map (call_outcome expired ce next) calls"
    let ?good = "\<forall>out \<in> set ?outs. good_outcome out"
    have vals: "gomap_ok (data_of r)" if "Inr r \<in> set ?outs" for r
    proof -
      from that obtain k w1 req1 where c: "(k, w1, req1) \<in> set calls"
        and "call_outcome expired ce next (k, w1, req1) = Inr r" by fastforce
      then have "fst ((next ! k) w1 req1) = (Some r, None)"
        by (simp add: call_outcome_def sequential_request_part_Inr)
      then obtain w2 where "(next ! k) w1 req1 = ((Some r, None), w2)" by (metis surjective_pairing)
      moreover have "next ! k \<in> set next" using c inv i by (force simp: seq_inv_def)
      ultimately show ?thesis using ok by blast
    qed
    have butl': "\<forall>out \<in> set (butlast ?outs). good_outcome out"
      using butl by (simp add: map_butlast [symmetric])
    have idx: "\<forall>j < (if ?good then length next else fst (last calls)).
        j \<notin> fst ` set calls \<longrightarrow> (\<exists>req. filtered_out filters req j)"
    proof (cases ?good)
      case True
      with stop have "i = length next" by (auto dest: last_in_set)
      with True inv show ?thesis by (simp add: seq_inv_def)
    next
      case False
      then have "calls \<noteq> []" by auto
      then have "fst (last calls) < i" using inv by (auto simp: seq_inv_def)
      with False inv show ?thesis by (auto simp: seq_inv_def)
    qed
    have "fst (sequential_merge ff fe cl reps filters expired ce next w req) =
        (case acc_result (ss_acc s) of (r, err) \<Rightarrow> (map_option (load_response (ss_maps s) (ss_ios s)) r, err))"
      by (simp add: sequential_merge_def Ended split: prod.split)
    with seq_ended_value [OF inv butl' stop vals] idx butl' inv i show ?thesis
      by (intro exI [of _ calls]) (auto simp: Let_def seq_inv_def)
  qed
qed

text \<open>Proxies for concrete runs: they log the requests they get and answer with fixed data.\<close>

definition answer :: "gobj \<Rightarrow> request list proxy" where
  "answer d w req = ((Some (new_response d True), None), w @ [req])"

definition refuse :: "goerror \<Rightarrow> request list proxy" where
  "refuse e w req = ((None, Some e), w @ [req])"

definition shallow :: "request \<Rightarrow> request \<times> request" where
  "shallow r = (clone Some r, r)"

theorem sequential_merge_value_witness:
  "\<exists>calls d.
     fst (sequential_merge (\<lambda>_. []) (\<lambda>_. []) shallow [[], []] [] (\<lambda>_. False) ErrNoHosts
        [answer [(''a'', VInt 1)], refuse ErrNoHosts] [] request_zero) = (Some d, Some (MergeError [ErrNoHosts])) \<and>
     map_of (data_of d) = merged (oks (map (call_outcome (\<lambda>_. False) ErrNoHosts
        [answer [(''a'', VInt 1)], refuse ErrNoHosts]) calls)) \<and> \<not> r_IsComplete d"
proof -
  let ?next = "[answer [(''a'', VInt 1)], refuse ErrNoHosts]"
  let ?res = "fst (sequential_merge (\<lambda>_. []) (\<lambda>_. []) shallow [[], []] [] (\<lambda>_. False) ErrNoHosts ?next [] request_zero)"
  have eval: "?res = (Some (new_response [(''a'', VInt 1)] False), Some (MergeError [ErrNoHosts]))"
    by code_simp
  have "\<forall>n \<in> set ?next. \<forall>w req r e w'. n w req = ((Some r, e), w') \<longrightarrow> gomap_ok (data_of r)"
    by (auto simp: answer_def refuse_def)
  from sequential_merge_value [OF this, where expired = "\<lambda>_. False" and ce = ErrNoHosts and ff = "\<lambda>_. []"
      and fe = "\<lambda>_. []" and cl = shallow and reps = "[[], []]" and filters = "[]" and w = "[]" and req = request_zero]
  show ?thesis unfolding eval Let_def by auto
qed

section \<open>The values passed on\<close>

lemma nav_vget:
  "ks \<noteq> [] \<Longrightarrow> vget (VMap d) ks = Some v \<Longrightarrow> map_of (nav d (butlast ks)) (last ks) = Some v"
proof (induction ks arbitrary: d)
  case (Cons k ks)
  show ?case
  proof (cases "ks = []")
    case True
    with Cons.prems show ?thesis by (auto split: option.splits)
  next
    case False
    from Cons.prems obtain w where w: "map_of d k = Some w" "vget w ks = Some v"
      by (auto split: option.splits)
    with False obtain m where "w = VMap m" by (cases w; cases ks) auto
    with w False Cons.IH [of m] show ?thesis by simp
  qed
qed simp

text \<open>C14. A reference to an earlier response: when backend \<open>j\<close> has answered and its data has a value at
  the referenced path, the parameter becomes the text of that value and is kept for the backends
  to come; neither the other parameters nor any data change.\<close>

theorem resp_param_value:
  assumes "sr_backendIndex r < i" and "ss_parts s (sr_backendIndex r) = Some part" and "r_Data part = Some a"
    and "\<not> sr_fullResponse r" and "sr_source r \<noteq> []" and "vget (VMap (ss_maps s a)) (sr_source r) = Some v"
    and "map_of (ss_registry s) (sr_destination r) = None"
  shows "map_of (q_Params (ss_request (replace_one ff fe i r s))) =
      (map_of (q_Params (ss_request s)))(sr_destination r \<mapsto> param_text ff fe v) \<and>
    map_of (ss_registry (replace_one ff fe i r s)) (sr_destination r) = Some (param_text ff fe v) \<and>
    ss_maps (replace_one ff fe i r s) = ss_maps s"
proof -
  have "map_of (nav (ss_maps s a) (butlast (sr_source r))) (last (sr_source r)) = Some v"
    by (rule nav_vget [OF assms(5,6)])
  with assms show ?thesis
    by (simp add: replace_one_def Let_def set_param_def register_param_def gomap_simps fun_eq_iff)
qed

text \<open>The state in which backend 1 is about to be called, after backend 0 answered with \<open>d\<close>.\<close>

definition after_first :: "gobj \<Rightarrow> request list seq_state" where
  "after_first d = (seq_init 2 request_zero [])\<lparr>ss_parts := (\<lambda>_. None)(0 := Some (new_response 0 True)),
     ss_maps := (\<lambda>_. [])(0 := d)\<rparr>"

definition ref_to_first :: "string \<Rightarrow> replacement" where
  "ref_to_first path = replacement_of (''0'', path) 0"

theorem resp_param_value_witness:
  "map_of (q_Params (ss_request (replace_one (\<lambda>_. []) (\<lambda>_. []) 1 (ref_to_first ''u.id'')
     (after_first [(''u'', VMap [(''id'', VInt 42)])])))) ''Resp0_u.id'' = Some ''42''"
proof -
  let ?r = "ref_to_first ''u.id''" and ?s = "after_first [(''u'', VMap [(''id'', VInt 42)])]"
  have r: "?r = \<lparr>sr_backendIndex = 0, sr_destination = ''Resp0_u.id'', sr_source = [''u'', ''id''], sr_fullResponse = False\<rparr>"
    by code_simp
  have t: "param_text (\<lambda>_. []) (\<lambda>_. []) (VInt 42) = ''42''" by code_simp
  from resp_param_value [of ?r 1 ?s "new_response 0 True" 0 "VInt 42" "\<lambda>_. []" "\<lambda>_. []"]
  show ?thesis by (simp add: r t after_first_def seq_init_def)
qed

text \<open>A reference whose path is not in the response is not always left alone: the last key is then
  looked up in the deepest map that was reached, so \<open>Resp0_user.id\<close> takes the response's own \<open>id\<close>
  when there is no \<open>user\<close>.\<close>

theorem resp_param_fallback:
  "\<exists>d. vget (VMap d) [''user'', ''id''] = None \<and>
     map_of (q_Params (ss_request (replace_one (\<lambda>_. []) (\<lambda>_. []) 1 (ref_to_first ''user.id'') (after_first d))))
       ''Resp0_user.id'' = Some ''7''"
proof (intro exI [of _ "[(''id'', VInt 7)]"] conjI)
  show "vget (VMap [(''id'', VInt 7)]) [''user'', ''id''] = None" by simp
  show "map_of (q_Params (ss_request (replace_one (\<lambda>_. []) (\<lambda>_. []) 1 (ref_to_first ''user.id'')
      (after_first [(''id'', VInt 7)])))) ''Resp0_user.id'' = Some ''7''"
    by code_simp
qed

text \<open>One iteration over a backend that answers.\<close>

definition answer_step :: "nat \<Rightarrow> nat \<Rightarrow> gobj \<Rightarrow> request list seq_state \<Rightarrow> request list seq_state" where
  "answer_step fresh i d s =
     (seq_merge fresh (Some (new_response i True), None)
       (s\<lparr>ss_world := ss_world s @ [ss_request s], ss_maps := (ss_maps s)(i := d)\<rparr>))
       \<lparr>ss_parts := (ss_parts s)(i := Some (new_response i True))\<rparr>"

lemma clone_Some [simp]: "clone Some r = r"
  by (cases r) (simp add: clone_def split: option.split)

lemma seq_loop_answer:
  "seq_loop ff fe shallow reps [] (\<lambda>_. False) ce fresh ((i, answer d) # rest) s =
     seq_loop ff fe shallow reps [] (\<lambda>_. False) ce fresh rest
       (answer_step fresh i d (replace_params_for ff fe reps i s))"
proof -
  let ?s = "replace_params_for ff fe reps i s"
  have st: "store_response i (new_response d True) (?s\<lparr>ss_request := ss_request ?s, ss_world := ss_world ?s @ [ss_request ?s]\<rparr>) =
      (new_response i True, ?s\<lparr>ss_world := ss_world ?s @ [ss_request ?s], ss_maps := (ss_maps ?s)(i := d)\<rparr>)"
    by (simp add: store_response_def new_response_def)
  have "ss_parts (seq_merge fresh p s) = ss_parts s" for p and s :: "request list seq_state"
    by (simp add: seq_merge_def split: prod.split)
  then show ?thesis
    by (simp only: seq_loop.simps Let_def shallow_def answer_def clone_Some prod.case filtered_out_def list.size
        not_less_zero simp_thms if_False sequential_request_part_def option.case sum.case st new_response_sel
        answer_step_def) simp
qed

definition two_answers :: "request list seq_state" where
  "two_answers =
     \<lparr>ss_request = request_zero, ss_registry = [],
      ss_parts = (\<lambda>_. None)(0 := Some (new_response 0 True), 1 := Some (new_response 1 True)),
      ss_maps = (\<lambda>_. [])(0 := [(''id'', VString ''second'')], 1 := [(''id'', VString ''second'')]),
      ss_ios = (\<lambda>_. \<lparr>rd_content = [], rd_err = None\<rparr>),
      ss_acc = \<lparr>acc_pending = 1, acc_data = Some (new_response 0 True), acc_errs = []\<rparr>,
      ss_world = [request_zero, request_zero]\<rparr>"

lemma after_two_answers:
  "answer_step 3 1 [(''id'', VString ''second'')] (answer_step 3 0 [(''id'', VString ''first'')] (seq_init 3 request_zero [])) =
     two_answers"
proof -
  have "answer_step 3 0 [(''id'', VString ''first'')] (seq_init 3 request_zero []) =
     \<lparr>ss_request = request_zero, ss_registry = [],
      ss_parts = (\<lambda>_. None)(0 := Some (new_response 0 True)),
      ss_maps = (\<lambda>_. [])(0 := [(''id'', VString ''first'')]),
      ss_ios = (\<lambda>_. \<lparr>rd_content = [], rd_err = None\<rparr>),
      ss_acc = \<lparr>acc_pending = 2, acc_data = Some (new_response 0 True), acc_errs = []\<rparr>,
      ss_world = [request_zero]\<rparr>"
    by (simp add: answer_step_def seq_init_def seq_merge_def acc_merge_def new_incremental_merge_accumulator_def)
  then show ?thesis
    by (simp add: answer_step_def seq_merge_def acc_merge_def combine_ref_two two_answers_def fun_eq_iff)
qed

lemma third_request:
  "ss_request (replace_one (\<lambda>_. []) (\<lambda>_. []) 2 (ref_to_first ''id'') two_answers) =
     request_zero\<lparr>q_Params := [(''Resp0_id'', ''second'')]\<rparr>"
  by code_simp

lemma sample_url_replacements: "url_replacements ''/c/{{.Resp0_id}}'' = [ref_to_first ''id'']"
  by code_simp

text \<open>Combining responses changes what later references read: with three backends whose answers
  share the key \<open>id\<close>, the third one's \<open>{{.Resp0_id}}\<close> is the second backend's value, because the
  combiner has written the second answer into the first one's map.\<close>

theorem resp_param_aliasing:
  "\<exists>reqs. snd (sequential_merge (\<lambda>_. []) (\<lambda>_. []) shallow [[], [], url_replacements ''/c/{{.Resp0_id}}''] []
       (\<lambda>_. False) ErrNoHosts
       [answer [(''id'', VString ''first'')], answer [(''id'', VString ''second'')], answer []] [] request_zero) = reqs \<and>
     map_of (q_Params (reqs ! 2)) ''Resp0_id'' = Some ''second''"
proof -
  let ?reps = "[[], [], [ref_to_first ''id'']]"
  let ?next = "[answer [(''id'', VString ''first'')], answer [(''id'', VString ''second'')], answer []]"
  let ?loop = "seq_loop (\<lambda>_. []) (\<lambda>_. []) shallow ?reps [] (\<lambda>_. False) ErrNoHosts"
  let ?s3 = "answer_step 3 2 [] (replace_one (\<lambda>_. []) (\<lambda>_. []) 2 (ref_to_first ''id'') two_answers)"
  have r0: "replace_params_for (\<lambda>_. []) (\<lambda>_. []) ?reps 0 s = s" for s :: "request list seq_state"
    by (simp add: replace_params_for_def)
  have r1: "replace_params_for (\<lambda>_. []) (\<lambda>_. []) ?reps 1 s = s" for s :: "request list seq_state"
    by (simp add: replace_params_for_def)
  have r2: "replace_params_for (\<lambda>_. []) (\<lambda>_. []) ?reps 2 s = replace_one (\<lambda>_. []) (\<lambda>_. []) 2 (ref_to_first ''id'') s"
    for s :: "request list seq_state"
    by (simp add: replace_params_for_def)
  have e: "enumerate 0 ?next = [(0, answer [(''id'', VString ''first'')]), (1, answer [(''id'', VString ''second'')]), (2, answer [])]"
    by simp
  have "?loop 3 (enumerate 0 ?next) (seq_init 3 request_zero []) = Ended ?s3"
    unfolding e seq_loop_answer r0 r1 r2 after_two_answers by simp
  moreover have "ss_world ?s3 = [request_zero, request_zero, request_zero\<lparr>q_Params := [(''Resp0_id'', ''second'')]\<rparr>]"
  proof -
    have "ss_world (answer_step 3 2 [] s) = ss_world s @ [ss_request s]" for s
      by (simp add: answer_step_def seq_merge_def split: prod.split)
    then show ?thesis by (simp add: third_request replace_one_frame) (simp add: two_answers_def)
  qed
  moreover have "length ?next = 3" by simp
  ultimately have "snd (sequential_merge (\<lambda>_. []) (\<lambda>_. []) shallow ?reps [] (\<lambda>_. False) ErrNoHosts ?next [] request_zero) =
      [request_zero, request_zero, request_zero\<lparr>q_Params := [(''Resp0_id'', ''second'')]\<rparr>]"
    unfolding sequential_merge_def by (simp only: seq_exit.case prod.case split: prod.split) simp
  then show ?thesis by (simp add: sample_url_replacements)
qed

end
