(* ===== verification/Dnssrv.thy ===== *)
theory Dnssrv
  imports Balancer "HOL-Library.Product_Lexorder"
begin

text \<open>
  DNS service discovery, \<open>src/sd/dnssrv/subscriber.go\<close>: the order of SRV records, the selection of
  the records of the best priority, the compaction of their weights into a host list, and the
  subscriber that caches this list between lookups. The lookup function (\<open>net.LookupSRV\<close> by
  default) is a parameter: each update consumes one answer of it.
\<close>

section \<open>SRV records and their order\<close>

datatype srv = SRV (srv_Target: string) (srv_Port: "16 word") (srv_Priority: "16 word") (srv_Weight: "16 word")

text \<open>The comparison function that \<open>resolve\<close> passes to \<open>sort.Slice\<close>.\<close>

definition srv_before :: "srv \<Rightarrow> srv \<Rightarrow> bool" where
  "srv_before a b =
     (if srv_Priority a = srv_Priority b
      then (if srv_Weight a = srv_Weight b
            then (if srv_Target a = srv_Target b then srv_Port a < srv_Port b
                  else srv_Target a < srv_Target b)
            else srv_Weight a > srv_Weight b)
      else srv_Priority a < srv_Priority b)"

text \<open>It is the lexicographic order of a key, hence a strict linear order.\<close>

definition srv_key :: "srv \<Rightarrow> 16 word \<times> int \<times> string \<times> 16 word" where
  "srv_key a = (srv_Priority a, - uint (srv_Weight a), srv_Target a, srv_Port a)"

lemma srv_key_inj: "srv_key a = srv_key b \<longleftrightarrow> a = b"
  by (cases a; cases b) (auto simp: srv_key_def intro: word_uint_eqI)

lemma srv_before_key: "srv_before a b \<longleftrightarrow> srv_key a < srv_key b"
  using word_uint_eqI [of "srv_Weight a" "srv_Weight b"]
  by (auto simp: srv_before_def srv_key_def less_prod_def' word_less_def)

instantiation srv :: linorder
begin

definition less_srv :: "srv \<Rightarrow> srv \<Rightarrow> bool" where "a < b \<longleftrightarrow> srv_before a b"

definition less_eq_srv :: "srv \<Rightarrow> srv \<Rightarrow> bool" where "(a::srv) \<le> b \<longleftrightarrow> \<not> srv_before b a"

instance
proof
  fix x y z :: srv
  show "x < y \<longleftrightarrow> x \<le> y \<and> \<not> y \<le> x"
    by (auto simp: less_srv_def less_eq_srv_def srv_before_key)
  show "x \<le> x" by (simp add: less_eq_srv_def srv_before_key)
  show "x \<le> y \<Longrightarrow> y \<le> z \<Longrightarrow> x \<le> z" by (auto simp: less_eq_srv_def srv_before_key)
  show "x \<le> y \<Longrightarrow> y \<le> x \<Longrightarrow> x = y"
    by (auto simp: less_eq_srv_def srv_before_key intro: srv_key_inj [THEN iffD1])
  show "x \<le> y \<or> y \<le> x" by (auto simp: less_eq_srv_def srv_before_key)
qed

end

lemma srv_le_priority: "(a::srv) \<le> b \<Longrightarrow> srv_Priority a \<le> srv_Priority b"
  by (auto simp: less_eq_srv_def srv_before_def split: if_splits)

section \<open>Weights\<close>

function local_gcd :: "16 word \<Rightarrow> 16 word \<Rightarrow> 16 word" where
  "local_gcd a b = (if b > 0 then local_gcd b (a mod b) else a)"
  by auto
termination
  by (relation "measure (\<lambda>(a, b). unat b)") (auto simp: unat_mod word_neq_0_conv unat_gt_0)

declare local_gcd.simps [simp del]

fun gcd_weights :: "16 word list \<Rightarrow> 16 word" where
  "gcd_weights [] = 0"
| "gcd_weights (w # ws) = foldl local_gcd w ws"

definition normalize_ws :: "16 word list \<Rightarrow> 16 word list" where
  "normalize_ws ws =
     (let scale = (if length ws > 100 then length ws else 100);
          total = sum_list (map unat ws)
      in if total \<le> scale then ws
         else map (\<lambda>w. of_nat (unat w * scale div total)) ws)"

definition compact :: "16 word list \<Rightarrow> 16 word list" where
  "compact ws =
     (let tmp = normalize_ws ws; d = gcd_weights tmp
      in if d < 2 then tmp else map (\<lambda>w. w div d) tmp)"

section \<open>Resolution\<close>

definition join_host_port :: "string \<Rightarrow> string \<Rightarrow> string" where
  "join_host_port host port =
     (if CHR '':'' \<in> set host then ''['' @ host @ '']:'' @ port else host @ '':'' @ port)"

definition host_of_srv :: "string \<Rightarrow> srv \<Rightarrow> string" where
  "host_of_srv scheme a =
     scheme @ ''://'' @ join_host_port (srv_Target a) (show_nat (unat (srv_Port a)))"

definition best_srvs :: "srv list \<Rightarrow> srv list" where
  "best_srvs srvs =
     (let s = sort srvs in takeWhile (\<lambda>a. \<not> srv_Priority a > srv_Priority (hd s)) s)"

definition instances_of :: "string \<Rightarrow> srv list \<Rightarrow> string list" where
  "instances_of scheme srvs =
     (let best = best_srvs srvs
      in concat (map2 (\<lambda>times h. replicate (unat times) h)
           (compact (map srv_Weight best)) (map (host_of_srv scheme) best)))"

definition resolve :: "string \<Rightarrow> goerror + srv list \<Rightarrow> goerror + string list" where
  "resolve scheme answer =
     (case answer of Inl e \<Rightarrow> Inl e | Inr srvs \<Rightarrow> Inr (instances_of scheme srvs))"

section \<open>The subscriber\<close>

record dns_subscriber =
  ds_name :: string
  ds_cache :: "string list"
  ds_ttl :: duration
  ds_scheme :: string

definition DefaultTTL :: duration where "DefaultTTL = 30 * second"
definition MinTTL :: duration where "MinTTL = second"

definition set_ttl :: "duration \<Rightarrow> duration \<Rightarrow> duration" where
  "set_ttl TTL d = (if sint d < sint MinTTL then TTL else d)"

definition dns_hosts :: "dns_subscriber \<Rightarrow> goerror + string list" where
  "dns_hosts s = Inr (ds_cache s)"

text \<open>\<open>update\<close>: a failed lookup leaves the cache as it is; more than 100 instances are shuffled.\<close>

definition dns_update ::
  "(nat \<Rightarrow> nat list) \<Rightarrow> goerror + srv list \<Rightarrow> dns_subscriber \<Rightarrow> dns_subscriber" where
  "dns_update perm answer s =
     (case resolve (ds_scheme s) answer of
        Inl e \<Rightarrow> s
      | Inr instances \<Rightarrow>
          s\<lparr>ds_cache := (if length instances > 100 then random_fixed_subscriber perm instances
                        else instances)\<rparr>)"

text \<open>\<open>NewDetailedWithScheme\<close>, up to the start of the refresh goroutine; the goroutine's loop
  then applies \<open>dns_update\<close> to one answer after the other.\<close>

definition new_detailed_with_scheme ::
  "(nat \<Rightarrow> nat list) \<Rightarrow> string \<Rightarrow> goerror + srv list \<Rightarrow> duration \<Rightarrow> string \<Rightarrow> dns_subscriber" where
  "new_detailed_with_scheme perm name answer ttl scheme =
     dns_update perm answer
       \<lparr>ds_name = name, ds_cache = [], ds_ttl = ttl,
        ds_scheme = (if scheme = [] then ''http'' else scheme)\<rparr>"

definition new_detailed ::
  "(nat \<Rightarrow> nat list) \<Rightarrow> string \<Rightarrow> goerror + srv list \<Rightarrow> duration \<Rightarrow> dns_subscriber" where
  "new_detailed perm name answer ttl = new_detailed_with_scheme perm name answer ttl ''http''"

text \<open>\<open>SubscriberFactory\<close>: \<open>cfg.Host[0]\<close> panics on an empty host list (\<open>None\<close>). \<open>lookup\<close> is the
  package variable \<open>DefaultLookup\<close>, read for the first lookup.\<close>

definition dns_subscriber_factory ::
  "(nat \<Rightarrow> nat list) \<Rightarrow> (string \<Rightarrow> goerror + srv list) \<Rightarrow> duration \<Rightarrow> backend \<Rightarrow> dns_subscriber option" where
  "dns_subscriber_factory perm lookup TTL cfg =
     (case b_Host cfg of
        [] \<Rightarrow> None
      | h # hs \<Rightarrow> Some (new_detailed_with_scheme perm h (lookup h) TTL (b_SDScheme cfg)))"

fun dns_refresh ::
  "(nat \<Rightarrow> nat list) \<Rightarrow> (goerror + srv list) list \<Rightarrow> dns_subscriber \<Rightarrow> dns_subscriber" where
  "dns_refresh perm [] s = s"
| "dns_refresh perm (a # as) s = dns_refresh perm as (dns_update perm a s)"

section \<open>The greatest common divisor\<close>

lemma unat_local_gcd: "unat (local_gcd a b) = gcd (unat a) (unat b)"
proof (induction a b rule: local_gcd.induct)
  case (1 a b)
  show ?case
  proof (cases "b > 0")
    case True
    with 1 have "unat (local_gcd b (a mod b)) = gcd (unat b) (unat a mod unat b)"
      by (simp add: unat_mod)
    also have "\<dots> = gcd (unat a) (unat b)" by (metis gcd.commute gcd_red_nat)
    finally show ?thesis using True by (simp add: local_gcd.simps [of a b])
  next
    case False
    then have "b = 0" using word_neq_0_conv by blast
    then show ?thesis by (simp add: local_gcd.simps [of a 0])
  qed
qed

lemma unat_foldl_gcd: "unat (foldl local_gcd a ws) = gcd (unat a) (Gcd (unat ` set ws))"
  by (induction ws arbitrary: a) (simp_all add: unat_local_gcd gcd.assoc)

lemma unat_gcd_weights: "unat (gcd_weights ws) = Gcd (unat ` set ws)"
  by (cases ws) (simp_all add: unat_foldl_gcd)

section \<open>Normalisation and compaction\<close>

abbreviation total_weight :: "16 word list \<Rightarrow> nat" where
  "total_weight ws \<equiv> sum_list (map unat ws)"

abbreviation scale_of :: "16 word list \<Rightarrow> nat" where
  "scale_of ws \<equiv> max 100 (length ws)"

lemma normalize_eq:
  "normalize_ws ws = (if total_weight ws \<le> scale_of ws then ws
     else map (\<lambda>w. of_nat (unat w * scale_of ws div total_weight ws)) ws)"
  by (auto simp: normalize_ws_def Let_def max_def)

lemma length_normalize [simp]: "length (normalize_ws ws) = length ws"
  by (simp add: normalize_eq)

lemma length_compact [simp]: "length (compact ws) = length ws"
  by (simp add: compact_def Let_def)

lemma mult_div_le: "(a::nat) \<le> t \<Longrightarrow> a * s div t \<le> s"
  using div_le_mono [of "a * s" "t * s" t] by (cases "t = 0") simp_all

lemma scaled_le_scale:
  assumes "w \<in> set ws"
  shows "unat w * scale_of ws div total_weight ws \<le> scale_of ws"
  using assms by (intro mult_div_le) (auto intro: member_le_sum_list)

lemma unat_scaled:
  assumes "w \<in> set ws" and "length ws < 2 ^ 16"
  shows "unat (of_nat (unat w * scale_of ws div total_weight ws) :: 16 word) =
    unat w * scale_of ws div total_weight ws"
  using scaled_le_scale [OF assms(1)] assms(2) by (simp add: unat_of_nat take_bit_nat_eq_self max_def split: if_splits)

lemma map_unat_normalize:
  assumes "length ws < 2 ^ 16"
  shows "map unat (normalize_ws ws) = (if total_weight ws \<le> scale_of ws then map unat ws
     else map (\<lambda>w. unat w * scale_of ws div total_weight ws) ws)"
  using assms by (auto simp: normalize_eq unat_scaled)

lemma sum_list_div_le: "sum_list (map (\<lambda>x. f x div t) xs) \<le> sum_list (map f xs) div (t::nat)"
proof (induction xs)
  case (Cons x xs)
  have "f x div t + sum_list (map f xs) div t \<le> (f x + sum_list (map f xs)) div t"
    by (simp add: div_add1_eq [of "f x"])
  with Cons show ?case by simp
qed simp

lemma total_normalize:
  assumes "length ws < 2 ^ 16"
  shows "total_weight (normalize_ws ws) \<le> scale_of ws"
proof (cases "total_weight ws \<le> scale_of ws")
  case True
  then show ?thesis by (simp add: normalize_eq)
next
  case False
  have "sum_list (map (\<lambda>w. unat w * scale_of ws div total_weight ws) ws) \<le>
      sum_list (map (\<lambda>w. unat w * scale_of ws) ws) div total_weight ws"
    by (rule sum_list_div_le)
  also have "\<dots> \<le> scale_of ws" using False by (simp add: sum_list_mult_const)
  finally show ?thesis using False map_unat_normalize [OF assms] by simp
qed

lemma compact_divides:
  fixes ws :: "16 word list"
  defines "g \<equiv> Gcd (unat ` set (normalize_ws ws))"
  shows "map unat (normalize_ws ws) = map (\<lambda>w. max 1 g * unat w) (compact ws)"
proof (cases "gcd_weights (normalize_ws ws) < 2")
  case True
  then have "g < 2" unfolding g_def unat_gcd_weights [symmetric] by (simp add: word_less_nat_alt)
  with True show ?thesis by (simp add: compact_def Let_def max_def)
next
  case False
  then have g: "unat (gcd_weights (normalize_ws ws)) = g" "g \<ge> 2"
    by (simp_all add: g_def unat_gcd_weights word_less_nat_alt flip: unat_gcd_weights)
  have "g dvd unat w" if "w \<in> set (normalize_ws ws)" for w
    unfolding g_def using that by (intro Gcd_dvd) simp
  with False g show ?thesis by (auto simp: compact_def Let_def unat_div max_def)
qed

lemma compact_coprime: "Gcd (unat ` set (compact ws)) \<le> 1"
proof -
  let ?g = "Gcd (unat ` set (normalize_ws ws))" and ?h = "Gcd (unat ` set (compact ws))"
  have "unat ` set (normalize_ws ws) = (\<lambda>x. max 1 ?g * x) ` unat ` set (compact ws)"
    using arg_cong [OF compact_divides [of ws], of set] by (simp add: image_image)
  then have "?g = max 1 ?g * ?h" by (metis Gcd_mult normalize_nat_def id_apply)
  then show ?thesis
  proof (cases "?g = 0")
    case True
    with \<open>?g = max 1 ?g * ?h\<close> have "?h = 0" by simp
    then show ?thesis by linarith
  next
    case False
    with \<open>?g = max 1 ?g * ?h\<close> have "?g = ?g * ?h" by (simp only: max_def split: if_splits)
    with False show ?thesis by (metis le_refl mult_eq_self_implies_10 One_nat_def)
  qed
qed

lemma total_compact_le: "total_weight (compact ws) \<le> total_weight (normalize_ws ws)"
proof -
  have "total_weight (normalize_ws ws) = max 1 (Gcd (unat ` set (normalize_ws ws))) * total_weight (compact ws)"
    by (subst compact_divides) (simp add: sum_list_const_mult)
  then show ?thesis by simp
qed

section \<open>The selected records\<close>

lemma takeWhile_sorted_filter:
  fixes f :: "'a \<Rightarrow> 'b::linorder"
  assumes "sorted_wrt (\<lambda>a b. f a \<le> f b) xs"
  shows "takeWhile (\<lambda>a. \<not> f a > m) xs = filter (\<lambda>a. f a \<le> m) xs"
  using assms
proof (induction xs)
  case (Cons x xs)
  show ?case
  proof (cases "f x \<le> m")
    case True
    with Cons show ?thesis by simp
  next
    case False
    with Cons.prems have "filter (\<lambda>a. f a \<le> m) xs = []" by (auto simp: filter_empty_conv)
    with False show ?thesis by simp
  qed
qed simp

lemma sort_priority_sorted: "sorted_wrt (\<lambda>a b. srv_Priority a \<le> srv_Priority b) (sort srvs)"
  by (rule sorted_wrt_mono_rel [OF _ sorted_sort]) (rule srv_le_priority)

lemma best_srvs_filter:
  "best_srvs srvs = filter (\<lambda>a. srv_Priority a \<le> srv_Priority (hd (sort srvs))) (sort srvs)"
  unfolding best_srvs_def Let_def by (rule takeWhile_sorted_filter [OF sort_priority_sorted])

lemma hd_sort_least:
  assumes "b \<in> set srvs"
  shows "srv_Priority (hd (sort srvs)) \<le> srv_Priority b"
proof -
  from assms have "b \<in> set (sort srvs)" by simp
  then show ?thesis using sort_priority_sorted [of srvs] by (cases "sort srvs") auto
qed

lemma set_best_srvs:
  "set (best_srvs srvs) = {a \<in> set srvs. \<forall>b \<in> set srvs. srv_Priority a \<le> srv_Priority b}"
proof -
  have "hd (sort srvs) \<in> set srvs" if "a \<in> set srvs" for a
  proof -
    from that have "sort srvs \<noteq> []" by (metis empty_iff list.set(1) set_sort)
    then have "hd (sort srvs) \<in> set (sort srvs)" by (rule hd_in_set)
    then show ?thesis by simp
  qed
  then show ?thesis
    by (auto simp: best_srvs_filter dest: hd_sort_least intro: order_trans)
qed

lemma set_replicate_blocks:
  "set (concat (map2 (\<lambda>n h. replicate (f n) (g h)) ns hs)) =
     {g (hs ! i) |i. i < length hs \<and> i < length ns \<and> f (ns ! i) \<noteq> (0::nat)}"
  by (auto simp: set_zip)

lemma length_replicate_blocks:
  assumes "length ns = length hs"
  shows "length (concat (map2 (\<lambda>n h. replicate (f n) (g h)) ns hs)) = sum_list (map f ns)"
  using assms by (induction ns hs rule: list_induct2) auto

lemma instances_of_eq:
  "instances_of scheme srvs =
     concat (map2 (\<lambda>n a. replicate (unat n) (host_of_srv scheme a))
       (compact (map srv_Weight (best_srvs srvs))) (best_srvs srvs))"
  by (simp add: instances_of_def Let_def zip_map2 comp_def case_prod_unfold)

lemma length_instances_of:
  "length (instances_of scheme srvs) = total_weight (compact (map srv_Weight (best_srvs srvs)))"
  unfolding instances_of_eq by (rule length_replicate_blocks) simp

section \<open>Properties\<close>

text \<open>C33. Weight compaction is sound: every compacted list has one weight per record, the weights sum
  up to no more than 100 (or the number of records, when there are more), the compacted weights are
  in lowest terms, and multiplied by a common factor they are the percentage shares (rounded down)
  of the total weight, or the weights themselves when these already sum up to no more than the
  bound.\<close>

theorem compact_correct:
  assumes "length ws < 2 ^ 16"
  shows "length (compact ws) = length ws \<and>
    sum_list (map unat (compact ws)) \<le> max 100 (length ws) \<and>
    Gcd (unat ` set (compact ws)) \<le> 1 \<and>
    (\<exists>d > 0. map (\<lambda>w. d * unat w) (compact ws) =
       (let total = sum_list (map unat ws); scale = max 100 (length ws)
        in if total \<le> scale then map unat ws else map (\<lambda>w. unat w * scale div total) ws))"
proof -
  let ?d = "max 1 (Gcd (unat ` set (normalize_ws ws)))"
  have "map (\<lambda>w. ?d * unat w) (compact ws) = map unat (normalize_ws ws)"
    by (rule compact_divides [symmetric])
  with map_unat_normalize [OF assms]
  have "\<exists>d > 0. map (\<lambda>w. d * unat w) (compact ws) =
       (let total = sum_list (map unat ws); scale = max 100 (length ws)
        in if total \<le> scale then map unat ws else map (\<lambda>w. unat w * scale div total) ws)"
    by (intro exI [of _ ?d]) (simp add: Let_def)
  with total_compact_le [of ws] total_normalize [OF assms] compact_coprime [of ws]
  show ?thesis by simp
qed

theorem compact_correct_witness:
  "compact [200, 600] = [1, 3] \<and> length (compact [200, 600]) = length [200, 600 :: 16 word] \<and>
   sum_list (map unat (compact [200, 600])) \<le> max 100 (length [200, 600 :: 16 word])"
proof -
  have "compact [200, 600] = [1, 3]"
    by (simp add: compact_def normalize_ws_def local_gcd.simps)
  with compact_correct [of "[200, 600]"] show ?thesis by simp
qed

text \<open>C32. Resolution is deterministic and prefers the best priority: the host list does not depend on
  the order in which the lookup returned the records, every host in it comes from a record of the
  smallest priority, and its length is at most 100 or the number of selected records.\<close>

theorem resolve_correct:
  assumes "length srvs < 2 ^ 16" and "mset srvs' = mset srvs"
  shows "resolve scheme (Inr srvs') = resolve scheme (Inr srvs) \<and>
    (case resolve scheme (Inr srvs) of
       Inl e \<Rightarrow> False
     | Inr hs \<Rightarrow>
         set hs \<subseteq> host_of_srv scheme ` {a \<in> set srvs. \<forall>b \<in> set srvs. srv_Priority a \<le> srv_Priority b} \<and>
         length hs \<le> max 100 (length srvs))"
proof -
  have "sort srvs' = sort srvs"
    using assms(2) by (metis mset_sort properties_for_sort sorted_sort)
  then have r': "resolve scheme (Inr srvs') = Inr (instances_of scheme srvs)"
    by (simp add: resolve_def instances_of_def best_srvs_def)
  have r: "resolve scheme (Inr srvs) = Inr (instances_of scheme srvs)" by (simp add: resolve_def)
  have hosts: "set (instances_of scheme srvs) \<subseteq> host_of_srv scheme ` set (best_srvs srvs)"
    unfolding instances_of_eq set_replicate_blocks by (auto intro: imageI)
  have len: "length (instances_of scheme srvs) \<le> max 100 (length srvs)"
  proof -
    have le: "length (best_srvs srvs) \<le> length srvs"
      by (metis best_srvs_filter length_filter_le length_sort)
    then have "length (map srv_Weight (best_srvs srvs)) < 2 ^ 16" using assms(1) by simp
    then have "total_weight (compact (map srv_Weight (best_srvs srvs))) \<le> max 100 (length (best_srvs srvs))"
      using order_trans [OF total_compact_le total_normalize, of "map srv_Weight (best_srvs srvs)"] by (simp only: length_map)
    with le have "total_weight (compact (map srv_Weight (best_srvs srvs))) \<le> max 100 (length srvs)"
      by linarith
    then show ?thesis by (simp only: length_instances_of)
  qed
  show ?thesis
    unfolding r r' sum.case set_best_srvs [symmetric] using hosts len by iprover
qed

theorem resolve_correct_witness:
  "resolve ''http'' (Inr [SRV ''b'' 80 1 0, SRV ''a'' 443 0 2, SRV ''c'' 81 0 1]) =
     Inr [''http://a:443'', ''http://a:443'', ''http://c:81''] \<and>
   resolve ''http'' (Inr [SRV ''c'' 81 0 1, SRV ''a'' 443 0 2, SRV ''b'' 80 1 0]) =
     Inr [''http://a:443'', ''http://a:443'', ''http://c:81'']"
proof -
  let ?l = "[SRV ''b'' 80 1 0, SRV ''a'' 443 0 2, SRV ''c'' 81 0 1]"
  let ?l' = "[SRV ''c'' 81 0 1, SRV ''a'' 443 0 2, SRV ''b'' 80 1 0]"
  have "resolve ''http'' (Inr ?l) = Inr [''http://a:443'', ''http://a:443'', ''http://c:81'']"
    by code_simp
  with resolve_correct [of ?l ?l' "''http''"] show ?thesis by (simp add: add_mset_commute)
qed

text \<open>Which records survive: when the weights of the records of the best priority do not exceed
  100, a record is used exactly when its weight is not zero. In particular the records that carry
  weight 0, the value that RFC 2782 asks for where there is no server selection to do, are all
  dropped: when every weight is 0 the lookup succeeds and the host list is empty.\<close>

theorem resolve_weights:
  assumes "sum_list (map unat (map srv_Weight (best_srvs srvs))) \<le> 100"
  shows "(case resolve scheme (Inr srvs) of
       Inl e \<Rightarrow> False
     | Inr hs \<Rightarrow>
         set hs = host_of_srv scheme ` {a \<in> set (best_srvs srvs). srv_Weight a \<noteq> 0})"
proof -
  let ?ws = "map srv_Weight (best_srvs srvs)"
  have "total_weight ?ws \<le> scale_of ?ws" using assms by linarith
  then have n: "normalize_ws ?ws = ?ws" by (simp only: normalize_eq if_True)
  have pos: "unat (compact ?ws ! i) \<noteq> 0 \<longleftrightarrow> srv_Weight (best_srvs srvs ! i) \<noteq> 0"
    if "i < length (best_srvs srvs)" for i
  proof -
    have "map unat ?ws ! i = map (\<lambda>w. max 1 (Gcd (unat ` set ?ws)) * unat w) (compact ?ws) ! i"
      using compact_divides [of ?ws] unfolding n by (rule arg_cong)
    with that have "unat (srv_Weight (best_srvs srvs ! i)) = max 1 (Gcd (unat ` set ?ws)) * unat (compact ?ws ! i)"
      by simp
    then show ?thesis by (metis mult_is_0 max_0_1(1) unat_eq_zero max.cobounded1 not_one_le_zero)
  qed
  have "set (instances_of scheme srvs) =
      {host_of_srv scheme (best_srvs srvs ! i) |i.
        i < length (best_srvs srvs) \<and> unat (compact ?ws ! i) \<noteq> 0}"
    unfolding instances_of_eq set_replicate_blocks by simp
  also have "\<dots> = host_of_srv scheme ` {a \<in> set (best_srvs srvs). srv_Weight a \<noteq> 0}"
    using pos by (fastforce simp: in_set_conv_nth)
  finally show ?thesis by (simp add: resolve_def)
qed

theorem resolve_weights_witness:
  "resolve ''http'' (Inr [SRV ''a'' 80 0 0, SRV ''b'' 80 0 0]) = Inr []"
proof -
  have s: "best_srvs [SRV ''a'' 80 0 0, SRV ''b'' 80 0 0] = [SRV ''a'' 80 0 0, SRV ''b'' 80 0 0]"
    by (simp add: best_srvs_def less_eq_srv_def srv_before_def)
  have "resolve ''http'' (Inr [SRV ''a'' 80 0 0, SRV ''b'' 80 0 0]) =
      Inr (instances_of ''http'' [SRV ''a'' 80 0 0, SRV ''b'' 80 0 0])"
    by (simp add: resolve_def)
  moreover from resolve_weights [of "[SRV ''a'' 80 0 0, SRV ''b'' 80 0 0]" "''http''"] calculation
  have "set (instances_of ''http'' [SRV ''a'' 80 0 0, SRV ''b'' 80 0 0]) = {}" by (auto simp: s)
  ultimately show ?thesis by simp
qed

text \<open>C34. The subscriber's cache: a failed lookup never changes it, whatever the number of failures in
  a row, a successful one replaces it by the resolved hosts up to their order, and reading the
  hosts never fails.\<close>

theorem dns_refresh_correct:
  assumes "\<And>n. mset (perm n) = mset [0..<n]"
    and "\<forall>a \<in> set failures. \<exists>e. a = Inl e"
  shows "dns_hosts (dns_refresh perm (before @ failures) s) = dns_hosts (dns_refresh perm before s) \<and>
    mset (ds_cache (dns_refresh perm (before @ Inr srvs # failures) s)) =
      mset (instances_of (ds_scheme s) srvs)"
proof -
  have app: "dns_refresh perm (as @ bs) s = dns_refresh perm bs (dns_refresh perm as s)" for as bs s
    by (induction as arbitrary: s) simp_all
  have scheme: "ds_scheme (dns_refresh perm as s) = ds_scheme s" for as s
    by (induction as arbitrary: s) (simp_all add: dns_update_def split: sum.split)
  have fails: "dns_refresh perm failures s = s" for s
    using assms(2) by (induction failures arbitrary: s) (auto simp: dns_update_def resolve_def)
  have "mset (ds_cache (dns_update perm (Inr srvs) s')) = mset (instances_of (ds_scheme s') srvs)" for s'
    by (simp add: dns_update_def resolve_def random_fixed_subscriber_mset assms(1) del: mset_upt)
  then show ?thesis by (simp add: app fails scheme)
qed

theorem dns_refresh_correct_witness:
  "ds_cache (dns_refresh (\<lambda>n. [0..<n]) [Inr [SRV ''a'' 80 0 1], Inl ErrNoHosts]
     (new_detailed (\<lambda>n. [0..<n]) ''svc'' (Inl ErrNoHosts) DefaultTTL)) = [''http://a:80'']"
proof -
  let ?s = "new_detailed (\<lambda>n. [0..<n]) ''svc'' (Inl ErrNoHosts) DefaultTTL"
  have "mset (ds_cache (dns_refresh (\<lambda>n. [0..<n]) ([] @ Inr [SRV ''a'' 80 0 1] # [Inl ErrNoHosts]) ?s)) =
      mset (instances_of (ds_scheme ?s) [SRV ''a'' 80 0 1])"
    using dns_refresh_correct [of "\<lambda>n. [0..<n]" "[Inl ErrNoHosts]" "[]" ?s "[SRV ''a'' 80 0 1]"] by simp
  moreover have "ds_scheme ?s = ''http''"
    by (simp add: new_detailed_def new_detailed_with_scheme_def dns_update_def resolve_def)
  moreover have "instances_of ''http'' [SRV ''a'' 80 0 1] = [''http://a:80'']"
    by code_simp
  ultimately show ?thesis by simp
qed

end
