(* ===== verification/Assembly.thy ===== *)
theory Assembly
  imports Factory SequentialMerge Dnssrv ConfigInit ResponseWriter
begin

text \<open>
  How the components are put together: the package variables and constructors that fill in the
  parameters of the other theories. The tables of mergers and of backend filterers
  (\<open>src/proxy/merging.go\<close>), the balancers behind the load-balancing middleware
  (\<open>src/proxy/balancing.go\<close>), the default factories (\<open>src/proxy/factory.go\<close>, \<open>src/proxy/http.go\<close>,
  \<open>src/transport/http/client/executor.go\<close>), the shadow middlewares (\<open>src/proxy/shadow.go\<close>), the DNS
  subscriber (\<open>src/sd/dnssrv/subscriber.go\<close>) and the requests of the GraphQL extractor
  (\<open>src/transport/http/client/graphql/graphql.go\<close>).
\<close>

section \<open>Mergers, filterers and combiners\<close>

text \<open>A merger is what \<open>SequentialMerge\<close> or \<open>ParallelMerge\<close> runs; \<open>None\<close> is the panic of the
  configuration of the sequential one.\<close>

datatype merger_kind = SequentialMerger "replacement list list" | ParallelMerger

definition mergers :: "(endpoint_config \<Rightarrow> merger_kind option) gomap" where
  "mergers =
     [(isSequentialKey, \<lambda>ec. map_option SequentialMerger (sequential_merger_config ec)),
      (parallelMerger, \<lambda>ec. Some ParallelMerger)]"

type_synonym backend_filterer_factory = "endpoint_config \<Rightarrow> goerror + (request \<Rightarrow> bool) option list"

record backend_filterer_registry =
  bfr_logPrefix :: string
  bfr_filtererFactory :: backend_filterer_factory

definition default_backend_filterer_factory :: backend_filterer_factory where
  "default_backend_filterer_factory ec = Inr []"

definition initial_backend_filterers :: backend_filterer_registry where
  "initial_backend_filterers = \<lparr>bfr_logPrefix = [], bfr_filtererFactory = default_backend_filterer_factory\<rparr>"

definition register_backend_filterer_factory ::
  "string \<Rightarrow> backend_filterer_factory \<Rightarrow> backend_filterer_registry \<Rightarrow> backend_filterer_registry" where
  "register_backend_filterer_factory logPrefix f r = r\<lparr>bfr_logPrefix := logPrefix, bfr_filtererFactory := f\<rparr>"

definition reset_backend_filterer_factory :: "backend_filterer_registry \<Rightarrow> backend_filterer_registry" where
  "reset_backend_filterer_factory r =
     r\<lparr>bfr_logPrefix := [], bfr_filtererFactory := default_backend_filterer_factory\<rparr>"

definition register_response_combiner :: "string \<Rightarrow> 'f \<Rightarrow> 'f combiner_register \<Rightarrow> 'f combiner_register" where
  "register_response_combiner name f responseCombiners = set_response_combiner name f responseCombiners"

section \<open>Load balancing\<close>

record balancing_env =
  be_procs :: nat
  be_rnd :: "nat \<Rightarrow> nat"
  be_parse :: "string \<Rightarrow> goerror + url"

text \<open>The middleware over a balancer, and the state the balancer starts in.\<close>

type_synonym 'w balanced = "'w pipe list \<Rightarrow> ('w balancer \<times> ('w balancer \<times> 'w) pipe) built"

definition over_balancer :: "balancing_env \<Rightarrow> 'w balancer \<Rightarrow> 'w balanced" where
  "over_balancer env lb next =
     bind_built (new_load_balanced_middleware (below (be_rnd env)) (be_parse env) next) (\<lambda>p. Built (lb, p))"

definition new_load_balanced_middleware_with_subscriber_and_logger ::
  "balancing_env \<Rightarrow> 'w subscriber \<Rightarrow> 'w balanced" where
  "new_load_balanced_middleware_with_subscriber_and_logger env subscriber =
     over_balancer env (new_balancer (be_procs env) (be_rnd env) subscriber)"

definition new_round_robin_load_balanced_middleware_with_subscriber_and_logger ::
  "balancing_env \<Rightarrow> 'w subscriber \<Rightarrow> 'w balanced" where
  "new_round_robin_load_balanced_middleware_with_subscriber_and_logger env subscriber =
     over_balancer env (new_round_robin_lb (be_rnd env) subscriber)"

definition new_random_load_balanced_middleware_with_subscriber_and_logger ::
  "balancing_env \<Rightarrow> 'w subscriber \<Rightarrow> 'w balanced" where
  "new_random_load_balanced_middleware_with_subscriber_and_logger env subscriber =
     over_balancer env (new_random_lb subscriber)"

definition new_load_balanced_middleware_with_subscriber :: "balancing_env \<Rightarrow> 'w subscriber \<Rightarrow> 'w balanced" where
  "new_load_balanced_middleware_with_subscriber env subscriber =
     over_balancer env (new_balancer (be_procs env) (be_rnd env) subscriber)"

definition new_round_robin_load_balanced_middleware_with_subscriber ::
  "balancing_env \<Rightarrow> 'w subscriber \<Rightarrow> 'w balanced" where
  "new_round_robin_load_balanced_middleware_with_subscriber env subscriber =
     over_balancer env (new_round_robin_lb (be_rnd env) subscriber)"

definition new_random_load_balanced_middleware_with_subscriber ::
  "balancing_env \<Rightarrow> 'w subscriber \<Rightarrow> 'w balanced" where
  "new_random_load_balanced_middleware_with_subscriber env subscriber =
     over_balancer env (new_random_lb subscriber)"

text \<open>The register of subscriber factories, \<open>sd.GetRegister()\<close>: an unknown name is a fixed list.\<close>

type_synonym 'w subscriber_register = "(backend \<Rightarrow> 'w subscriber) option untyped"

definition registered_subscriber :: "'w subscriber_register \<Rightarrow> backend \<Rightarrow> 'w subscriber" where
  "registered_subscriber reg remote = sd_register_get fixed_subscriber_factory reg (b_SD remote) remote"

definition new_load_balanced_middleware_for :: "balancing_env \<Rightarrow> 'w subscriber_register \<Rightarrow> backend \<Rightarrow> 'w balanced" where
  "new_load_balanced_middleware_for env reg remote =
     new_load_balanced_middleware_with_subscriber env (registered_subscriber reg remote)"

definition new_round_robin_load_balanced_middleware ::
  "balancing_env \<Rightarrow> 'w subscriber_register \<Rightarrow> backend \<Rightarrow> 'w balanced" where
  "new_round_robin_load_balanced_middleware env reg remote =
     new_round_robin_load_balanced_middleware_with_subscriber env (registered_subscriber reg remote)"

definition new_random_load_balanced_middleware ::
  "balancing_env \<Rightarrow> 'w subscriber_register \<Rightarrow> backend \<Rightarrow> 'w balanced" where
  "new_random_load_balanced_middleware env reg remote =
     new_random_load_balanced_middleware_with_subscriber env (registered_subscriber reg remote)"

definition new_load_balanced_middleware_with_logger ::
  "balancing_env \<Rightarrow> 'w subscriber_register \<Rightarrow> backend \<Rightarrow> 'w balanced" where
  "new_load_balanced_middleware_with_logger env reg remote =
     new_load_balanced_middleware_with_subscriber_and_logger env (registered_subscriber reg remote)"

definition new_round_robin_load_balanced_middleware_with_logger ::
  "balancing_env \<Rightarrow> 'w subscriber_register \<Rightarrow> backend \<Rightarrow> 'w balanced" where
  "new_round_robin_load_balanced_middleware_with_logger env reg remote =
     new_round_robin_load_balanced_middleware_with_subscriber_and_logger env (registered_subscriber reg remote)"

definition new_random_load_balanced_middleware_with_logger ::
  "balancing_env \<Rightarrow> 'w subscriber_register \<Rightarrow> backend \<Rightarrow> 'w balanced" where
  "new_random_load_balanced_middleware_with_logger env reg remote =
     new_random_load_balanced_middleware_with_subscriber_and_logger env (registered_subscriber reg remote)"

section \<open>Factories\<close>

text \<open>\<open>do\<close> is \<open>Do\<close> of a client, which a factory makes for a context.\<close>

definition default_http_request_executor :: "('ctx \<Rightarrow> 'w executor) \<Rightarrow> 'ctx \<Rightarrow> 'w executor" where
  "default_http_request_executor client_do ctx w req = client_do ctx w req"

definition new_http_client :: "'w executor \<Rightarrow> 'ctx \<Rightarrow> 'w executor" where
  "new_http_client defaultHTTPClient_do ctx = defaultHTTPClient_do"

record 'w default_factory =
  df_backendFactory :: "backend \<Rightarrow> 'w pipe"
  df_subscriberFactory :: "backend \<Rightarrow> 'w subscriber"

definition new_default_factory_with_subscriber ::
  "(backend \<Rightarrow> 'w pipe) \<Rightarrow> (backend \<Rightarrow> 'w subscriber) \<Rightarrow> 'w default_factory" where
  "new_default_factory_with_subscriber backendFactory sF =
     \<lparr>df_backendFactory = backendFactory, df_subscriberFactory = sF\<rparr>"

definition new_default_factory :: "'w subscriber_register \<Rightarrow> (backend \<Rightarrow> 'w pipe) \<Rightarrow> 'w default_factory" where
  "new_default_factory reg backendFactory =
     (let sf = (\<lambda>remote. registered_subscriber reg remote)
      in new_default_factory_with_subscriber backendFactory sf)"

definition default_factory_with_subscriber ::
  "(backend \<Rightarrow> 'w pipe) \<Rightarrow> (backend \<Rightarrow> 'w subscriber) \<Rightarrow> 'w default_factory" where
  "default_factory_with_subscriber httpProxy sF = new_default_factory_with_subscriber httpProxy sF"

definition default_factory :: "(backend \<Rightarrow> 'w pipe) \<Rightarrow> 'w subscriber_register \<Rightarrow> 'w default_factory" where
  "default_factory httpProxy reg = new_default_factory reg httpProxy"

definition factory_new where
  "factory_new env race merge T f cfg =
     default_factory_new env race merge T (df_backendFactory f) (df_subscriberFactory f) cfg"

section \<open>Shadow middlewares\<close>

text \<open>The context of a shadow request: a deadline of its own, the values of the request's context, and
  not its cancellation.\<close>

record 'd context_wrapper =
  cw_Timeout :: duration
  cw_data :: 'd

definition new_context_wrapper_with_timeout :: "'d \<Rightarrow> duration \<Rightarrow> 'd context_wrapper" where
  "new_context_wrapper_with_timeout data timeout = \<lparr>cw_Timeout = timeout, cw_data = data\<rparr>"

definition context_wrapper_value :: "('d \<Rightarrow> 'k \<Rightarrow> 'v option) \<Rightarrow> 'd context_wrapper \<Rightarrow> 'k \<Rightarrow> 'v option" where
  "context_wrapper_value value_of c key = value_of (cw_data c) key"

definition shadow_middleware_with_logger :: "'p option list \<Rightarrow> 'p shadowed built" where
  "shadow_middleware_with_logger next =
     (case next of
        [p] \<Rightarrow> Built (Regular p)
      | [p1, p2] \<Rightarrow> Built (Shadowed DefaultTimeout p1 p2)
      | _ \<Rightarrow> BFatal)"

definition shadow_middleware :: "'p option list \<Rightarrow> 'p shadowed built" where
  "shadow_middleware next = shadow_middleware_with_logger next"

definition shadow_middleware_with_timeout_noop :: "duration \<Rightarrow> 'p option list \<Rightarrow> 'p shadowed built" where
  "shadow_middleware_with_timeout_noop timeout next = shadow_middleware_with_timeout timeout next"

definition new_shadow_proxy ::
  "(url \<Rightarrow> url option) \<Rightarrow> 'w pipe \<Rightarrow> 'p \<Rightarrow> ('w \<times> ('p \<times> request \<times> duration) list) pipe" where
  "new_shadow_proxy reparse p1 p2 = new_shadow_proxy_with_timeout reparse DefaultTimeout p1 p2"

section \<open>GraphQL requests\<close>

definition query_from_body ::
  "(string \<Rightarrow> goerror + gobj option) \<Rightarrow> (gobj \<Rightarrow> string) \<Rightarrow> extractor \<Rightarrow> reader \<Rightarrow>
   (goerror + string list gomap) option" where
  "query_from_body unmarshal marshal_vars e r =
     map_option (\<lambda>x. case x of Inl err \<Rightarrow> Inl err | Inr gr \<Rightarrow> Inr (query_values marshal_vars gr))
       (from_body unmarshal e r)"

definition body_from_body ::
  "(string \<Rightarrow> goerror + gobj option) \<Rightarrow> (graphql_request \<Rightarrow> string) \<Rightarrow> extractor \<Rightarrow> reader \<Rightarrow>
   (goerror + string) option" where
  "body_from_body unmarshal marshal e r =
     map_option (\<lambda>x. case x of Inl err \<Rightarrow> Inl err | Inr gr \<Rightarrow> Inr (marshal gr)) (from_body unmarshal e r)"

definition query_from_params ::
  "(gobj \<Rightarrow> string) \<Rightarrow> extractor \<Rightarrow> string gomap \<Rightarrow> string list gomap" where
  "query_from_params marshal_vars e params = query_values marshal_vars (param_extractor e params)"

definition body_from_params :: "(graphql_request \<Rightarrow> string) \<Rightarrow> extractor \<Rightarrow> string gomap \<Rightarrow> string" where
  "body_from_params marshal e params = marshal (param_extractor e params)"

section \<open>Subscribers and the hash of a configuration\<close>

definition dns_new :: "(nat \<Rightarrow> nat list) \<Rightarrow> (string \<Rightarrow> goerror + srv list) \<Rightarrow> duration \<Rightarrow> string \<Rightarrow> dns_subscriber" where
  "dns_new perm defaultLookup TTL name = new_detailed perm name (defaultLookup name) TTL"

definition dns_Namespace :: string where "dns_Namespace = ''dns''"

definition dns_register :: "(backend \<Rightarrow> 'w subscriber) \<Rightarrow> 'w subscriber_register \<Rightarrow> 'w subscriber_register" where
  "dns_register subscriberFactory reg = sd_register_put dns_Namespace subscriberFactory reg"

text \<open>\<open>Hash\<close>; \<open>digest\<close> is SHA-256 in base 64. The name is put back when it returns.\<close>

definition service_hash ::
  "(service_config \<Rightarrow> goerror + string) \<Rightarrow> (string \<Rightarrow> string) \<Rightarrow> service_config \<Rightarrow> (goerror + string) \<times> service_config" where
  "service_hash marshal digest s =
     (let name = s_Name s; s = s\<lparr>s_Name := []\<rparr>
      in (case marshal s of Inl err \<Rightarrow> Inl err | Inr b \<Rightarrow> Inr (digest b), s\<lparr>s_Name := name\<rparr>))"

section \<open>What the assembled parts do\<close>

lemma hash_ignores_name:
  "fst (service_hash marshal digest (s\<lparr>s_Name := n\<rparr>)) = fst (service_hash marshal digest s)"
  "snd (service_hash marshal digest s) = s"
  by (simp_all add: service_hash_def Let_def)

text \<open>A subscriber factory is found under its name once it is registered; every other name keeps the
  hosts of the configuration unless it is registered too.\<close>

lemma dns_is_registered:
  "registered_subscriber (dns_register sf reg) remote =
     (if b_SD remote = ''dns'' then sf remote else registered_subscriber reg remote)"
  by (simp add: registered_subscriber_def dns_register_def dns_Namespace_def sd_register_get_put)

lemma unregistered_is_fixed:
  "untyped_get reg (b_SD remote) = None \<Longrightarrow> registered_subscriber reg remote = Fixed (b_Host remote)"
  by (simp add: registered_subscriber_def sd_register_get_def fixed_subscriber_factory_def)

text \<open>The middleware the factory uses for a backend is that of the constructors.\<close>

lemma balanced_single:
  "over_balancer env lb [p] =
     Built (lb, load_balanced_call (balancer_host (below (be_rnd env))) (be_parse env) p)"
  by (simp add: over_balancer_def new_load_balanced_middleware_def)

text \<open>The merger of an endpoint with several backends, with the package's tables as they are at the start:
  every backend is called, the default combiner joins the responses, for 85 percent of the endpoint's
  time; the merger is sequential exactly when the proxy section says so, by its strategy or, without
  one, by the flag. It can only panic on a combiner that is no string.\<close>

definition wants_sequential :: "extra_config \<Rightarrow> bool" where
  "wants_sequential extra \<longleftrightarrow>
     vget (VMap extra) [proxy_Namespace, typeKey] = Some (VString isSequentialKey) \<or>
     vget (VMap extra) [proxy_Namespace, typeKey] = None \<and>
     vget (VMap extra) [proxy_Namespace, isSequentialKey] = Some (VBool True)"

lemma merger_choice:
  "get_merger_factory mergers extra =
     (if wants_sequential extra
      then (Some (\<lambda>ec. map_option SequentialMerger (sequential_merger_config ec)), isSequentialKey)
      else (Some (\<lambda>ec. Some ParallelMerger), parallelMerger))"
  by (auto simp: get_merger_factory_def wants_sequential_def proxy_section_def mergers_def isSequentialKey_def
      parallelMerger_def typeKey_def Let_def split: option.splits gval.splits)

lemma default_merge_setup:
  assumes "2 \<le> length (e_Backend cfg)" and "length next = length (e_Backend cfg)"
  shows "new_merge_data_middleware mergers (init_response_combiners f)
      (bfr_filtererFactory (reset_backend_filterer_factory r)) cfg next =
    (if get_response_combiner_name (init_response_combiners f) (e_ExtraConfig cfg) = None then Panics
     else Merger
       \<lparr>ms_merger = (if wants_sequential (e_ExtraConfig cfg)
                      then (\<lambda>ec. map_option SequentialMerger (sequential_merger_config ec))
                      else (\<lambda>ec. Some ParallelMerger)),
        ms_timeout = int_quot (85 * e_Timeout cfg) 100, ms_combiner = f, ms_clone = clone_mode_of cfg,
        ms_filters = []\<rparr> next)"
  using assms combiner_of_init [of f "e_ExtraConfig cfg"]
  by (auto simp: new_merge_data_middleware_def merger_choice get_response_combiner_for_def service_timeout_def
      reset_backend_filterer_factory_def default_backend_filterer_factory_def init_response_combiners_def
      get_new_combiner_register split: option.split)

end
