(* ===== verification/Lifetimes.thy ===== *)
theory Lifetimes
  imports GinEngine
begin

text \<open>
  What outlives a call: the goroutine that closes the body of a backend's response when the request is
  over (\<open>src/proxy/proxy.go\<close>), and the goroutine that notes the pings of the agents for the health endpoint
  (\<open>src/router/gin/engine.go\<close>).
\<close>

section \<open>The body of a no-op response\<close>

text \<open>\<open>readCloserWrapper\<close>: the handler reads the body while \<open>closeOnCancel\<close> waits for the context. A
  step is a read of some bytes, the read that finds the end (\<open>rd_err\<close>, \<open>None\<close> for \<open>io.EOF\<close>), the end of
  the context, the closing, or a read of the closed body, which gives \<open>closed\<close>.\<close>

record body_state =
  bs_unread :: string
  bs_read :: string
  bs_ended :: "goerror option option"   \<comment> \<open>the error a read ended with: \<open>Some None\<close> is \<open>io.EOF\<close>\<close>
  bs_done :: bool                       \<comment> \<open>\<open>ctx.Done()\<close>\<close>
  bs_closed :: bool                     \<comment> \<open>the goroutine has closed the body and is over\<close>

definition new_read_closer_wrapper :: "reader \<Rightarrow> body_state" where
  "new_read_closer_wrapper body =
     \<lparr>bs_unread = rd_content body, bs_read = [], bs_ended = None, bs_done = False, bs_closed = False\<rparr>"

inductive body_step :: "goerror option \<Rightarrow> goerror \<Rightarrow> body_state \<Rightarrow> body_state \<Rightarrow> bool"
  for err :: "goerror option" and closed :: goerror where
  bytes:
    "\<not> bs_closed s \<Longrightarrow> bs_unread s = xs @ ys \<Longrightarrow> xs \<noteq> [] \<Longrightarrow>
     body_step err closed s (s\<lparr>bs_unread := ys, bs_read := bs_read s @ xs\<rparr>)"
| ends:
    "\<not> bs_closed s \<Longrightarrow> bs_unread s = [] \<Longrightarrow> body_step err closed s (s\<lparr>bs_ended := Some err\<rparr>)"
| cancel:
    "body_step err closed s (s\<lparr>bs_done := True\<rparr>)"
| closes:
    "bs_done s \<Longrightarrow> \<not> bs_closed s \<Longrightarrow> body_step err closed s (s\<lparr>bs_closed := True\<rparr>)"
| refused:
    "bs_closed s \<Longrightarrow> body_step err closed s (s\<lparr>bs_ended := Some (Some closed)\<rparr>)"

inductive body_reach :: "reader \<Rightarrow> goerror \<Rightarrow> body_state \<Rightarrow> bool" for body :: reader and closed :: goerror where
  start: "body_reach body closed (new_read_closer_wrapper body)"
| step: "body_reach body closed s \<Longrightarrow> body_step (rd_err body) closed s s' \<Longrightarrow> body_reach body closed s'"

lemma body_invariant:
  assumes "body_reach body closed s"
  shows "rd_content body = bs_read s @ bs_unread s \<and> (bs_closed s \<longrightarrow> bs_done s) \<and>
    (bs_ended s = Some None \<longrightarrow> bs_unread s = [] \<and> rd_err body = None)"
  using assms
proof (induction rule: body_reach.induct)
  case start
  show ?case by (simp add: new_read_closer_wrapper_def)
next
  case (step s s')
  from step(2) show ?case by (cases rule: body_step.cases) (use step(3) in auto)
qed

text \<open>Who reads the body of a no-op response gets a part of what the backend sent, from its start. If the
  reads end with \<open>io.EOF\<close>, that part is all of it: closing the body early is seen as an error, never as
  a shorter body. The body is closed only when the context is done, and while it is not, the goroutine
  stays.\<close>

lemma body_not_cut_short:
  assumes "body_reach body closed s"
  shows "(\<exists>rest. rd_content body = bs_read s @ rest) \<and>
    (bs_ended s = Some None \<longrightarrow> bs_read s = rd_content body \<and> rd_err body = None) \<and>
    (\<not> bs_done s \<longrightarrow> \<not> bs_closed s)"
  using body_invariant [OF assms] by auto

section \<open>The health endpoint of the gin router\<close>

text \<open>The agents send their names, the goroutine receives them and notes the time, requests are answered.
  The mutex makes noting and answering one step each.\<close>

datatype health_event = Ping string | Noted string string | Asked "gin_call list"

record health_state =
  hs_pings :: "string list"             \<comment> \<open>sent and not received\<close>
  hs_reports :: "string gomap"

inductive health_step :: "health_state \<Rightarrow> health_event \<Rightarrow> health_state \<Rightarrow> bool" where
  ping: "health_step s (Ping name) (s\<lparr>hs_pings := hs_pings s @ [name]\<rparr>)"
| noted:
    "hs_pings s = name # rest \<Longrightarrow>
     health_step s (Noted name now) (s\<lparr>hs_pings := rest, hs_reports := note_report now name (hs_reports s)\<rparr>)"
| asked:
    "health_endpoint (hs_reports s) now c ([], ()) = Some (t, u) \<Longrightarrow> health_step s (Asked t) s"

inductive health_run :: "health_event list \<Rightarrow> health_state \<Rightarrow> bool" where
  start: "health_run [] \<lparr>hs_pings = [], hs_reports = []\<rparr>"
| step: "health_run es s \<Longrightarrow> health_step s e s' \<Longrightarrow> health_run (es @ [e]) s'"

fun pinged :: "health_event list \<Rightarrow> string list" where
  "pinged [] = []"
| "pinged (Ping n # es) = n # pinged es"
| "pinged (_ # es) = pinged es"

fun noted_times :: "health_event list \<Rightarrow> (string \<times> string) list" where
  "noted_times [] = []"
| "noted_times (Noted n t # es) = (n, t) # noted_times es"
| "noted_times (_ # es) = noted_times es"

lemma events_append [simp]:
  "pinged (es @ fs) = pinged es @ pinged fs" "noted_times (es @ fs) = noted_times es @ noted_times fs"
  by (induction es rule: pinged.induct) (induction es rule: noted_times.induct, simp_all)+

text \<open>No ping is lost or noted twice, they are noted in the order they were sent, and the report of an
  agent is the time its last ping was noted.\<close>

lemma health_reports:
  assumes "health_run es s"
  shows "pinged es = map fst (noted_times es) @ hs_pings s \<and>
    map_of (hs_reports s) = map_of (rev (noted_times es)) \<and> gomap_ok (hs_reports s)"
  using assms
proof (induction rule: health_run.induct)
  case (step es s e s')
  from step(2) show ?case
    by (cases rule: health_step.cases) (use step(3) in \<open>auto simp: note_report_def gomap_simps\<close>)
qed simp

text \<open>An answer lists the agents that were noted before it, with those times.\<close>

lemma health_answer:
  assumes "health_run es s" and "health_step s (Asked t) s'"
  shows "s' = s \<and> (\<exists>now. t = [GJSON 200 (VMap [(''status'', VString ''ok''),
    (''agents'', VMap (map (\<lambda>(k, v). (k, VString v)) (hs_reports s))), (''now'', VString now)])])"
  using assms(2) by (cases rule: health_step.cases) (auto simp: health_endpoint_def)

end
