(* ===== verification/DebugLog.thy ===== *)
theory DebugLog
  imports HttpProxy
begin

text \<open>
  The debug logs that the construction of the static middleware (\<open>src/proxy/static.go\<close>) and of the status
  handlers (\<open>src/transport/http/client/status.go\<close>) write to files, beside their result: what they do to
  the file system, as a list of effects. The working directory, \<open>os.Stat\<close>, \<open>os.OpenFile\<close>, the clock and
  \<open>json.Marshal\<close> are the environment. Paths are clean, as \<open>os.Getwd\<close> gives them.
\<close>

record debug_env =
  de_getwd :: "goerror + string"
  de_is_dir :: "string \<Rightarrow> bool"
  de_opens :: "string \<Rightarrow> bool"          \<comment> \<open>whether the file can be opened for appending\<close>
  de_marshal :: "gval \<Rightarrow> goerror + string"
  de_now :: int                         \<comment> \<open>\<open>time.Now().UnixMilli()\<close>\<close>

datatype fs_effect = MkdirAll string | Append string string

section \<open>Where the log is\<close>

text \<open>\<open>filepath.Dir\<close> and \<open>filepath.Join\<close> of clean paths.\<close>

definition filepath_dir :: "string \<Rightarrow> string" where
  "filepath_dir p =
     (let d = rev (dropWhile (\<lambda>c. c \<noteq> CHR ''/'') (rev p))
      in if d = [] then ''.'' else if d = ''/'' then d else butlast d)"

definition filepath_join :: "string \<Rightarrow> string \<Rightarrow> string" where
  "filepath_join d f = (if d = ''/'' then d @ f else if d = ''.'' then f else d @ ''/'' @ f)"

lemma length_filepath_dir: "filepath_dir p = ''.'' \<or> filepath_dir p = p \<or> length (filepath_dir p) < length p"
proof -
  define d where "d = rev (dropWhile (\<lambda>c. c \<noteq> CHR ''/'') (rev p))"
  have "p = d @ rev (takeWhile (\<lambda>c. c \<noteq> CHR ''/'') (rev p))"
    unfolding d_def by (metis rev_append rev_rev_ident takeWhile_dropWhile_id)
  then obtain t where p: "p = d @ t" by blast
  have dir: "filepath_dir p = (if d = [] then ''.'' else if d = ''/'' then d else butlast d)"
    by (simp only: filepath_dir_def d_def Let_def)
  show ?thesis unfolding dir using p by (cases t) auto
qed

lemma filepath_dir_dot: "filepath_dir ''.'' = ''.''"
  by (simp add: filepath_dir_def)

text \<open>The search from the working directory upwards for a directory with a \<open>.git\<close> in it.\<close>

function git_root :: "(string \<Rightarrow> bool) \<Rightarrow> string \<Rightarrow> string option" where
  "git_root is_dir dir =
     (if is_dir (filepath_join dir ''.git'') then Some dir
      else let parent = filepath_dir dir
           in if parent = dir then None else git_root is_dir parent)"
  by auto
termination
proof (relation "measure (\<lambda>(f, d). if d = ''.'' then 0 else Suc (length d))", simp)
  fix is_dir :: "string \<Rightarrow> bool" and dir parent
  assume "parent = filepath_dir dir" and "parent \<noteq> dir"
  with length_filepath_dir [of dir] filepath_dir_dot
  show "((is_dir, parent), is_dir, dir) \<in> measure (\<lambda>(f, d). if d = ''.'' then 0 else Suc (length d))"
    by auto
qed

declare git_root.simps [simp del]

definition static_log_path :: "debug_env \<Rightarrow> string" where
  "static_log_path env =
     (case de_getwd env of
        Inl _ \<Rightarrow> ''.cursor/debug-d837bb.log''
      | Inr cwd \<Rightarrow>
          (case git_root (de_is_dir env) cwd of
             None \<Rightarrow> ''.cursor/debug-d837bb.log''
           | Some dir \<Rightarrow> filepath_join (filepath_join dir ''.cursor'') ''debug-d837bb.log''))"

section \<open>What is written\<close>

definition debug_payload :: "int \<Rightarrow> string \<Rightarrow> string \<Rightarrow> string \<Rightarrow> gobj \<Rightarrow> gval" where
  "debug_payload now location msg hypothesisID data =
     VMap [(''sessionId'', VString ''d837bb''), (''timestamp'', VInt now), (''location'', VString location),
           (''message'', VString msg), (''hypothesisId'', VString hypothesisID), (''data'', VMap data)]"

definition append_line :: "debug_env \<Rightarrow> string \<Rightarrow> string \<Rightarrow> fs_effect list" where
  "append_line env path b = (if de_opens env path then [Append path (b @ [CHR 0x0A])] else [])"

definition agent_debug_log :: "debug_env \<Rightarrow> string \<Rightarrow> string \<Rightarrow> string \<Rightarrow> gobj \<Rightarrow> fs_effect list" where
  "agent_debug_log env location msg hypothesisID data =
     (case de_marshal env (debug_payload (de_now env) location msg hypothesisID data) of
        Inl _ \<Rightarrow> []
      | Inr b \<Rightarrow> MkdirAll (filepath_dir (static_log_path env)) # append_line env (static_log_path env) b)"

definition status_log_path :: string where
  "status_log_path = ''/Users/niteesh.chaudhary/Documents/GitHub/velonetics/.cursor/debug-d837bb.log''"

definition agent_status_debug_log :: "debug_env \<Rightarrow> string \<Rightarrow> string \<Rightarrow> string \<Rightarrow> gobj \<Rightarrow> fs_effect list" where
  "agent_status_debug_log env location msg hypothesisID data =
     (case de_marshal env (debug_payload (de_now env) location msg hypothesisID data) of
        Inl _ \<Rightarrow> []
      | Inr b \<Rightarrow> append_line env status_log_path b)"

text \<open>The two places that call them, with their results.\<close>

definition new_static_middleware_logged ::
  "debug_env \<Rightarrow> endpoint_config \<Rightarrow> ('w pipe list \<Rightarrow> 'w pipe built) \<times> fs_effect list" where
  "new_static_middleware_logged env endpointConfig =
     (new_static_middleware endpointConfig,
      if e_Endpoint endpointConfig \<in> {''/static'', ''/token''}
      then agent_debug_log env ''static.go:NewStaticMiddleware'' ''static middleware lookup'' ''A''
             [(''endpoint'', VString (e_Endpoint endpointConfig)), (''namespace'', VString proxy_Namespace),
              (''staticCfgFound'', VBool (get_static_middleware_cfg (e_ExtraConfig endpointConfig) \<noteq> None)),
              (''extraConfigKeys'', VList (map (\<lambda>(k, v). VString k) (e_ExtraConfig endpointConfig)))]
      else [])"

definition get_status_handler_logged :: "debug_env \<Rightarrow> backend \<Rightarrow> status_handler \<times> fs_effect list" where
  "get_status_handler_logged env remote =
     (get_status_handler remote,
      if b_URLPattern remote = ''/unknown''
      then agent_status_debug_log env ''status.go:GetHTTPStatusHandler'' ''backend http status handler lookup'' ''E''
             [(''urlPattern'', VString (b_URLPattern remote)), (''namespace'', VString http_Namespace),
              (''hasNamespaceCfg'', VBool (case map_of (b_ExtraConfig remote) http_Namespace of
                 None \<Rightarrow> False | Some v \<Rightarrow> v \<noteq> VNil)),
              (''extraConfigKeys'', VList (map (\<lambda>(k, v). VString k) (b_ExtraConfig remote)))]
      else [])"

section \<open>Properties\<close>

text \<open>The search finds the nearest directory at or above the working directory that has a \<open>.git\<close>.\<close>

fun up :: "nat \<Rightarrow> string \<Rightarrow> string" where
  "up 0 d = d"
| "up (Suc n) d = up n (filepath_dir d)"

lemma git_root_nearest:
  assumes "git_root is_dir d = Some r"
  shows "\<exists>n. r = up n d \<and> is_dir (filepath_join r ''.git'') \<and> (\<forall>m < n. \<not> is_dir (filepath_join (up m d) ''.git''))"
  using assms
proof (induction is_dir d rule: git_root.induct)
  case (1 is_dir d)
  show ?case
  proof (cases "is_dir (filepath_join d ''.git'')")
    case True
    with 1(2) show ?thesis by (intro exI [of _ 0]) (simp add: git_root.simps)
  next
    case False
    with 1(2) have up: "filepath_dir d \<noteq> d" "git_root is_dir (filepath_dir d) = Some r"
      by (auto simp: git_root.simps [of _ d] Let_def split: if_splits)
    from 1(1) [OF False refl up] obtain n where "r = up n (filepath_dir d)" "is_dir (filepath_join r ''.git'')"
      "\<forall>m < n. \<not> is_dir (filepath_join (up m (filepath_dir d)) ''.git'')" by blast
    with False show ?thesis
      by (intro exI [of _ "Suc n"]) (auto simp: less_Suc_eq_0_disj)
  qed
qed

lemma up_stays: "filepath_dir d = d \<Longrightarrow> up n d = d"
  by (induction n) simp_all

lemma git_root_none:
  "git_root is_dir d = None \<Longrightarrow> \<not> is_dir (filepath_join (up n d) ''.git'')"
proof (induction is_dir d arbitrary: n rule: git_root.induct)
  case (1 is_dir d)
  from 1(2) have here: "\<not> is_dir (filepath_join d ''.git'')"
    and above: "filepath_dir d \<noteq> d \<Longrightarrow> git_root is_dir (filepath_dir d) = None"
    by (auto simp: git_root.simps [of _ d] Let_def split: if_splits)
  show ?case
  proof (cases "filepath_dir d = d")
    case True
    with here show ?thesis by (simp add: up_stays)
  next
    case False
    from 1(1) [OF here refl False above [OF False]] here show ?thesis by (cases n) simp_all
  qed
qed

text \<open>Building the middleware of an endpoint at \<open>/static\<close> or \<open>/token\<close> makes a directory and appends to a file,
  in the repository that the gateway was started in or else in its working directory; building any
  other leaves the file system alone.\<close>

lemma static_middleware_writes:
  assumes "de_getwd env = Inr cwd" and "git_root (de_is_dir env) cwd = Some root" and "root \<noteq> ''/''" and "root \<noteq> ''.''"
    and "\<And>v. \<exists>b. de_marshal env v = Inr b" and "\<And>p. de_opens env p"
  shows "if e_Endpoint cfg \<in> {''/static'', ''/token''}
    then \<exists>line. snd (new_static_middleware_logged env cfg) =
      [MkdirAll (filepath_dir (root @ ''/.cursor/debug-d837bb.log'')), Append (root @ ''/.cursor/debug-d837bb.log'') line]
    else snd (new_static_middleware_logged env cfg) = []"
proof -
  have path: "static_log_path env = root @ ''/.cursor/debug-d837bb.log''"
    using assms(1-4) by (simp add: static_log_path_def filepath_join_def)
  from assms(5) obtain b where "de_marshal env (debug_payload (de_now env) ''static.go:NewStaticMiddleware''
      ''static middleware lookup'' ''A''
        [(''endpoint'', VString (e_Endpoint cfg)), (''namespace'', VString proxy_Namespace),
         (''staticCfgFound'', VBool (get_static_middleware_cfg (e_ExtraConfig cfg) \<noteq> None)),
         (''extraConfigKeys'', VList (map (\<lambda>(k, v). VString k) (e_ExtraConfig cfg)))]) = Inr b" by blast
  with assms(6) show ?thesis
    unfolding new_static_middleware_logged_def agent_debug_log_def path by (simp add: append_line_def)
qed

lemma effects_leave_result:
  "fst (new_static_middleware_logged env cfg) = new_static_middleware cfg"
  "fst (get_status_handler_logged env remote) = get_status_handler remote"
  by (simp_all add: new_static_middleware_logged_def get_status_handler_logged_def)

end
