(* ===== verification/Adapters.thy ===== *)
theory Adapters
  imports Middleware ResponseWriter
begin

text \<open>
  Values of one interface behind another: the wrappers through which modifier plugins see requests and
  responses (\<open>src/proxy/plugin.go\<close>), and the writer gin is given, which has every optional interface of a
  writer (\<open>src/router/gin/safecast.go\<close>). The contexts the wrappers carry are left out.
\<close>

section \<open>Wrappers of requests\<close>

record request_wrapper =
  rw_method :: string
  rw_url :: "url option"
  rw_query :: "string list gomap"
  rw_path :: string
  rw_body :: "reader option"
  rw_params :: "string gomap"
  rw_headers :: "string list gomap"

definition new_request_wrapper :: "request \<Rightarrow> request_wrapper" where
  "new_request_wrapper r =
     \<lparr>rw_method = q_Method r, rw_url = q_URL r, rw_query = q_Query r, rw_path = q_Path r,
      rw_body = q_Body r, rw_params = q_Params r, rw_headers = q_Headers r\<rparr>"

text \<open>What \<open>executeRequestModifiers\<close> writes back.\<close>

definition unwrap_request :: "request_wrapper \<Rightarrow> request \<Rightarrow> request" where
  "unwrap_request t r =
     r\<lparr>q_Method := rw_method t, q_URL := rw_url t, q_Query := rw_query t, q_Path := rw_path t,
       q_Body := rw_body t, q_Params := rw_params t, q_Headers := rw_headers t\<rparr>"

definition execute_wrapped_request_modifiers ::
  "('w, request_wrapper) modifier list \<Rightarrow> 'w \<Rightarrow> request \<Rightarrow> (goerror + request) \<times> 'w" where
  "execute_wrapped_request_modifiers ms w r =
     (case run_modifiers ms w (new_request_wrapper r) of
        (Inl e, w') \<Rightarrow> (Inl e, w')
      | (Inr tmp, w') \<Rightarrow> (Inr (unwrap_request tmp r), w'))"

section \<open>Wrappers of responses\<close>

record metadata_wrapper =
  mw_headers :: "string list gomap"
  mw_statusCode :: int

record response_wrapper =
  pw_request :: request_wrapper
  pw_data :: "gobj option"
  pw_isComplete :: bool
  pw_metadata :: metadata_wrapper
  pw_io :: "reader option"

definition new_response_wrapper :: "request_wrapper \<Rightarrow> vresponse \<Rightarrow> response_wrapper" where
  "new_response_wrapper req x =
     \<lparr>pw_request = req, pw_data = r_Data x, pw_isComplete = r_IsComplete x,
      pw_metadata = \<lparr>mw_headers = r_Headers x, mw_statusCode = r_StatusCode x\<rparr>, pw_io = r_Io x\<rparr>"

definition unwrap_response :: "response_wrapper \<Rightarrow> vresponse \<Rightarrow> vresponse" where
  "unwrap_response t x =
     x\<lparr>r_Data := pw_data t, r_IsComplete := pw_isComplete t, r_Io := pw_io t,
       r_Headers := mw_headers (pw_metadata t), r_StatusCode := mw_statusCode (pw_metadata t)\<rparr>"

definition execute_wrapped_response_modifiers ::
  "('w, response_wrapper) modifier list \<Rightarrow> 'w \<Rightarrow> vresponse option \<Rightarrow> request \<Rightarrow>
   (vresponse presult \<times> 'w) option" where
  "execute_wrapped_response_modifiers ms w resp req =
     (case resp of
        None \<Rightarrow> None
      | Some x \<Rightarrow>
          (case run_modifiers ms w (new_response_wrapper (new_request_wrapper req) x) of
             (Inl e, w') \<Rightarrow> Some ((None, Some e), w')
           | (Inr tmp, w') \<Rightarrow> Some ((Some (unwrap_response tmp x), None), w')))"

section \<open>Modifiers of wrappers as modifiers of requests and responses\<close>

text \<open>The wrappers show all of a request and all of a response, so a modifier of wrappers is a modifier of
  what they wrap.\<close>

definition modify_through :: "('a \<Rightarrow> 'b) \<Rightarrow> ('b \<Rightarrow> 'a) \<Rightarrow> ('w, 'b) modifier \<Rightarrow> ('w, 'a) modifier" where
  "modify_through wrap unwrap f w a =
     (case f w (wrap a) of (Inl e, w') \<Rightarrow> (Inl e, w') | (Inr t, w') \<Rightarrow> (Inr (map_option unwrap t), w'))"

lemma run_modifiers_through:
  assumes "\<And>t. wrap (unwrap t) = t"
  shows "run_modifiers (map (modify_through wrap unwrap) ms) w (unwrap t) =
    (case run_modifiers ms w t of (Inl e, w') \<Rightarrow> (Inl e, w') | (Inr t, w') \<Rightarrow> (Inr (unwrap t), w'))"
  by (induction ms arbitrary: w t) (auto simp: modify_through_def assms split: prod.split sum.split option.split)

lemma wrapped_request_inverse [simp]:
  "unwrap_request (new_request_wrapper r) r' = r" "new_request_wrapper (unwrap_request t r') = t"
  by (simp_all add: unwrap_request_def new_request_wrapper_def)

lemma wrapped_response_inverse [simp]:
  "unwrap_response (new_response_wrapper q x) x' = x" "pw_request (new_response_wrapper q x) = q"
  "new_response_wrapper (pw_request t) (unwrap_response t x') = t"
  by (simp_all add: unwrap_response_def new_response_wrapper_def)

lemma unwrap_request_same: "unwrap_request t r = unwrap_request t r'"
  by (simp add: unwrap_request_def)

lemma unwrap_response_same: "unwrap_response t x = unwrap_response t x'"
  by (simp add: unwrap_response_def)

lemma wrapped_request_modifiers:
  "execute_wrapped_request_modifiers ms w r =
     execute_request_modifiers
       (map (modify_through new_request_wrapper (\<lambda>t. unwrap_request t request_zero)) ms) w r"
  using run_modifiers_through [of new_request_wrapper "\<lambda>t. unwrap_request t request_zero" ms w "new_request_wrapper r"]
  by (auto simp: execute_wrapped_request_modifiers_def execute_request_modifiers_eq unwrap_request_same [of _ r request_zero]
      split: prod.split sum.split)

definition response_zero :: vresponse where
  "response_zero = \<lparr>r_Data = None, r_IsComplete = False, r_Headers = [], r_StatusCode = 0, r_Io = None\<rparr>"

lemma wrapped_response_modifiers:
  "execute_wrapped_response_modifiers ms w resp req =
     execute_response_modifiers
       (map (modify_through (\<lambda>(q, x). new_response_wrapper (new_request_wrapper q) x)
          (\<lambda>t. (unwrap_request (pw_request t) request_zero, unwrap_response t response_zero))) ms) w resp req"
proof (cases resp)
  case (Some x)
  let ?wrap = "\<lambda>(q, x). new_response_wrapper (new_request_wrapper q) x"
  let ?un = "\<lambda>t. (unwrap_request (pw_request t) request_zero, unwrap_response t response_zero)"
  from run_modifiers_through [of ?wrap ?un ms w "new_response_wrapper (new_request_wrapper req) x"]
  show ?thesis
    by (auto simp: Some execute_wrapped_response_modifiers_def execute_response_modifiers_eq
        unwrap_response_same [of _ x response_zero] split: prod.split sum.split)
qed (simp add: execute_wrapped_response_modifiers_def execute_response_modifiers_def)

section \<open>The writer gin is given\<close>

text \<open>A writer with the interfaces a connection can have: taking it over, and a channel that tells of its
  end. \<open>None\<close> is a writer without the interface; a channel that nobody sends on is \<open>Never\<close>.\<close>

datatype 'n close_channel = Never | Notifies 'n

record ('w, 'c, 'n) connection_writer =
  cw_writer :: "'w writer"
  cw_Hijack :: "('w \<Rightarrow> (goerror + 'c) \<times> 'w) option"
  cw_CloseNotify :: "('w \<Rightarrow> 'n) option"

definition safe_cast_Hijack :: "('w, 'c, 'n) connection_writer \<Rightarrow> 'w \<Rightarrow> (goerror + 'c) \<times> 'w" where
  "safe_cast_Hijack W w = (case cw_Hijack W of Some h \<Rightarrow> h w | None \<Rightarrow> (Inl (ErrMsg ''not supported''), w))"

definition safe_cast_CloseNotify :: "('w, 'c, 'n) connection_writer \<Rightarrow> 'w \<Rightarrow> 'n close_channel" where
  "safe_cast_CloseNotify W w = (case cw_CloseNotify W of Some h \<Rightarrow> Notifies (h w) | None \<Rightarrow> Never)"

definition safe_cast_all :: "('w, 'c, 'n) connection_writer \<Rightarrow> ('w, 'c, 'n close_channel) connection_writer" where
  "safe_cast_all W =
     \<lparr>cw_writer = safe_cast (cw_writer W), cw_Hijack = Some (safe_cast_Hijack W),
      cw_CloseNotify = Some (safe_cast_CloseNotify W)\<rparr>"

text \<open>\<open>safeCaster.ServeHTTP\<close>; a handler is given its writer.\<close>

definition safe_caster ::
  "(('w, 'c, 'n close_channel) connection_writer \<Rightarrow> 'r \<Rightarrow> 'x) \<Rightarrow> ('w, 'c, 'n) connection_writer \<Rightarrow> 'r \<Rightarrow> 'x" where
  "safe_caster h W r = h (safe_cast_all W) r"

text \<open>gin asserts the three interfaces without checking, which panics on a writer without one of them: the
  writer it is given has all of them, and writes what the one behind it writes.\<close>

definition gin_asserts :: "('w, 'c, 'n) connection_writer \<Rightarrow> bool" where
  "gin_asserts W \<longleftrightarrow> wr_Flush (cw_writer W) \<noteq> None \<and> cw_Hijack W \<noteq> None \<and> cw_CloseNotify W \<noteq> None"

lemma safe_cast_asserts:
  "gin_asserts (safe_cast_all W) \<and> flush_if_can (cw_writer (safe_cast_all W)) = flush_if_can (cw_writer W) \<and>
   wr_Write (cw_writer (safe_cast_all W)) = wr_Write (cw_writer W) \<and>
   wr_WriteHeader (cw_writer (safe_cast_all W)) = wr_WriteHeader (cw_writer W)"
  by (simp add: gin_asserts_def safe_cast_all_def safe_cast_keeps) (simp add: safe_cast_def)

lemma safe_caster_serves:
  assumes "\<And>V. gin_asserts V \<Longrightarrow> h V r \<noteq> None"
  shows "safe_caster h W r \<noteq> None"
  unfolding safe_caster_def by (rule assms) (use safe_cast_asserts in blast)

end
