(* ===== verification/Service.thy ===== *)
theory Service
  imports GinEngine
begin

text \<open>
  The configuration and the routers together: what \<open>Init\<close> of \<open>src/config/config.go\<close> guarantees about the
  paths that \<open>src/router/mux/router.go\<close> and \<open>src/router/gin/router.go\<close> register, and what it leaves to them.
\<close>

section \<open>The paths that initialisation lets through\<close>

text \<open>A placeholder that is rewritten leaves a colon behind.\<close>

lemma replace_all_marks:
  "c \<in> set new \<Longrightarrow> c \<notin> set (replace_all old new s) \<Longrightarrow> replace_all old new s = s"
proof (induction old new s rule: replace_all.induct)
  case (1 old new s)
  show ?case
  proof (cases s)
    case (Cons x xs)
    show ?thesis
    proof (cases "old \<noteq> [] \<and> prefix old s")
      case True
      with Cons have "replace_all old new s = new @ replace_all old new (drop (length old) s)"
        by (subst replace_all.simps) simp
      with 1(3,4) show ?thesis by simp
    next
      case False
      with Cons have eq: "replace_all old new s = x # replace_all old new xs"
        by (subst replace_all.simps) auto
      with 1(4) have "c \<notin> set (replace_all old new xs)" by simp
      with 1(2) [OF Cons] False 1(3) Cons eq show ?thesis by simp
    qed
  qed simp
qed

lemma set_join_first: "set p \<subseteq> set (join_with sep (p # ps))"
  by (cases ps) auto

lemma colon_step_marks:
  assumes "CHR '':'' \<notin> set (colon_step r p)"
  shows "colon_step r p = r"
proof (cases "split_on (CHR ''?'') r")
  case (Cons q qs)
  let ?q' = "replace_all (''{'' @ p @ ''}'') ('':'' @ p) q"
  from Cons assms have "CHR '':'' \<notin> set ?q'"
    using set_join_first [of ?q' "''?''" qs] by (auto simp: colon_step_def)
  then have "?q' = q" by (rule replace_all_marks [rotated]) simp
  with Cons show ?thesis using join_split_on [of "CHR ''?''" r] by (simp add: colon_step_def)
qed simp

lemma endpoint_path_marks:
  "CHR '':'' \<notin> set (get_endpoint_path u path params) \<Longrightarrow> get_endpoint_path u path params = path"
proof (induction params rule: rev_induct)
  case (snoc p ps)
  then show ?case using colon_step_marks [of "foldl colon_step path ps" p]
    by (auto simp: get_endpoint_path_def split: if_splits)
qed (simp add: get_endpoint_path_def)

lemma init_endpoint_path:
  assumes "init_endpoint env s e = Inr e'"
  shows "ce_invalid env (clean_path (e_Endpoint e)) = Inr False \<and>
    (\<exists>ps. e_Endpoint e' = get_endpoint_path (ce_routing env) (clean_path (e_Endpoint e)) ps)"
proof -
  have valid: "validate_endpoint env (e\<lparr>e_Endpoint := clean_path (e_Endpoint e)\<rparr>) = None"
    using assms by (auto simp: init_endpoint_def Let_def split: option.splits)
  have "e_Endpoint (init_endpoint_defaults s x) = e_Endpoint x" for x
    by (simp add: init_endpoint_defaults_def Let_def)
  with assms valid show ?thesis
    by (auto simp: init_endpoint_def validate_endpoint_def Let_def split: option.splits sum.splits if_splits)
qed

lemma init_endpoints_from:
  assumes "init_endpoints env s = Inr s'" and "c \<in> set (s_Endpoints s')"
  shows "\<exists>x. init_endpoint env s x = Inr c"
proof -
  from assms(1) obtain es where "map_err (\<lambda>_. init_endpoint env s) 0 (s_Endpoints s) = Inr es" "s_Endpoints s' = es"
    by (auto simp: init_endpoints_def split: sum.splits)
  with map_err_Inr assms(2) show ?thesis by blast
qed

lemma init_endpoints_kept:
  assumes "service_init env s = Inr s'"
  shows "length (s_Endpoints s') = length (s_Endpoints s)"
proof -
  from assms obtain s1 s2 es where g: "init_global_params env s = Inr s1" and a: "init_async_agents env s1 = Inr s2"
    and e: "map_err (\<lambda>_. init_endpoint env s2) 0 (s_Endpoints s2) = Inr es" "s_Endpoints s' = es"
    by (auto simp: service_init_def init_endpoints_def split: if_splits sum.splits option.splits)
  have "s_Endpoints s1 = s_Endpoints s"
    using g by (auto simp: init_global_params_def Let_def split: if_splits sum.splits)
  moreover have "s_Endpoints s2 = s_Endpoints s1" using a by (auto simp: init_async_agents_def split: sum.splits)
  ultimately show ?thesis using map_err_Inr [OF e(1)] e(2) by simp
qed

text \<open>A path that the pattern forbids and that has no parameter is the path of no endpoint.\<close>

lemma init_rejects_path:
  assumes "service_init env s = Inr s'" and "c \<in> set (s_Endpoints s')"
    and "ce_invalid env p = Inr True" and "CHR '':'' \<notin> set p"
  shows "e_Endpoint c \<noteq> p"
proof
  assume p: "e_Endpoint c = p"
  from assms(1) obtain s2 where "init_endpoints env s2 = Inr s'"
    by (auto simp: service_init_def split: if_splits sum.splits option.splits)
  from init_endpoints_from [OF this assms(2)] obtain x where "init_endpoint env s2 x = Inr c" by blast
  from init_endpoint_path [OF this] obtain ps where ok: "ce_invalid env (clean_path (e_Endpoint x)) = Inr False"
    and "e_Endpoint c = get_endpoint_path (ce_routing env) (clean_path (e_Endpoint x)) ps" by blast
  with endpoint_path_marks [of "ce_routing env" _ ps] p assms(4) have "clean_path (e_Endpoint x) = p" by metis
  with ok assms(3) show False by simp
qed

lemma own_paths_invalid:
  "default_invalid ''/__health'' \<and> default_invalid DefaultDebugPattern \<and> default_invalid DefaultEchoPattern"
  by code_simp

lemma own_paths_plain:
  "CHR '':'' \<notin> set ''/__health'' \<and> CHR '':'' \<notin> set DefaultDebugPattern \<and> CHR '':'' \<notin> set DefaultEchoPattern"
  by (simp add: DefaultDebugPattern_def DefaultEchoPattern_def)

lemma endpoint_serving_elsewhere:
  "(\<And>c. c \<in> set cs \<Longrightarrow> e_Endpoint c \<noteq> fst k) \<Longrightarrow> endpoint_serving pf hf k cs = None"
proof (induction cs)
  case (Cons c cs)
  then have "endpoint_serving pf hf k cs = None" "e_Endpoint c \<noteq> fst k" by simp_all
  then show ?case by (auto simp: serves_def)
qed simp

text \<open>\<open>SetSequentialParamsPattern\<close> and \<open>SetInvalidPattern\<close>, with which a program replaces the patterns.
  \<open>compile\<close> and \<open>match_string\<close> are those of the package \<open>regexp\<close>: only the first checks its pattern.\<close>

definition set_sequential_params_pattern ::
  "(string \<Rightarrow> goerror + (string \<Rightarrow> bool)) \<Rightarrow> string \<Rightarrow> config_env \<Rightarrow> goerror option \<times> config_env" where
  "set_sequential_params_pattern compile pattern env =
     (case compile pattern of
        Inl err \<Rightarrow> (Some err, env)
      | Inr re \<Rightarrow> (None, env\<lparr>ce_sequential := re\<rparr>))"

definition set_invalid_pattern ::
  "(string \<Rightarrow> string \<Rightarrow> string + bool) \<Rightarrow> string \<Rightarrow> config_env \<Rightarrow> config_env" where
  "set_invalid_pattern match_string pattern env = env\<lparr>ce_invalid := match_string pattern\<rparr>"

text \<open>An invalid pattern that does not compile is found out when a service with endpoints is
  initialised, which then fails.\<close>

lemma bad_invalid_pattern:
  assumes "\<And>p. match_string pattern p = Inl err" and "s_Endpoints s \<noteq> []"
  shows "\<exists>e. service_init (set_invalid_pattern match_string pattern env) s = Inl e"
proof (cases "service_init (set_invalid_pattern match_string pattern env) s")
  case (Inr s')
  let ?env = "set_invalid_pattern match_string pattern env"
  from Inr obtain s2 where s2: "init_endpoints ?env s2 = Inr s'"
    by (auto simp: service_init_def split: if_splits sum.splits option.splits)
  from init_endpoints_kept [OF Inr] assms(2) obtain c where "c \<in> set (s_Endpoints s')"
    by (metis length_0_conv last_in_set)
  with init_endpoints_from [OF s2] obtain x where "init_endpoint ?env s2 x = Inr c" by blast
  from init_endpoint_path [OF this] assms(1) show ?thesis by (simp add: set_invalid_pattern_def)
qed simp

section \<open>The endpoints of the service itself\<close>

text \<open>C22. No configuration can take the service's own endpoints away. When \<open>Init\<close> has accepted a
  service under the default pattern of invalid paths, the router over the basic engine answers at the health path with the
  health handler and, where they are switched on, for every method at the debug and echo paths with
  theirs, whatever endpoints are configured, whatever their parameters are rewritten to and whatever
  proxies and handlers are built for them.\<close>

theorem service_paths_reserved:
  assumes "service_init env s = Inr s'" and "ce_invalid env = (\<lambda>p. Inr (default_invalid p))"
    and "run_registrations (rc\<lparr>rc_handle := engine_handle refuses, rc_DebugPattern := DefaultDebugPattern,
           rc_EchoPattern := DefaultEchoPattern\<rparr>) dh eh hh s' default_engine = Some e"
  shows "engine_lookup e (''/__health'', ''GET'') = Some hh \<and>
    (s_Debug s' \<longrightarrow> (\<forall>m \<in> set http_methods. engine_lookup e (DefaultDebugPattern, m) = Some dh)) \<and>
    (s_Echo s' \<longrightarrow> (\<forall>m \<in> set http_methods. engine_lookup e (DefaultEchoPattern, m) = Some eh))"
proof -
  have free: "endpoint_serving pf hf (p, m) (s_Endpoints s') = None"
    if "p \<in> {''/__health'', DefaultDebugPattern, DefaultEchoPattern}"
    for p m pf and hf :: "endpoint_config \<Rightarrow> 'c \<Rightarrow> 'a"
  proof (rule endpoint_serving_elsewhere)
    fix c assume "c \<in> set (s_Endpoints s')"
    from init_rejects_path [OF assms(1) this, of p] that own_paths_invalid own_paths_plain
    show "e_Endpoint c \<noteq> fst (p, m)" by (auto simp: assms(2))
  qed
  have apart: "DefaultDebugPattern \<noteq> ''/__health''" "DefaultEchoPattern \<noteq> ''/__health''"
    "DefaultDebugPattern \<noteq> DefaultEchoPattern"
    by (simp_all add: DefaultDebugPattern_def DefaultEchoPattern_def)
  show ?thesis
    by (simp add: basic.look_run [OF assms(3), of refuses] free apart apart [symmetric])
qed

text \<open>The gin router registers no endpoint at them either.\<close>

lemma gin_paths_reserved:
  assumes "service_init env s = Inr s'" and "ce_invalid env = (\<lambda>p. Inr (default_invalid p))"
    and "p \<in> {''/__health'', DefaultDebugPattern, DefaultEchoPattern}"
  shows "configured_methods (s_Endpoints s') p = []"
proof -
  have "e_Endpoint c \<noteq> p" if "c \<in> set (s_Endpoints s')" for c
    by (rule init_rejects_path [OF assms(1) that]) (use assms(2,3) own_paths_invalid own_paths_plain in auto)
  then show ?thesis by (auto simp: configured_methods_def filter_empty_conv)
qed

definition sample_router :: "(nat basic_engine, nat, nat) router_config" where
  "sample_router = \<lparr>rc_handle = engine_handle (\<lambda>_ _. False), rc_HandlerFactory = (\<lambda>_ p. p),
     rc_ProxyFactory = (\<lambda>_. Inr 4), rc_DebugPattern = [], rc_EchoPattern = []\<rparr>"

theorem service_paths_reserved_witness:
  "\<exists>s' e. service_init default_env (sample_service\<lparr>s_Debug := True\<rparr>) = Inr s' \<and>
     run_registrations (sample_router\<lparr>rc_handle := engine_handle (\<lambda>_ _. False), rc_DebugPattern := DefaultDebugPattern,
       rc_EchoPattern := DefaultEchoPattern\<rparr>) 1 2 3 s' default_engine = Some e \<and>
     engine_lookup e (''/__health'', ''GET'') = Some 3 \<and>
     engine_lookup e (DefaultDebugPattern, ''POST'') = Some 1"
proof -
  let ?rc = "sample_router\<lparr>rc_handle := engine_handle (\<lambda>_ _. False), rc_DebugPattern := DefaultDebugPattern,
    rc_EchoPattern := DefaultEchoPattern\<rparr>"
  have "case service_init default_env (sample_service\<lparr>s_Debug := True\<rparr>) of
      Inl _ \<Rightarrow> False | Inr s' \<Rightarrow> s_Debug s' \<and> run_registrations ?rc 1 2 3 s' default_engine \<noteq> None"
    by code_simp
  then obtain s' e where s': "service_init default_env (sample_service\<lparr>s_Debug := True\<rparr>) = Inr s'" "s_Debug s'"
    and e: "run_registrations ?rc 1 2 3 s' default_engine = Some e"
    by (auto split: sum.splits)
  from service_paths_reserved [OF s'(1) _ e] s'(2)
  have "engine_lookup e (''/__health'', ''GET'') = Some 3 \<and>
      (\<forall>m \<in> set http_methods. engine_lookup e (DefaultDebugPattern, m) = Some 1)"
    by (simp add: default_env_def)
  moreover have "''POST'' \<in> set http_methods" by (simp add: http_methods_def)
  ultimately show ?thesis using s'(1) e by blast
qed

section \<open>Two endpoints with one path and method\<close>

text \<open>\<open>Init\<close> accepts them. Over the basic engine the last one is served; gin, which refuses a method
  that a path has already, panics when the router starts.\<close>

definition twice_service :: service_config where
  "twice_service = sample_service\<lparr>s_Endpoints := [sample_endpoint, sample_endpoint]\<rparr>"

lemma twice_accepted:
  "case service_init default_env twice_service of
     Inl _ \<Rightarrow> False | Inr s \<Rightarrow> configured_methods (s_Endpoints s) ''/u/:id'' = [''GET'', ''GET'']"
  by code_simp

definition refuses_duplicates :: "('h route_call list \<Rightarrow> 'h route_call \<Rightarrow> bool) \<Rightarrow> bool" where
  "refuses_duplicates refuses \<longleftrightarrow> (\<forall>rs m p h. m \<in> set (methods_at rs p) \<longrightarrow> refuses rs (RHandle m p h))"

lemma gin_register_endpoint_fresh:
  assumes "gin_register_endpoint refuses meth c h n st = Some st'" and "refuses_duplicates refuses"
    and "distinct (methods_at (gr_routes st) p)"
  shows "distinct (methods_at (gr_routes st') p)"
  using assms
  by (auto simp: gin_register_endpoint_def refuses_duplicates_def is_valid_sequential_endpoint_def Let_def
      gin_route_adds split: if_splits option.splits)

lemma gin_register_endpoints_fresh:
  "gin_register_endpoints refuses failed noop pf hf cs st = Some st' \<Longrightarrow> refuses_duplicates refuses \<Longrightarrow>
     distinct (methods_at (gr_routes st) p) \<Longrightarrow> distinct (methods_at (gr_routes st') p)"
  by (induction cs arbitrary: st)
    (auto simp: bind_eq_Some_conv split: if_splits sum.splits dest: gin_register_endpoint_fresh)

text \<open>The panic does not depend on whether the proxies could be built.\<close>

lemma duplicate_endpoints_panic:
  assumes "refuses_duplicates refuses" and "\<not> distinct (configured_methods (s_Endpoints cfg) p)"
  shows "register_endpoints_and_middlewares refuses dh eh failed noop pf hf cfg new_gin_router = None"
proof (rule ccontr)
  assume "register_endpoints_and_middlewares refuses dh eh failed noop pf hf cfg new_gin_router \<noteq> None"
  then obtain s1 s2 s3 where
    one: "(if s_Debug cfg then gin_route refuses (RAny ''/__debug/*param'' dh) new_gin_router else Some new_gin_router) = Some s1"
    and two: "(if s_Echo cfg then gin_route refuses (RAny ''/__echo/*param'' eh) s1 else Some s1) = Some s2"
    and three: "gin_register_endpoints refuses failed noop pf hf (s_Endpoints cfg) s2 = Some s3"
    unfolding register_endpoints_and_middlewares_def by (auto simp: bind_eq_Some_conv simp del: not_None_eq split del: if_split)
  have ok: "catalog_ok s2" by (rule routes_without_debug(1) [OF two routes_without_debug(1) [OF one]]) simp
  have none: "methods_at (gr_routes s2) p = []"
    by (simp add: routes_without_debug(2) [OF two] routes_without_debug(2) [OF one])
  with gin_register_endpoints_adds [OF three ok] have "methods_at (gr_routes s3) p = configured_methods (s_Endpoints cfg) p"
    by simp
  moreover have "distinct (methods_at (gr_routes s3) p)"
    by (rule gin_register_endpoints_fresh [OF three assms(1)]) (simp add: none)
  ultimately show False using assms(2) by simp
qed

end
