(* ===== verification/WholeGateway.thy ===== *)
theory WholeGateway
  imports Gateway Service RouterFlavours
begin

text \<open>
  The gateway as a whole, over \<open>net/http\<close>: the engine of \<open>src/router/mux/engine.go\<close> with all that
  \<open>src/router/mux/router.go\<close> registers for a configuration, the handlers around the proxies of the default
  factory, down to the calls of the HTTP client. The endpoints share one world: the balancers of each and
  what all of them work on.
\<close>

section \<open>Endpoints in one world\<close>

definition endpoint_key :: "endpoint_config \<Rightarrow> string \<times> string" where
  "endpoint_key c = (e_Endpoint c, e_Method c)"

definition endpoint_pipe :: "string \<times> string \<Rightarrow> ('b \<times> 'w) pipe \<Rightarrow> ((string \<times> string \<Rightarrow> 'b) \<times> 'w) pipe" where
  "endpoint_pipe k p v r =
     (case p (fst v k, snd v) r of
        Panic \<Rightarrow> Panic
      | Ret res r' bw \<Rightarrow> Ret res r' ((fst v)(k := fst bw), snd bw))"

lemma calls_endpoint_pipe:
  "calls (\<lambda>bw. snd (snd bw)) p (bss k, v, log) r R \<Longrightarrow>
     calls (\<lambda>bw. snd (snd bw)) (endpoint_pipe k p) (bss, v, log) r R"
  by (auto simp: calls_def endpoint_pipe_def split: ret.split)

text \<open>The endpoint whose handler the engine has at a path and method.\<close>

lemma endpoint_serving_from:
  "endpoint_serving pf hf k cs = Some h \<Longrightarrow>
     \<exists>c \<in> set cs. \<exists>p. k = (e_Endpoint c, to_upper (e_Method c)) \<and> pf c = Inr p \<and> h = hf c p"
  by (induction cs) (auto simp: serves_def split: option.splits if_splits sum.splits)

section \<open>Handlers that call no backend\<close>

text \<open>A handler that leaves alone what the proxies work on.\<close>

definition keeps_world :: "('w, 'v) handler \<Rightarrow> bool" where
  "keeps_world h \<longleftrightarrow> (\<forall>r w v. case h r (w, v) of None \<Rightarrow> True | Some (w', v') \<Rightarrow> v' = v)"

lemma own_handlers_keep_world:
  "keeps_world (health_handler W)" "keeps_world (debug_handler W env)" "keeps_world (echo_handler W env)"
  by (auto simp: keeps_world_def health_handler_def debug_handler_def echo_handler_def Let_def
      split: option.split sum.split)

lemma keeps_worldD: "keeps_world h \<Longrightarrow> h r (w, v) = Some (w', v') \<Longrightarrow> v' = v"
  unfolding keeps_world_def by (metis case_prod_conv option.simps(5))

section \<open>The gateway\<close>

text \<open>What \<open>engine_serve\<close> does with a request.\<close>

lemma engine_serve_cases:
  assumes "engine_serve route miss W e r (w, v) = Some (w', v')"
  obtains (missed) i' where "route (be_handler e) r = None" and "miss r (new_http_error_interceptor w, v) = Some (i', v')"
  | (served) pattern h i' where "route (be_handler e) r = Some pattern"
      and "engine_lookup e (pattern, cr_Method r) = Some h" and "h r (new_http_error_interceptor w, v) = Some (i', v')"
  | (refused) "v' = v"
  using assms
  by (auto simp: engine_serve_def registrable_handler_def split: option.splits)

definition gateway_config ::
  "(string list \<Rightarrow> string \<Rightarrow> bool) \<Rightarrow> 'w writer \<Rightarrow> ('w \<times> bool) render untyped \<Rightarrow> ('w \<times> bool) render \<Rightarrow>
   (string \<Rightarrow> string option) \<Rightarrow> (client_request \<Rightarrow> string gomap) \<Rightarrow> (goerror \<Rightarrow> int) \<Rightarrow>
   (duration option \<Rightarrow> 'v \<Rightarrow> bool) \<Rightarrow> (endpoint_config \<Rightarrow> goerror + 'v pipe) \<Rightarrow>
   (('w \<times> bool, 'v) handler basic_engine, ('w \<times> bool, 'v) handler, 'v pipe) router_config" where
  "gateway_config refuses W renders json split params errF ctx_done pf =
     mux_default_factory (engine_handle refuses)
       (\<lambda>c p. endpoint_handler (error_interceptor W) renders json (mux_new_request split params) errF ctx_done c (\<lambda>d. p)) pf"

text \<open>C5. A request to the gateway. When the router over the basic engine serves a configuration whose
  endpoints have one backend each (without plugins, GraphQL or concurrent calls), then for every request of a client,
  wherever the \<open>ServeMux\<close> routes it, at most one request is sent to a backend; if one is sent, then to
  the backend of a configured endpoint, whose path is the pattern the request was routed to and whose method
  is that of the request. Its URL is the path of that backend's URL pattern, filled in with the parameters of
  the route, on a host that the backend's subscriber offers, and the query strings added to it are exactly those
  of the client that the endpoint and the backend list; its headers are the router's own or the client's that
  both list; method and body are the backend's and the client's. The service's own endpoints and every other
  answer call no backend. The balancers that the gateway keeps are over the backends' subscribers, as the
  factory makes them and picking a host leaves them.\<close>

theorem gateway_routes_requests:
  assumes "run_registrations (gateway_config refuses W renders json split params errF ctx_done pf)
      (debug_handler (error_interceptor W) denv) (echo_handler (error_interceptor W) denv)
      (health_handler (error_interceptor W)) cfg default_engine = Some e"
    and "\<forall>c \<in> set (s_Endpoints cfg). (\<exists>err. pf c = Inl err) \<or>
      (e_Backend c = [remote c] \<and> plain_backend (remote c) \<and> ec_map (e_ExtraConfig c) plugin_Namespace = None \<and>
       (\<exists>bs p. pf c = Inr (endpoint_pipe (endpoint_key c) p) \<and>
          default_factory_new env race merge T
            (\<lambda>remote. new_http_proxy_with_http_executor T' gunzip check print done remote (recording re) (b_Decoder remote))
            sf c = Inr (Built (bs, p))) \<and>
       balancer_of (sf (remote c)) (bss (endpoint_key c) ! 0))"
    and "gomap_ok (cr_Header r)" and "gomap_ok (cr_Query r)" and "keeps_world miss"
    and "engine_serve route miss W e r (w, bss, v, log) = Some (w', bss', v', log')"
  shows "\<exists>xs. log' = log @ xs \<and> length xs \<le> 1 \<and>
    list_all (\<lambda>x. \<exists>c \<in> set (s_Endpoints cfg). route (be_handler e) r = Some (e_Endpoint c) \<and>
      cr_Method r = to_upper (e_Method c) \<and>
      only_listed (fe_parse (ee_backend env)) print
        {h. \<exists>hs. subscriber_hosts (v, log) (sf (remote c)) = Inr hs \<and> h \<in> set hs} (params r) c (remote c) r (fst x)) xs"
  using assms(6)
proof (cases rule: engine_serve_cases)
  case (missed i')
  from keeps_worldD [OF assms(5) missed(2)] show ?thesis by simp
next
  case (served pattern h i')
  let ?hf = "\<lambda>c p. endpoint_handler (error_interceptor W) renders json (mux_new_request split params) errF ctx_done c (\<lambda>d. p)"
  note look = basic.look_run [OF assms(1), of refuses "(pattern, cr_Method r)"]
  consider (endpoint) "endpoint_serving pf ?hf (pattern, cr_Method r) (s_Endpoints cfg) = Some h"
    | (own) "h \<in> {health_handler (error_interceptor W), echo_handler (error_interceptor W) denv,
        debug_handler (error_interceptor W) denv}"
    using look served(2)
    by (auto simp: gateway_config_def mux_default_factory_def split: option.splits if_splits)
  then show ?thesis
  proof cases
    case endpoint
    then obtain c q where c: "c \<in> set (s_Endpoints cfg)" and k: "pattern = e_Endpoint c" "cr_Method r = to_upper (e_Method c)"
      and q: "pf c = Inr q" "h = ?hf c q" by (auto dest: endpoint_serving_from)
    have "\<not> (\<exists>err. pf c = Inl err)" using q(1) by simp
    with bspec [OF assms(2) c] obtain bs p where one: "e_Backend c = [remote c]" "plain_backend (remote c)"
        "ec_map (e_ExtraConfig c) plugin_Namespace = None"
      and p: "pf c = Inr (endpoint_pipe (endpoint_key c) p)"
      and built: "default_factory_new env race merge T
        (\<lambda>remote. new_http_proxy_with_http_executor T' gunzip check print done remote (recording re) (b_Decoder remote))
        sf c = Inr (Built (bs, p))"
      and lb: "balancer_of (sf (remote c)) (bss (endpoint_key c) ! 0)" by blast
    from p q(1) have p: "q = endpoint_pipe (endpoint_key c) p" by simp
    let ?r = "request_from r (params r) (mux_client_ip split r) (e_QueryString c) (endpoint_headers c)"
    let ?hosts = "{h. \<exists>hs. subscriber_hosts (v, log) (sf (remote c)) = Inr hs \<and> h \<in> set hs}"
    let ?P = "\<lambda>x. sent_for (fe_parse (ee_backend env)) print ?hosts (remote c) ?r (fst x)"
    have "calls (\<lambda>bw. snd (snd bw)) p (bss (endpoint_key c), v, log) ?r (\<lambda>res xs. length xs \<le> 1 \<and> list_all ?P xs)"
      using calls_endpoint [OF one built refl gomap_ok_request_from [OF assms(3,4)], of "bss (endpoint_key c)"]
      unfolding offered_of [OF lb] .
    from calls_endpoint_pipe [of p bss "endpoint_key c" v log, OF this] have "calls (\<lambda>bw. snd (snd bw)) q (bss, v, log)
        (mux_new_request split params r (e_QueryString c) (endpoint_headers c)) (\<lambda>res xs. length xs \<le> 1 \<and> list_all ?P xs)"
      by (simp add: p mux_new_request_def)
    from handler_calls [OF served(3) [unfolded q(2)], of "\<lambda>bw. snd (snd bw)" ?P, OF this]
    obtain xs where "log' = log @ xs" "length xs \<le> 1" "list_all ?P xs" by auto
    moreover have "?P x \<Longrightarrow> only_listed (fe_parse (ee_backend env)) print ?hosts (params r) c (remote c) r (fst x)" for x
      by (rule sent_only_listed [OF _ assms(3,4)])
    ultimately show ?thesis using c k served(1) by (fastforce simp: list_all_iff)
  next
    case own
    then have "keeps_world h" using own_handlers_keep_world by blast
    from keeps_worldD [OF this served(3)] show ?thesis by simp
  qed
qed simp

text \<open>The endpoint of \<open>Gateway\<close> at a path of its own, behind a \<open>ServeMux\<close> that routes to the pattern equal
  to the path.\<close>

definition whole_endpoint :: endpoint_config where
  "whole_endpoint = Gateway.sample_endpoint\<lparr>e_Endpoint := ''/e''\<rparr>"

abbreviation whole_built where
  "whole_built \<equiv> default_factory_new \<lparr>ee_backend = sample_factory_env, ee_endpoint = sample_outer_env\<rparr>
     (\<lambda>t n p. p) (\<lambda>c ps. BFatal) sample_flat
     (\<lambda>remote. new_http_proxy_with_http_executor sample_flat Inr (\<lambda>m u. None) u_rest (\<lambda>w. None) remote
        (recording sample_executor) (b_Decoder remote))
     fixed_subscriber_factory"

definition whole_pf ::
  "endpoint_config \<Rightarrow> goerror + ((string \<times> string \<Rightarrow> (unit \<times> exchange list) balancer list) \<times> unit \<times> exchange list) pipe" where
  "whole_pf c =
     (case whole_built c of
        Inr (Built (bs, p)) \<Rightarrow> Inr (endpoint_pipe (endpoint_key c) p)
      | _ \<Rightarrow> Inl (ErrMsg ''not built''))"

definition whole_balancers :: "string \<times> string \<Rightarrow> (unit \<times> exchange list) balancer list" where
  "whole_balancers k = (case whole_built whole_endpoint of Inr (Built (bs, p)) \<Rightarrow> bs | _ \<Rightarrow> [])"

definition whole_service :: service_config where
  "whole_service = service_zero\<lparr>s_Debug := True, s_Endpoints := [whole_endpoint]\<rparr>"

abbreviation whole_engine where
  "whole_engine \<equiv> run_registrations
     (gateway_config (\<lambda>ps p. False) net_http [] (\<lambda>w r. Some w) (\<lambda>s. Some s) (\<lambda>r. []) default_to_http_error
        (\<lambda>d v. False) whole_pf)
     (debug_handler (error_interceptor net_http) \<lparr>re_marshal = \<lambda>v. Inr ''{}'', re_reads = \<lambda>b. []\<rparr>)
     (echo_handler (error_interceptor net_http) \<lparr>re_marshal = \<lambda>v. Inr ''{}'', re_reads = \<lambda>b. []\<rparr>)
     (health_handler (error_interceptor net_http)) whole_service default_engine"

abbreviation same_path :: "string list \<Rightarrow> client_request \<Rightarrow> string option" where
  "same_path ps r \<equiv> List.find (\<lambda>p. p = cr_Path r) ps"

definition whole_sent :: "string \<Rightarrow> exchange list option" where
  "whole_sent path =
     (case whole_engine of
        None \<Rightarrow> None
      | Some e \<Rightarrow>
          map_option (\<lambda>(w, bss, v, log). log)
            (engine_serve same_path (\<lambda>r wv. Some wv) net_http e (sample_client_request\<lparr>cr_Path := path\<rparr>)
              (new_net_writer, whole_balancers, (), [])))"

lemma whole_sent_headers:
  "map_option (map (\<lambda>x. hr_Header (fst x))) (whole_sent ''/e'') = Some [[(''A'', [''1''])]]"
  by code_simp

lemma whole_sent_own: "map_option length (whole_sent ''/__debug/'') = Some 0"
  by code_simp

theorem gateway_routes_requests_witness:
  "\<exists>q answer. whole_sent ''/e'' = Some [(q, answer)] \<and> hr_Header q = [(''A'', [''1''])] \<and>
     only_listed (fe_parse sample_factory_env) u_rest {''http://h''} [] whole_endpoint
       (sample_backend\<lparr>b_Decoder := Some string_decoder\<rparr>) (sample_client_request\<lparr>cr_Path := ''/e''\<rparr>) q"
proof -
  let ?remote = "sample_backend\<lparr>b_Decoder := Some string_decoder\<rparr>"
  let ?req = "sample_client_request\<lparr>cr_Path := ''/e''\<rparr>"
  from whole_sent_headers obtain q answer where q: "whole_sent ''/e'' = Some [(q, answer)]"
    "hr_Header q = [(''A'', [''1''])]" by auto
  then obtain e w bss v where engine: "whole_engine = Some e"
    and run: "engine_serve same_path (\<lambda>r wv. Some wv) net_http e ?req (new_net_writer, whole_balancers, (), []) =
      Some (w, bss, v, [(q, answer)])"
    unfolding whole_sent_def by (auto split: option.splits)
  have "case whole_built whole_endpoint of Inr (Built _) \<Rightarrow> True | _ \<Rightarrow> False" by code_simp
  then obtain bs p where built: "whole_built whole_endpoint = Inr (Built (bs, p))"
    by (auto split: sum.splits built.splits)
  have "e_Backend whole_endpoint = [?remote]" "ec_map (e_ExtraConfig whole_endpoint) plugin_Namespace = None"
    by (simp_all add: whole_endpoint_def Gateway.sample_endpoint_def endpoint_zero_def ec_map_def)
  moreover have "plain_backend ?remote"
    by (simp add: plain_backend_def sample_backend_def backend_zero_def ec_map_def)
  moreover have "balancer_of (fixed_subscriber_factory ?remote) (whole_balancers (endpoint_key whole_endpoint) ! 0)"
  proof -
    have "case whole_balancers (endpoint_key whole_endpoint) ! 0 of NopBalancer h \<Rightarrow> h = ''http://h'' | _ \<Rightarrow> False"
      by code_simp
    then have "whole_balancers (endpoint_key whole_endpoint) ! 0 = NopBalancer ''http://h''"
      by (simp split: balancer.splits)
    then show ?thesis
      by (simp add: balancer_of_def balancer_view_def fixed_subscriber_factory_def sample_backend_def)
  qed
  moreover have "whole_pf whole_endpoint = Inr (endpoint_pipe (endpoint_key whole_endpoint) p)"
    by (simp add: whole_pf_def built)
  ultimately have endpoints: "\<forall>c \<in> set (s_Endpoints whole_service). (\<exists>err. whole_pf c = Inl err) \<or>
      (e_Backend c = [?remote] \<and> plain_backend ?remote \<and> ec_map (e_ExtraConfig c) plugin_Namespace = None \<and>
       (\<exists>bs p. whole_pf c = Inr (endpoint_pipe (endpoint_key c) p) \<and> whole_built c = Inr (Built (bs, p))) \<and>
       balancer_of (fixed_subscriber_factory ?remote) (whole_balancers (endpoint_key c) ! 0))"
    using built by (simp add: whole_service_def)
  have maps: "gomap_ok (cr_Header ?req)" "gomap_ok (cr_Query ?req)"
    by (simp_all add: sample_client_request_def)
  have miss: "keeps_world (\<lambda>r wv. Some wv)" by (simp add: keeps_world_def)
  from gateway_routes_requests [OF engine endpoints maps miss run] q show ?thesis
    by (auto simp: whole_service_def fixed_subscriber_factory_def sample_backend_def)
qed

end
