(* ===== verification/Spec2Isabelle.thy ===== *)
theory Spec2Isabelle
  imports ConfigParser Async GinEngine Server Plugins UrlQuery Typing Gateway GinGateway RouterFlavours RouterRuns Logging ClientTls
    Assembly Lifetimes DebugLog Adapters Service WholeGateway
begin

text \<open>
  A model of the API gateway library in \<open>src/\<close> and the theorems that say what it does.

  \<^bold>\<open>The program.\<close> A gateway serves endpoints, each fed by one or several backends. The configuration is read
  and checked (\<open>config\<close>), an engine gets a handler per endpoint (\<open>router\<close>), and a request runs through the
  proxy of its endpoint (\<open>proxy\<close>): a merger over the stacks of its backends, each a chain of middlewares
  that builds the request (method, path, headers, query strings), picks a host (\<open>sd\<close>) and ends in an HTTP
  call (\<open>transport/http/client\<close>), whose response is decoded (\<open>encoding\<close>), filtered and formatted on the way
  back and rendered by the router. Around this are the server (\<open>transport/http/server\<close>), plugins
  (\<open>plugin\<close>), async agents (\<open>async\<close>, \<open>backoff\<close>), registers (\<open>register\<close>) and logging (\<open>logging\<close>).

  \<^bold>\<open>Theories\<close>, in the order they build on each other; paths are under \<open>src/\<close>.

  \<^item> \<open>Prelude\<close>, \<open>Values\<close>: Go strings and maps, the errors of the program, and dynamic values
    (\<open>interface{}\<close>) with paths into nested maps.
  \<^item> \<open>Registers\<close> (\<open>register/register.go\<close> and the typed registers), \<open>Encoding\<close> (\<open>encoding/\<close>).
  \<^item> \<open>ConfigTypes\<close>, \<open>ConfigUri\<close>, \<open>ConfigStreaming\<close>, \<open>ConfigInit\<close>, \<open>ConfigParser\<close>: the structs of
    \<open>config/config.go\<close>, hosts and paths (\<open>config/uri.go\<close>), the checks of \<open>config/streaming.go\<close>,
    \<open>ServiceConfig.Init\<close>, and \<open>config/parser.go\<close>.
  \<^item> \<open>Request\<close> (\<open>proxy/request.go\<close>, \<open>proxy/proxy.go\<close>), \<open>PropertyFilters\<close> and \<open>Formatter\<close>
    (\<open>proxy/formatter.go\<close>).
  \<^item> \<open>MergeCore\<close>, \<open>ParallelMerge\<close>, \<open>SequentialMerge\<close> (\<open>proxy/merging.go\<close>).
  \<^item> \<open>Balancer\<close> (\<open>sd/loadbalancing.go\<close>, \<open>sd/subscriber.go\<close>), \<open>Dnssrv\<close> (\<open>sd/dnssrv/subscriber.go\<close>).
  \<^item> \<open>Middleware\<close> (request builder, filters of headers and query strings, load balancing, static data,
    plugin modifiers, flatmap, logging), \<open>GraphQL\<close> (\<open>proxy/graphql.go\<close>,
    \<open>transport/http/client/graphql/\<close>), \<open>HttpProxy\<close> (\<open>proxy/http.go\<close>, \<open>proxy/http_response.go\<close>,
    \<open>transport/http/client/status.go\<close>), \<open>Concurrent\<close> (\<open>proxy/concurrent.go\<close>), \<open>Factory\<close>
    (\<open>proxy/factory.go\<close>, \<open>proxy/shadow.go\<close>).
  \<^item> \<open>RouterRequest\<close>, \<open>ResponseWriter\<close>, \<open>MuxRouter\<close>, \<open>MuxEngine\<close> (\<open>router/mux/\<close>), \<open>GinRouter\<close>, \<open>GinEngine\<close>
    (\<open>router/gin/\<close>), \<open>RouterFlavours\<close> (\<open>router/chi/\<close>, \<open>router/gorilla/\<close>, \<open>router/httptreemux/\<close>,
    \<open>router/negroni/\<close>).
  \<^item> \<open>Server\<close> (\<open>transport/http/server/server.go\<close>), \<open>ClientTls\<close>
    (\<open>transport/http/client/backend_tls.go\<close>), \<open>Plugins\<close> (loaders of plugins, server and client plugins),
    \<open>Async\<close> (\<open>async/asyncagent.go\<close>, \<open>backoff/backoff.go\<close>), \<open>Logging\<close> (\<open>logging/log.go\<close>).
  \<^item> \<open>Assembly\<close>: the tables and constructors that give the parameters of the theories above their values
    in the program.
  \<^item> \<open>Lifetimes\<close>: what outlives a call (the bodies of no-op responses in \<open>proxy/proxy.go\<close>, the reports of
    the agents in \<open>router/gin/engine.go\<close>). \<open>RouterRuns\<close>: \<open>Run\<close> of the routers, with what they log. \<open>Adapters\<close>:
    the wrappers modifier plugins are given (\<open>proxy/plugin.go\<close>) and gin's writer (\<open>router/gin/safecast.go\<close>). \<open>DebugLog\<close>: the files that
    \<open>proxy/static.go\<close> and \<open>transport/http/client/status.go\<close> write.
  \<^item> \<open>UrlQuery\<close>, \<open>Typing\<close>, \<open>Gateway\<close>, \<open>GinGateway\<close>, \<open>Service\<close>, \<open>WholeGateway\<close>: properties across
    components: a query string survives its trip to a backend, responses hold JSON values from decoding to
    merging, what leaves the gateway for a client's request behind either router and behind a whole
    engine, and what \<open>Init\<close> guarantees about the paths the routers register.

  \<^bold>\<open>How code becomes definitions.\<close> A struct is a record, an enumeration a datatype, a method a function of
  its receiver. A proxy is a \<open>pipe\<close>: called in a world with a request it panics or returns a response, an
  error, the request as its caller sees it afterwards, and the next world. A Go map is an association list
  (\<open>gomap\<close>) with distinct keys; where the order of iteration can matter, the list is that order and the
  theorems hold for every one, or a finding says that they do not. Errors are values of \<open>goerror\<close>; a panic is
  \<open>None\<close>, \<open>Panic\<close> or \<open>BPanics\<close>. Durations, counters and weights keep their width. Maps that the code shares
  are references into a store in \<open>SequentialMerge\<close> and the by-reference half of \<open>MergeCore\<close>, where the sharing
  is observable.

  Concurrent code is a step relation: \<open>par_step\<close> (goroutines, channels and the deadline of the parallel
  merger), \<open>cc_step\<close> (concurrent calls), \<open>server_step\<close> (the serving goroutine and the shutdown),
  \<open>body_step\<close> and \<open>health_step\<close> (the goroutines of \<open>Lifetimes\<close>). What is
  proved of them holds in every reachable state, so in every schedule; where the outcome depends on what
  happened when, as in the parallel merger, the run is labelled with its history (\<open>par_run\<close>); bounded measures and progress lemmas
  show that they return. No definition uses fuel: loops are structural recursion or have a measure.

  \<^bold>\<open>Interfaces.\<close> \<open>keyed_register\<close> (both registers), \<open>property_filter\<close> (deny list, allow list and the filter a
  backend chooses), \<open>host_picker\<close> (balancers), \<open>body_writer\<close> and \<open>flushing_writer\<close> (response writers),
  \<open>dispatching_engine\<close> (the basic engine); each is interpreted on the model of the code that provides it.

  \<^bold>\<open>Groups of lemmas.\<close> Of the filters, the formatter and the mergers: which value is found at which path
  of the result. Of the middlewares: what a stage changes in the request it passes on, composed to the stack
  of a backend (\<open>Factory\<close>), to the handler of an endpoint in both directions (\<open>Gateway\<close>, \<open>GinGateway\<close>) and to
  the engine with all its endpoints (\<open>WholeGateway\<close>). Of the mergers and of concurrent calls: refinement of
  merging one outcome after another, termination, and where a response comes from. Of the routers: the
  answer for every result of the proxy, which handler serves which path and method, what is logged of each
  endpoint, and that no accepted configuration shadows the service's own endpoints. Of the
  configuration: what holds after \<open>Init\<close>, and when it is refused. Of the balancers and of DNS: membership,
  fairness, independence of the order of records.

  \<^bold>\<open>Parameters.\<close> The standard library and other packages are arguments: JSON, gzip, \<open>net/url\<close> parsing and
  printing, \<open>http.ServeMux\<close>, the engines of gin, chi, gorilla, httptreemux and negroni, the tree behind the
  flatmap operations, the HTTP client, the DNS lookup, files, certificates and shared objects, random
  numbers. What a theorem needs of them is one of its hypotheses.

  \<^bold>\<open>Not modelled.\<close> The bodies behind these parameters. A shadow request is handed to the list of what runs
  beside the answer and its run ends there, as the code drops its result. The consumers of async agents
  are foreign code, as is the error group that waits for them: their factories and the state of the group
  are parameters. The contexts that wrappers carry to plugins are left out. The example plugins under
  \<open>tests\<close> directories serve the tests of the plugin loaders. Locks are not modelled: each locked operation
  is one step. Times are the order of events; no clock is modelled.
\<close>

end
